theory Spec2Isabelle
  imports Complex_Main
begin

unbundle bit_operations_syntax

section \<open>Numbers and errors\<close>

text \<open>
  The TypeScript sources use two kinds of numbers.  A \<open>bigint\<close> is an unbounded integer
  and is modelled as \<open>int\<close>; its division truncates toward zero and throws a
  \<open>RangeError\<close> on a zero divisor, and its \<open>>>\<close> is the arithmetic shift, that is
  \<open>drop_bit\<close> on \<open>int\<close>.  The decimal string of a bigint (\<open>x.toString()\<close>) is
  modelled by the bigint itself.

  A \<open>number\<close> is an IEEE 754 binary64.  A \<open>number\<close> that holds a tick, an id, a count,
  a score, a confidence or a block height is an integer far below \<open>2^53\<close> (ticks are
  \<open>int24\<close> values of the pool, scores are \<open>uint8\<close>) and is modelled as \<open>int\<close> or
  \<open>nat\<close>: on such integers the sums, differences, products by 60 and halvings of the
  source are exact, and so is the floor of a quotient by 60.  Every other finite
  \<open>number\<close> is modelled as the rational it denotes (\<open>rat\<close>), and every fractional
  literal, quotient and product that need not be exact is rounded to the nearest binary64
  by \<open>round64\<close>, as the source's arithmetic does.

  A rejected promise or a thrown exception is the \<open>Inl\<close> branch of a sum.
\<close>

datatype error =
    RangeError          \<comment> \<open>bigint division by zero\<close>
  | TypeError           \<comment> \<open>a property read on \<open>undefined\<close>\<close>
  | CallError string    \<comment> \<open>an external call (RPC read, transaction, confirmation) failed\<close>

definition tquot :: "int \<Rightarrow> int \<Rightarrow> int" where
  "tquot a b = sgn a * sgn b * (\<bar>a\<bar> div \<bar>b\<bar>)"

definition bigint_div :: "int \<Rightarrow> int \<Rightarrow> error + int" where
  "bigint_div a b = (if b = 0 then Inl RangeError else Inr (tquot a b))"

text \<open>The bigint remainder \<open>a % b\<close> for a nonzero \<open>b\<close>: it has the sign of \<open>a\<close>.\<close>

definition bigint_rem :: "int \<Rightarrow> int \<Rightarrow> int" where
  "bigint_rem a b = sgn a * (\<bar>a\<bar> mod \<bar>b\<bar>)"

text \<open>
  Rounding to binary64: 53 significant bits, to the nearest, a tie to the even
  significand.  \<open>bitLength n\<close> is the number of bits of a positive \<open>n\<close>, \<open>pow2 e\<close> is
  \<open>2^e\<close>, \<open>ilog2 x\<close> is the exponent of the leading bit of a positive \<open>x\<close>.  The
  exponent range of binary64 is not modelled: the magnitudes this program computes with
  (ticks, scores, percentages) are far inside it.
\<close>

function bitLength :: "int \<Rightarrow> int" where
  "bitLength n = (if n \<le> 0 then 0 else 1 + bitLength (n div 2))"
  by pat_completeness auto
termination by (relation "measure nat") auto

declare bitLength.simps [simp del]

definition pow2 :: "int \<Rightarrow> rat" where
  "pow2 e = (if 0 \<le> e then 2 ^ nat e else 1 / 2 ^ nat (- e))"

definition ilog2 :: "rat \<Rightarrow> int" where
  "ilog2 x = (let (p, q) = quotient_of x;
                  k = bitLength p - bitLength q
              in if pow2 k \<le> x then k else k - 1)"

definition roundEven :: "rat \<Rightarrow> int" where
  "roundEven x = (let n = \<lfloor>x\<rfloor>; r = x - of_int n
                  in if r < 1 / 2 then n else if r > 1 / 2 then n + 1
                     else if even n then n else n + 1)"

definition round64 :: "rat \<Rightarrow> rat" where
  "round64 x = (if x = 0 then 0
                else (let e = ilog2 \<bar>x\<bar> - 52
                      in sgn x * of_int (roundEven (\<bar>x\<bar> / pow2 e)) * pow2 e))"

section \<open>Strategies and decisions (types.ts, config.ts)\<close>

datatype StrategyName = CONSERVATIVE | BALANCED | DEGEN

text \<open>\<open>STRATEGY_MAP[i]\<close>; an index outside the array reads \<open>undefined\<close>.\<close>

definition STRATEGY_MAP :: "nat \<Rightarrow> StrategyName option" where
  "STRATEGY_MAP i = (if i = 0 then Some CONSERVATIVE else if i = 1 then Some BALANCED
                     else if i = 2 then Some DEGEN else None)"

record StrategyConfig =
  tickRangeMultiplier :: int
  maxSlippage :: rat
  rebalanceThreshold :: rat
  description :: string

text \<open>The literals \<open>0.005\<close>, \<open>0.7\<close>, ... of \<open>STRATEGY_CONFIG\<close> denote the nearest binary64.\<close>

definition STRATEGY_CONFIG :: "StrategyName \<Rightarrow> StrategyConfig" where
  "STRATEGY_CONFIG s =
     (case s of
        CONSERVATIVE \<Rightarrow>
          \<lparr>tickRangeMultiplier = 2, maxSlippage = round64 (5 / 1000),
           rebalanceThreshold = round64 (7 / 10),
           description = ''Narrow range, low risk, frequent rebalancing''\<rparr>
      | BALANCED \<Rightarrow>
          \<lparr>tickRangeMultiplier = 10, maxSlippage = round64 (1 / 100),
           rebalanceThreshold = round64 (85 / 100),
           description = ''Medium range, moderate risk''\<rparr>
      | DEGEN \<Rightarrow>
          \<lparr>tickRangeMultiplier = 50, maxSlippage = round64 (3 / 100),
           rebalanceThreshold = round64 (95 / 100),
           description = ''Wide range, high yield potential''\<rparr>)"

datatype Action = MINT | CLOSE | HOLD | REBALANCE

record PositionDecision =
  action :: Action
  tickLower :: "int option"
  tickUpper :: "int option"
  reason :: string
  confidence :: int

record PoolAnalysis =
  currentTick :: int
  currentPrice :: rat
  pa_liquidity :: int
  feeGrowth0 :: int
  feeGrowth1 :: int

text \<open>An entry of \<open>existingPositions\<close>: \<open>{tickLower, tickUpper, liquidity}\<close>.\<close>

record ExistingPosition =
  pos_tickLower :: int
  pos_tickUpper :: int
  pos_liquidity :: int

section \<open>The deterministic fallback decision (llm-analyzer.ts)\<close>

text \<open>\<open>Math.floor(tick / tickSpacing) * tickSpacing\<close> with \<open>tickSpacing = 60\<close>; on integers
  \<open>div\<close> is the floor of the quotient.\<close>

definition alignTick :: "int \<Rightarrow> int" where
  "alignTick tick = (tick div 60) * 60"

text \<open>The test of one position.  The centre, the distance and the half-width are
  multiples of one half and exact; the product with the threshold is rounded.\<close>

definition outOfRange :: "StrategyConfig \<Rightarrow> int \<Rightarrow> ExistingPosition \<Rightarrow> bool" where
  "outOfRange config cur pos =
     (let posCenter = (of_int (pos_tickLower pos + pos_tickUpper pos) :: rat) / 2;
          distanceFromCenter = \<bar>of_int cur - posCenter\<bar>;
          posRange = (of_int (pos_tickUpper pos - pos_tickLower pos) :: rat) / 2;
          outOfRangeThreshold = round64 (posRange * rebalanceThreshold config)
      in distanceFromCenter > outOfRangeThreshold)"

definition getFallbackDecision ::
  "PoolAnalysis \<Rightarrow> StrategyName \<Rightarrow> ExistingPosition list \<Rightarrow> PositionDecision" where
  "getFallbackDecision poolState strategy existingPositions =
     (let config = STRATEGY_CONFIG strategy;
          cur = currentTick poolState;
          tickSpacing = 60;
          tickRange = tickRangeMultiplier config * tickSpacing;
          lo = alignTick (cur - tickRange);
          hi = alignTick (cur + tickRange)
      in if length existingPositions = 0 then
           \<lparr>action = MINT, tickLower = Some lo, tickUpper = Some hi,
            reason = ''[Fallback] LLM unavailable - auto-minting based on strategy config'',
            confidence = 75\<rparr>
         else if list_ex (outOfRange config cur) existingPositions then
           \<lparr>action = REBALANCE, tickLower = Some lo, tickUpper = Some hi,
            reason = ''[Fallback] LLM unavailable - auto-rebalancing out-of-range position'',
            confidence = 70\<rparr>
         else
           \<lparr>action = HOLD, tickLower = None, tickUpper = None,
            reason = ''[Fallback] LLM unavailable - positions appear in range'',
            confidence = 60\<rparr>)"

section \<open>Fixed-point liquidity math (tx-executor.ts)\<close>

definition Q96 :: int where
  "Q96 = push_bit 96 1"

definition getLiquidityForAmount0 :: "int \<Rightarrow> int \<Rightarrow> int \<Rightarrow> error + int" where
  "getLiquidityForAmount0 sqrtPriceAX96 sqrtPriceBX96 amount0 =
     (let (a, b) = (if sqrtPriceAX96 > sqrtPriceBX96 then (sqrtPriceBX96, sqrtPriceAX96)
                    else (sqrtPriceAX96, sqrtPriceBX96))
      in case bigint_div (a * b) Q96 of
           Inl e \<Rightarrow> Inl e
         | Inr intermediate \<Rightarrow> bigint_div (amount0 * intermediate) (b - a))"

definition getLiquidityForAmount1 :: "int \<Rightarrow> int \<Rightarrow> int \<Rightarrow> error + int" where
  "getLiquidityForAmount1 sqrtPriceAX96 sqrtPriceBX96 amount1 =
     (let (a, b) = (if sqrtPriceAX96 > sqrtPriceBX96 then (sqrtPriceBX96, sqrtPriceAX96)
                    else (sqrtPriceAX96, sqrtPriceBX96))
      in bigint_div (amount1 * Q96) (b - a))"

definition getLiquidityForAmounts :: "int \<Rightarrow> int \<Rightarrow> int \<Rightarrow> int \<Rightarrow> int \<Rightarrow> error + int" where
  "getLiquidityForAmounts sqrtPriceX96 sqrtPriceAX96 sqrtPriceBX96 amount0 amount1 =
     (let (a, b) = (if sqrtPriceAX96 > sqrtPriceBX96 then (sqrtPriceBX96, sqrtPriceAX96)
                    else (sqrtPriceAX96, sqrtPriceBX96))
      in if sqrtPriceX96 \<le> a then getLiquidityForAmount0 a b amount0
         else if sqrtPriceX96 < b then
           (case getLiquidityForAmount0 sqrtPriceX96 b amount0 of
              Inl e \<Rightarrow> Inl e
            | Inr liq0 \<Rightarrow>
                (case getLiquidityForAmount1 a sqrtPriceX96 amount1 of
                   Inl e \<Rightarrow> Inl e
                 | Inr liq1 \<Rightarrow> Inr (if liq0 < liq1 then liq0 else liq1)))
         else getLiquidityForAmount1 a b amount1)"


text \<open>
  \<open>tickToSqrtPriceX96\<close>: the bit decomposition of \<open>Math.abs(tick)\<close>.  The test
  \<open>(absTick & m) !== 0\<close> reads one of the low 20 bits, which the conversion to a 32-bit
  integer done by \<open>&\<close> keeps.
\<close>

definition mulShift :: "int \<Rightarrow> int \<Rightarrow> int \<Rightarrow> int \<Rightarrow> int" where
  "mulShift absTick m c ratio =
     (if absTick AND m \<noteq> 0 then drop_bit 128 (ratio * c) else ratio)"

definition tickRatio :: "int \<Rightarrow> int" where
  "tickRatio absTick =
     (let ratio = (if absTick AND 0x1 \<noteq> 0 then 0xfffcb933bd6fad37aa2d162d1a594001
                   else 0x100000000000000000000000000000000);
          ratio = mulShift absTick 0x2 0xfff97272373d413259a46990580e213a ratio;
          ratio = mulShift absTick 0x4 0xfff2e50f5f656932ef12357cf3c7fdcc ratio;
          ratio = mulShift absTick 0x8 0xffe5caca7e10e4e61c3624eaa0941cd0 ratio;
          ratio = mulShift absTick 0x10 0xffcb9843d60f6159c9db58835c926644 ratio;
          ratio = mulShift absTick 0x20 0xff973b41fa98c081472e6896dfb254c0 ratio;
          ratio = mulShift absTick 0x40 0xff2ea16466c96a3843ec78b326b52861 ratio;
          ratio = mulShift absTick 0x80 0xfe5dee046a99a2a811c461f1969c3053 ratio;
          ratio = mulShift absTick 0x100 0xfcbe86c7900a88aedcffc83b479aa3a4 ratio;
          ratio = mulShift absTick 0x200 0xf987a7253ac413176f2b074cf7815e54 ratio;
          ratio = mulShift absTick 0x400 0xf3392b0822b70005940c7a398e4b70f3 ratio;
          ratio = mulShift absTick 0x800 0xe7159475a2c29b7443b29c7fa6e889d9 ratio;
          ratio = mulShift absTick 0x1000 0xd097f3bdfd2022b8845ad8f792aa5825 ratio;
          ratio = mulShift absTick 0x2000 0xa9f746462d870fdf8a65dc1f90e061e5 ratio;
          ratio = mulShift absTick 0x4000 0x70d869a156d2a1b890bb3df62baf32f7 ratio;
          ratio = mulShift absTick 0x8000 0x31be135f97d08fd981231505542fcfa6 ratio;
          ratio = mulShift absTick 0x10000 0x9aa508b5b7a84e1c677de54f3e99bc9 ratio;
          ratio = mulShift absTick 0x20000 0x5d6af8dedb81196699c329225ee604 ratio;
          ratio = mulShift absTick 0x40000 0x2216e584f5fa1ea926041bedfe98 ratio;
          ratio = mulShift absTick 0x80000 0x48a170391f7dc42444e8fa2 ratio
      in ratio)"

definition tickToSqrtPriceX96 :: "int \<Rightarrow> error + int" where
  "tickToSqrtPriceX96 tick =
     (let absTick = \<bar>tick\<bar>;
          ratio = tickRatio absTick
      in case (if tick > 0 then bigint_div (2 ^ 256 - 1) ratio else Inr ratio) of
           Inl e \<Rightarrow> Inl e
         | Inr ratio \<Rightarrow>
             Inr (drop_bit 32 ratio + (if bigint_rem ratio (push_bit 32 1) > 0 then 1 else 0)))"

section \<open>The ledger, the registries and the process state\<close>

record PoolState =
  sqrtPriceX96 :: int
  tick :: int
  liquidity :: int
  feeGrowthGlobal0 :: int
  feeGrowthGlobal1 :: int

record DepositInfo =
  user :: string
  amount0Remaining :: int
  amount1Remaining :: int
  lockUntil :: int
  strategy :: nat
  assignedAgent :: string
  status :: nat
  positionTokenIds :: "nat list"

record PositionInfo =
  pi_tokenId :: nat
  pi_liquidity :: int
  pi_tickLower :: int
  pi_tickUpper :: int
  pi_currentTick :: int
  pi_sqrtPriceX96 :: int

record AgentInfo =
  agentId :: nat
  domain :: string
  address :: string

text \<open>A log of a confirmation, as \<open>iface.parseLog\<close> sees it: the creation record with its
  deposit id and token id, or anything else (another event, or a log that does not parse).\<close>

datatype TxLog = PositionCreated nat nat | OtherLog

record Receipt =
  hash :: string
  logs :: "TxLog list"

record ValidationRecord =
  dataHash :: string
  vr_agentId :: nat
  validatorId :: nat
  score :: "int option"
  responded :: bool
  timestamp :: int

text \<open>Events replayed from the validation registry; \<open>None\<close> is a log without \<open>args\<close>.\<close>

record RequestArgs =
  rq_agentValidatorId :: nat
  rq_agentServerId :: nat
  rq_dataHash :: string

record ResponseArgs =
  rs_dataHash :: string
  rs_response :: int

text \<open>Events of the liquidity agent contract, as the event poller reads them.\<close>

record DepositCreatedArgs =
  dc_depositId :: nat
  dc_user :: string
  dc_amount0 :: int
  dc_amount1 :: int
  dc_strategy :: nat
  dc_lockUntil :: int

record AgentAssignedArgs =
  aa_depositId :: nat
  aa_agent :: string

text \<open>
  Everything outside the process is a world of type \<open>'w\<close> and a table of calls on it.  Each
  call returns its result, or the error it raised, together with the world after the call:
  every call is an asynchronous suspension point, and the world may have moved.

  \<open>nowMs\<close> is \<open>Date.now()\<close>.  \<open>getPoolState\<close>, \<open>getDepositInfo\<close> and \<open>getPositionInfo\<close>
  are the readers of pool-reader.ts, which only convert what the router and agent contracts
  return.  \<open>agentMintPosition\<close> and \<open>agentClosePosition\<close> are a transaction with its
  confirmation (\<open>tx.wait()\<close>).  \<open>tickToPrice\<close> is the display conversion
  \<open>Math.pow(1.0001, tick)\<close> scaled by the decimals.  \<open>llm\<close> is the call of the language model
  with the parsing of its answer.  \<open>keccak256\<close> hashes the serialised payload
  \<open>{depositId, decision, timestamp}\<close>.  \<open>validationRequest\<close> and \<open>validationResponse\<close> are
  transactions of the validation registry with their confirmation, \<open>isValidationPending\<close>
  and \<open>getValidationResponse\<close> its views, and \<open>queryValidationEvents\<close> the two
  \<open>queryFilter\<close> calls for the request and response events of an agent, which succeed or
  fail together.  \<open>getAgent\<close>, \<open>getAgentCount\<close> and \<open>isFeedbackAuthorized\<close> are views of
  the identity and reputation registries.  \<open>getBlockNumber\<close>, \<open>queryDepositCreated\<close> and
  \<open>queryAgentAssigned\<close> are the reads of the event poller.
\<close>

record 'w Env =
  nowMs :: "'w \<Rightarrow> int"
  agentWalletAddress :: string
  getPoolState :: "'w \<Rightarrow> (error + PoolState) \<times> 'w"
  getDepositInfo :: "'w \<Rightarrow> nat \<Rightarrow> (error + DepositInfo) \<times> 'w"
  getPositionInfo :: "'w \<Rightarrow> nat \<Rightarrow> (error + PositionInfo) \<times> 'w"
  agentMintPosition ::
    "'w \<Rightarrow> nat \<Rightarrow> int \<Rightarrow> int \<Rightarrow> int \<Rightarrow> int \<Rightarrow> int \<Rightarrow> int \<Rightarrow> (error + Receipt) \<times> 'w"
  agentClosePosition :: "'w \<Rightarrow> nat \<Rightarrow> nat \<Rightarrow> int \<Rightarrow> int \<Rightarrow> int \<Rightarrow> (error + Receipt) \<times> 'w"
  tickToPrice :: "int \<Rightarrow> rat"
  llm :: "'w \<Rightarrow> PoolAnalysis \<Rightarrow> StrategyName \<Rightarrow> ExistingPosition list
            \<Rightarrow> (error + PositionDecision) \<times> 'w"
  keccak256 :: "nat \<times> PositionDecision \<times> int \<Rightarrow> string"
  validationRequest :: "'w \<Rightarrow> nat \<Rightarrow> nat \<Rightarrow> string \<Rightarrow> (error + unit) \<times> 'w"
  validationResponse :: "'w \<Rightarrow> string \<Rightarrow> int \<Rightarrow> (error + unit) \<times> 'w"
  isValidationPending :: "'w \<Rightarrow> string \<Rightarrow> (error + bool \<times> bool) \<times> 'w"
  getValidationResponse :: "'w \<Rightarrow> string \<Rightarrow> (error + bool \<times> int) \<times> 'w"
  queryValidationEvents ::
    "'w \<Rightarrow> nat \<Rightarrow> (error + RequestArgs option list \<times> ResponseArgs option list) \<times> 'w"
  getAgent :: "'w \<Rightarrow> nat \<Rightarrow> (error + AgentInfo) \<times> 'w"
  getAgentCount :: "'w \<Rightarrow> (error + nat) \<times> 'w"
  isFeedbackAuthorized :: "'w \<Rightarrow> nat \<Rightarrow> nat \<Rightarrow> (error + bool \<times> string) \<times> 'w"
  getBlockNumber :: "'w \<Rightarrow> (error + int) \<times> 'w"
  queryDepositCreated :: "'w \<Rightarrow> int \<Rightarrow> int \<Rightarrow> (error + DepositCreatedArgs option list) \<times> 'w"
  queryAgentAssigned :: "'w \<Rightarrow> int \<Rightarrow> int \<Rightarrow> (error + AgentAssignedArgs option list) \<times> 'w"

text \<open>
  The trace is not a variable of the source.  It records, in the order in which they
  happen, the transactions the process submits and the calls of \<open>executeDecision\<close>, so that
  ``nothing is submitted'' and ``is never called'' can be stated.
\<close>

datatype Event =
    MintTx nat int int int int int int
  | CloseTx nat nat int int int
  | ValidationRequestTx nat nat string
  | ValidationResponseTx string int
  | ExecuteDecision nat PositionDecision

text \<open>The process state: the world, the three module-level stores and the trace.\<close>

record 'w Sys =
  world :: 'w
  positionTickCache :: "nat \<rightharpoonup> int \<times> int"
  validationStore :: "ValidationRecord list"
  agentInfo :: "AgentInfo option"
  trace :: "Event list"

section \<open>The execution coordinator (tx-executor.ts)\<close>

record MintResult =
  mr_tokenId :: "nat option"
  mr_txHash :: string
  mr_liquidity :: int
  mr_amount0 :: int
  mr_amount1 :: int

record CloseResult =
  cr_tokenId :: nat
  cr_txHash :: string

record RebalanceResult =
  closeTxHashes :: "CloseResult list"
  mintResult :: "MintResult option"
  newTokenId :: "nat option"

record ExecutionResult =
  er_action :: string
  txHashes :: "string list"
  er_newTokenId :: "nat option"
  er_tickLower :: "int option"
  er_tickUpper :: "int option"

definition getCachedPositionTicks :: "'w Sys \<Rightarrow> nat \<Rightarrow> (int \<times> int) option" where
  "getCachedPositionTicks s tokenId = positionTickCache s tokenId"

text \<open>The loop over \<open>receipt.logs\<close>: the first creation record, if any.\<close>

fun findPositionCreated :: "TxLog list \<Rightarrow> nat option" where
  "findPositionCreated [] = None"
| "findPositionCreated (PositionCreated d t # ls) = Some t"
| "findPositionCreated (OtherLog # ls) = findPositionCreated ls"

definition executeMintPosition ::
  "'w Env \<Rightarrow> nat \<Rightarrow> int \<Rightarrow> int \<Rightarrow> int \<Rightarrow> int \<Rightarrow> 'w Sys \<Rightarrow> (error + MintResult option) \<times> 'w Sys" where
  "executeMintPosition env depositId lower upper amount0Max amount1Max s =
     (let deadline = nowMs env (world s) div 1000 + 300 in
      case getPoolState env (world s) of
        (Inl e, w1) \<Rightarrow> (Inl e, s\<lparr>world := w1\<rparr>)
      | (Inr poolState, w1) \<Rightarrow>
          (case tickToSqrtPriceX96 lower of
             Inl e \<Rightarrow> (Inl e, s\<lparr>world := w1\<rparr>)
           | Inr sqrtPriceA \<Rightarrow>
          (case tickToSqrtPriceX96 upper of
             Inl e \<Rightarrow> (Inl e, s\<lparr>world := w1\<rparr>)
           | Inr sqrtPriceB \<Rightarrow>
          (case getLiquidityForAmounts (sqrtPriceX96 poolState) sqrtPriceA sqrtPriceB
                  amount0Max amount1Max of
             Inl e \<Rightarrow> (Inl e, s\<lparr>world := w1\<rparr>)
           | Inr liquidity0 \<Rightarrow>
               (let liq = tquot (liquidity0 * 99) 100 in
                if liq = 0 then (Inr None, s\<lparr>world := w1\<rparr>)
                else
                  (let tr = trace s @ [MintTx depositId lower upper liq amount0Max amount1Max deadline]
                   in case agentMintPosition env w1 depositId lower upper liq
                             amount0Max amount1Max deadline of
                        (Inl e, w2) \<Rightarrow> (Inl e, s\<lparr>world := w2, trace := tr\<rparr>)
                      | (Inr receipt, w2) \<Rightarrow>
                          (let tokenId = findPositionCreated (logs receipt);
                               cache = (case tokenId of
                                          None \<Rightarrow> positionTickCache s
                                        | Some t \<Rightarrow> (positionTickCache s)(t \<mapsto> (lower, upper)))
                           in (Inr (Some \<lparr>mr_tokenId = tokenId, mr_txHash = hash receipt,
                                          mr_liquidity = liq, mr_amount0 = amount0Max,
                                          mr_amount1 = amount1Max\<rparr>),
                               s\<lparr>world := w2, positionTickCache := cache, trace := tr\<rparr>))))))))"

definition executeClosePosition ::
  "'w Env \<Rightarrow> nat \<Rightarrow> nat \<Rightarrow> 'w Sys \<Rightarrow> (error + CloseResult) \<times> 'w Sys" where
  "executeClosePosition env depositId tokenId s =
     (let deadline = nowMs env (world s) div 1000 + 300;
          tr = trace s @ [CloseTx depositId tokenId 0 0 deadline]
      in case agentClosePosition env (world s) depositId tokenId 0 0 deadline of
           (Inl e, w1) \<Rightarrow> (Inl e, s\<lparr>world := w1, trace := tr\<rparr>)
         | (Inr receipt, w1) \<Rightarrow>
             (Inr \<lparr>cr_tokenId = tokenId, cr_txHash = hash receipt\<rparr>,
              s\<lparr>world := w1, positionTickCache := (positionTickCache s)(tokenId := None),
                trace := tr\<rparr>))"

text \<open>The loop \<open>for (const tokenId of deposit.positionTokenIds)\<close> of \<open>executeRebalance\<close>:
  each close is awaited before the next one starts, and the first failure ends the loop.\<close>

fun closeLoop ::
  "'w Env \<Rightarrow> nat \<Rightarrow> nat list \<Rightarrow> CloseResult list \<Rightarrow> 'w Sys \<Rightarrow> (error + CloseResult list) \<times> 'w Sys" where
  "closeLoop env depositId [] acc s = (Inr acc, s)"
| "closeLoop env depositId (tokenId # rest) acc s =
     (case executeClosePosition env depositId tokenId s of
        (Inl e, s1) \<Rightarrow> (Inl e, s1)
      | (Inr closeResult, s1) \<Rightarrow> closeLoop env depositId rest (acc @ [closeResult]) s1)"

definition executeRebalance ::
  "'w Env \<Rightarrow> nat \<Rightarrow> int \<Rightarrow> int \<Rightarrow> 'w Sys \<Rightarrow> (error + RebalanceResult) \<times> 'w Sys" where
  "executeRebalance env depositId newTickLower newTickUpper s =
     (case getDepositInfo env (world s) depositId of
        (Inl e, w1) \<Rightarrow> (Inl e, s\<lparr>world := w1\<rparr>)
      | (Inr deposit, w1) \<Rightarrow>
          (case closeLoop env depositId (positionTokenIds deposit) [] (s\<lparr>world := w1\<rparr>) of
             (Inl e, s2) \<Rightarrow> (Inl e, s2)
           | (Inr closes, s2) \<Rightarrow>
               (case getDepositInfo env (world s2) depositId of
                  (Inl e, w3) \<Rightarrow> (Inl e, s2\<lparr>world := w3\<rparr>)
                | (Inr deposit2, w3) \<Rightarrow>
                    (let amount0Max = amount0Remaining deposit2;
                         amount1Max = amount1Remaining deposit2
                     in if amount0Max = 0 \<and> amount1Max = 0 then
                          (Inr \<lparr>closeTxHashes = closes, mintResult = None, newTokenId = None\<rparr>,
                           s2\<lparr>world := w3\<rparr>)
                        else
                          (case executeMintPosition env depositId newTickLower newTickUpper
                                  amount0Max amount1Max (s2\<lparr>world := w3\<rparr>) of
                             (Inl e, s4) \<Rightarrow> (Inl e, s4)
                           | (Inr m, s4) \<Rightarrow>
                               (Inr \<lparr>closeTxHashes = closes, mintResult = m,
                                     newTokenId = (case m of None \<Rightarrow> None
                                                   | Some r \<Rightarrow> mr_tokenId r)\<rparr>,
                                s4))))))"


definition actionName :: "Action \<Rightarrow> string" where
  "actionName a = (case a of MINT \<Rightarrow> ''MINT'' | CLOSE \<Rightarrow> ''CLOSE'' | HOLD \<Rightarrow> ''HOLD''
                   | REBALANCE \<Rightarrow> ''REBALANCE'')"

text \<open>\<open>executeDecision\<close>.  Its CLOSE branch runs the same sequential loop over the listed
  positions and keeps the transaction hashes of the results.\<close>

definition executeDecision ::
  "'w Env \<Rightarrow> nat \<Rightarrow> PositionDecision \<Rightarrow> 'w Sys \<Rightarrow> (error + ExecutionResult) \<times> 'w Sys" where
  "executeDecision env depositId decision s0 =
     (let s = s0\<lparr>trace := trace s0 @ [ExecuteDecision depositId decision]\<rparr> in
      case getDepositInfo env (world s) depositId of
        (Inl e, w1) \<Rightarrow> (Inl e, s\<lparr>world := w1\<rparr>)
      | (Inr deposit, w1) \<Rightarrow>
          (let s1 = s\<lparr>world := w1\<rparr> in
           if action decision = MINT \<and> tickLower decision \<noteq> None \<and> tickUpper decision \<noteq> None then
             (let amount0Max = amount0Remaining deposit;
                  amount1Max = amount1Remaining deposit;
                  skip = \<lparr>er_action = ''SKIP'', txHashes = [], er_newTokenId = None,
                          er_tickLower = tickLower decision, er_tickUpper = tickUpper decision\<rparr>
              in if amount0Max = 0 \<and> amount1Max = 0 then (Inr skip, s1)
                 else
                   (case executeMintPosition env depositId (the (tickLower decision))
                           (the (tickUpper decision)) amount0Max amount1Max s1 of
                      (Inl e, s2) \<Rightarrow> (Inl e, s2)
                    | (Inr (Some m), s2) \<Rightarrow>
                        (Inr \<lparr>er_action = ''MINT'', txHashes = [mr_txHash m],
                              er_newTokenId = mr_tokenId m,
                              er_tickLower = tickLower decision,
                              er_tickUpper = tickUpper decision\<rparr>, s2)
                    | (Inr None, s2) \<Rightarrow> (Inr skip, s2)))
           else if action decision = CLOSE then
             (case closeLoop env depositId (positionTokenIds deposit) [] s1 of
                (Inl e, s2) \<Rightarrow> (Inl e, s2)
              | (Inr closes, s2) \<Rightarrow>
                  (Inr \<lparr>er_action = ''CLOSE'', txHashes = map cr_txHash closes,
                        er_newTokenId = None, er_tickLower = None, er_tickUpper = None\<rparr>, s2))
           else if action decision = REBALANCE \<and> tickLower decision \<noteq> None
                   \<and> tickUpper decision \<noteq> None then
             (case executeRebalance env depositId (the (tickLower decision))
                     (the (tickUpper decision)) s1 of
                (Inl e, s2) \<Rightarrow> (Inl e, s2)
              | (Inr rr, s2) \<Rightarrow>
                  (Inr \<lparr>er_action = ''REBALANCE'',
                        txHashes = map cr_txHash (closeTxHashes rr)
                                   @ (case mintResult rr of None \<Rightarrow> [] | Some m \<Rightarrow> [mr_txHash m]),
                        er_newTokenId = newTokenId rr,
                        er_tickLower = tickLower decision,
                        er_tickUpper = tickUpper decision\<rparr>, s2))
           else if action decision = HOLD then
             (Inr \<lparr>er_action = ''HOLD'', txHashes = [], er_newTokenId = None,
                   er_tickLower = None, er_tickUpper = None\<rparr>, s1)
           else
             (Inr \<lparr>er_action = actionName (action decision), txHashes = [],
                   er_newTokenId = None, er_tickLower = None, er_tickUpper = None\<rparr>, s1)))"

section \<open>The validation and reputation tracker (erc8004-service.ts)\<close>

definition requestValidation ::
  "'w Env \<Rightarrow> nat \<Rightarrow> nat \<Rightarrow> nat \<times> PositionDecision \<times> int \<Rightarrow> 'w Sys \<Rightarrow> (error + string) \<times> 'w Sys" where
  "requestValidation env validatorAgentId myAgentId decisionData s =
     (let h = keccak256 env decisionData;
          tr = trace s @ [ValidationRequestTx validatorAgentId myAgentId h]
      in case validationRequest env (world s) validatorAgentId myAgentId h of
           (Inl e, w1) \<Rightarrow> (Inl e, s\<lparr>world := w1, trace := tr\<rparr>)
         | (Inr u, w1) \<Rightarrow>
             (Inr h,
              s\<lparr>world := w1,
                validationStore := validationStore s @
                  [\<lparr>dataHash = h, vr_agentId = myAgentId, validatorId = validatorAgentId,
                    score = None, responded = False, timestamp = nowMs env w1\<rparr>],
                trace := tr\<rparr>))"

text \<open>\<open>validationStore.find(...)\<close> followed by the update of the record found: the first
  record with the hash is changed, a missing one changes nothing.\<close>

fun respondFirst :: "string \<Rightarrow> int \<Rightarrow> ValidationRecord list \<Rightarrow> ValidationRecord list" where
  "respondFirst h sc [] = []"
| "respondFirst h sc (r # rs) =
     (if dataHash r = h then r\<lparr>score := Some sc, responded := True\<rparr> # rs
      else r # respondFirst h sc rs)"

definition submitValidationResponse ::
  "'w Env \<Rightarrow> string \<Rightarrow> int \<Rightarrow> 'w Sys \<Rightarrow> (error + unit) \<times> 'w Sys" where
  "submitValidationResponse env h sc s =
     (let tr = trace s @ [ValidationResponseTx h sc]
      in case validationResponse env (world s) h sc of
           (Inl e, w1) \<Rightarrow> (Inl e, s\<lparr>world := w1, trace := tr\<rparr>)
         | (Inr u, w1) \<Rightarrow>
             (Inr (),
              s\<lparr>world := w1, validationStore := respondFirst h sc (validationStore s),
                trace := tr\<rparr>))"

record ValidationStatus =
  vs_status :: string
  vs_score :: "int option"

definition getValidationStatus ::
  "'w Env \<Rightarrow> string \<Rightarrow> 'w Sys \<Rightarrow> (error + ValidationStatus) \<times> 'w Sys" where
  "getValidationStatus env h s =
     (case find (\<lambda>r. dataHash r = h) (validationStore s) of
        Some found \<Rightarrow>
          (if responded found then
             (Inr \<lparr>vs_status = ''RESPONDED'', vs_score = score found\<rparr>, s)
           else (Inr \<lparr>vs_status = ''PENDING'', vs_score = None\<rparr>, s))
      | None \<Rightarrow>
          (case isValidationPending env (world s) h of
             (Inl e, w1) \<Rightarrow> (Inl e, s\<lparr>world := w1\<rparr>)
           | (Inr (exists, pending), w1) \<Rightarrow>
               (if \<not> exists then (Inr \<lparr>vs_status = ''NOT_FOUND'', vs_score = None\<rparr>, s\<lparr>world := w1\<rparr>)
                else if pending then
                  (Inr \<lparr>vs_status = ''PENDING'', vs_score = None\<rparr>, s\<lparr>world := w1\<rparr>)
                else
                  (case getValidationResponse env w1 h of
                     (Inl e, w2) \<Rightarrow> (Inl e, s\<lparr>world := w2\<rparr>)
                   | (Inr (hasResponse, sc), w2) \<Rightarrow>
                       (Inr \<lparr>vs_status = ''RESPONDED'', vs_score = Some sc\<rparr>,
                        s\<lparr>world := w2\<rparr>)))))"

text \<open>The merge of replayed events into the store.  \<open>responseMap\<close> keeps the last response
  of a hash; \<open>knownHashes\<close> is computed once, from the store before the merge.\<close>

fun responseMap :: "ResponseArgs option list \<Rightarrow> (string \<rightharpoonup> int) \<Rightarrow> (string \<rightharpoonup> int)" where
  "responseMap [] m = m"
| "responseMap (None # els) m = responseMap els m"
| "responseMap (Some args # els) m = responseMap els (m(rs_dataHash args \<mapsto> rs_response args))"

fun mergeRequests ::
  "string set \<Rightarrow> (string \<rightharpoonup> int) \<Rightarrow> RequestArgs option list \<Rightarrow> ValidationRecord list
     \<Rightarrow> ValidationRecord list" where
  "mergeRequests knownHashes rm [] store = store"
| "mergeRequests knownHashes rm (None # els) store = mergeRequests knownHashes rm els store"
| "mergeRequests knownHashes rm (Some args # els) store =
     (if rq_dataHash args \<in> knownHashes then mergeRequests knownHashes rm els store
      else mergeRequests knownHashes rm els
             (store @ [\<lparr>dataHash = rq_dataHash args, vr_agentId = rq_agentServerId args,
                        validatorId = rq_agentValidatorId args,
                        score = rm (rq_dataHash args),
                        responded = (rm (rq_dataHash args) \<noteq> None),
                        timestamp = 0\<rparr>]))"

definition mergeEvents ::
  "RequestArgs option list \<Rightarrow> ResponseArgs option list \<Rightarrow> ValidationRecord list
     \<Rightarrow> ValidationRecord list" where
  "mergeEvents requestLogs responseLogs store =
     mergeRequests (set (map dataHash store)) (responseMap responseLogs Map.empty)
       requestLogs store"

text \<open>The loop \<open>for (let i = 1; i <= totalAgents; i++)\<close>; a failed query is skipped.\<close>

fun feedbackLoop ::
  "'w Env \<Rightarrow> nat \<Rightarrow> nat list \<Rightarrow> (nat \<times> string) list \<Rightarrow> 'w \<Rightarrow> (nat \<times> string) list \<times> 'w" where
  "feedbackLoop env agent [] acc w = (acc, w)"
| "feedbackLoop env agent (i # is) acc w =
     (if i = agent then feedbackLoop env agent is acc w
      else (case isFeedbackAuthorized env w i agent of
              (Inl e, w1) \<Rightarrow> feedbackLoop env agent is acc w1
            | (Inr (authorized, authId), w1) \<Rightarrow>
                feedbackLoop env agent is (if authorized then acc @ [(i, authId)] else acc) w1))"

text \<open>\<open>Math.round\<close>: the nearest integer, a half rounding up.  The scores are integers and
  their sum is exact; every quotient and every product below is rounded, in the order the
  source computes them.\<close>

definition Math_round :: "rat \<Rightarrow> int" where
  "Math_round x = \<lfloor>x + 1 / 2\<rfloor>"

definition averageScoreOf :: "ValidationRecord list \<Rightarrow> rat" where
  "averageScoreOf allValidations =
     (let scores = map (\<lambda>v. the (score v)) (filter (\<lambda>v. score v \<noteq> None) allValidations)
      in if length scores > 0 then round64 (of_int (sum_list scores) / of_nat (length scores))
         else 0)"

definition responseRateOf :: "ValidationRecord list \<Rightarrow> rat" where
  "responseRateOf allValidations =
     (let respondedValidations = length (filter responded allValidations)
      in if length allValidations > 0
         then round64 (round64 (of_nat respondedValidations / of_nat (length allValidations)) * 100)
         else 0)"

definition trustRatioOf :: "nat \<Rightarrow> nat \<Rightarrow> rat" where
  "trustRatioOf auths totalAgents =
     (let maxPossibleAuths = max (int totalAgents - 1) 1
      in round64 (round64 (of_nat auths / of_int maxPossibleAuths) * 100))"

definition reputationScoreOf :: "ValidationRecord list \<Rightarrow> nat \<Rightarrow> nat \<Rightarrow> int" where
  "reputationScoreOf allValidations auths totalAgents =
     (let validationScoreComponent = round64 (averageScoreOf allValidations * round64 (6 / 10));
          responseRateComponent = round64 (responseRateOf allValidations * round64 (2 / 10));
          trustComponent = round64 (trustRatioOf auths totalAgents * round64 (2 / 10))
      in if length allValidations = 0 \<and> auths = 0 then 50
         else Math_round
                (round64 (round64 (validationScoreComponent + responseRateComponent)
                          + trustComponent)))"

record AgentReputation =
  rep_agentId :: nat
  rep_domain :: string
  rep_address :: string
  totalValidations :: nat
  respondedValidations :: nat
  averageScore :: rat
  validationHistory :: "(string \<times> int option \<times> bool) list"
  feedbackAuthorizations :: "(nat \<times> string) list"
  totalFeedbackAuths :: nat
  reputationScore :: int

definition getAgentReputation ::
  "'w Env \<Rightarrow> nat \<Rightarrow> 'w Sys \<Rightarrow> (error + AgentReputation) \<times> 'w Sys" where
  "getAgentReputation env agent s =
     (case getAgent env (world s) agent of
        (Inl e, w1) \<Rightarrow> (Inl e, s\<lparr>world := w1\<rparr>)
      | (Inr info, w1) \<Rightarrow>
     (case getAgentCount env w1 of
        (Inl e, w2) \<Rightarrow> (Inl e, s\<lparr>world := w2\<rparr>)
      | (Inr totalAgents, w2) \<Rightarrow>
          (let (store, w3) =
                 (case queryValidationEvents env w2 agent of
                    (Inl e, w3) \<Rightarrow> (validationStore s, w3)
                  | (Inr (requestLogs, responseLogs), w3) \<Rightarrow>
                      (mergeEvents requestLogs responseLogs (validationStore s), w3));
               allValidations = filter (\<lambda>r. vr_agentId r = agent) store;
               (auths, w4) = feedbackLoop env agent [1..<Suc totalAgents] [] w3
           in (Inr \<lparr>rep_agentId = agentId info, rep_domain = domain info,
                    rep_address = address info,
                    totalValidations = length allValidations,
                    respondedValidations = length (filter responded allValidations),
                    averageScore =
                      round64 (of_int (Math_round (round64 (averageScoreOf allValidations * 100)))
                               / 100),
                    validationHistory =
                      map (\<lambda>r. (dataHash r, score r, responded r)) allValidations,
                    feedbackAuthorizations = auths,
                    totalFeedbackAuths = length auths,
                    reputationScore =
                      reputationScoreOf allValidations (length auths) totalAgents\<rparr>,
               s\<lparr>world := w4, validationStore := store\<rparr>))))"

section \<open>The advisory backend and the analysis entry point\<close>

text \<open>
  \<open>analyzePoolWithGemini\<close> (and its siblings for the other providers, which differ in the
  model they call): the parsed answer of the model is the call \<open>llm\<close>; any failure inside
  the \<open>try\<close> gives HOLD with confidence 0.  The answer is normalised: bounds are aligned,
  and swapped when the lower one is not below the upper one.
\<close>

definition normalizeDecision :: "PositionDecision \<Rightarrow> PositionDecision" where
  "normalizeDecision d =
     (let lo = map_option alignTick (tickLower d);
          hi = map_option alignTick (tickUpper d)
      in if lo \<noteq> None \<and> hi \<noteq> None \<and> the lo \<ge> the hi
         then d\<lparr>tickLower := hi, tickUpper := lo\<rparr>
         else d\<lparr>tickLower := lo, tickUpper := hi\<rparr>)"

definition analyzePoolWithGemini ::
  "'w Env \<Rightarrow> PoolAnalysis \<Rightarrow> StrategyName \<Rightarrow> ExistingPosition list \<Rightarrow> 'w \<Rightarrow> PositionDecision \<times> 'w" where
  "analyzePoolWithGemini env poolState strat existingPositions w =
     (case llm env w poolState strat existingPositions of
        (Inl e, w1) \<Rightarrow>
          (\<lparr>action = HOLD, tickLower = None, tickUpper = None,
            reason = ''Failed to parse LLM response'', confidence = 0\<rparr>, w1)
      | (Inr decision, w1) \<Rightarrow> (normalizeDecision decision, w1))"

text \<open>\<open>s.includes(t)\<close>.\<close>

fun str_includes :: "string \<Rightarrow> string \<Rightarrow> bool" where
  "str_includes [] t = (t = [])"
| "str_includes (c # cs) t = (take (length t) (c # cs) = t \<or> str_includes cs t)"

text \<open>\<open>analyzePool\<close> (llm-analyzer.ts): the configured provider, then the fallback when the
  answer has confidence 0 or carries the parse-failure marker.\<close>

definition analyzePool ::
  "'w Env \<Rightarrow> PoolAnalysis \<Rightarrow> StrategyName \<Rightarrow> ExistingPosition list \<Rightarrow> 'w \<Rightarrow> PositionDecision \<times> 'w" where
  "analyzePool env poolState strat existingPositions w =
     (let (decision, w1) = analyzePoolWithGemini env poolState strat existingPositions w
      in if confidence decision = 0 \<or> str_includes (reason decision) ''Failed to parse''
         then (getFallbackDecision poolState strat existingPositions, w1)
         else (decision, w1))"

section \<open>Per-deposit processing (agent.ts)\<close>

definition toLowerCase :: "string \<Rightarrow> string" where
  "toLowerCase str =
     map (\<lambda>c. let n = (of_char c :: nat) in if 65 \<le> n \<and> n \<le> 90 then char_of (n + 32) else c) str"

text \<open>The loop that collects the bounds of the open positions: the cached bounds when the
  side-cache has the id, the ledger's answer otherwise.\<close>

fun readPositions ::
  "'w Env \<Rightarrow> nat list \<Rightarrow> ExistingPosition list \<Rightarrow> 'w Sys \<Rightarrow> (error + ExistingPosition list) \<times> 'w Sys" where
  "readPositions env [] acc s = (Inr acc, s)"
| "readPositions env (tokenId # rest) acc s =
     (case getPositionInfo env (world s) tokenId of
        (Inl e, w1) \<Rightarrow> (Inl e, s\<lparr>world := w1\<rparr>)
      | (Inr pos, w1) \<Rightarrow>
          (let cached = getCachedPositionTicks s tokenId;
               p = \<lparr>pos_tickLower = (case cached of Some c \<Rightarrow> fst c | None \<Rightarrow> pi_tickLower pos),
                    pos_tickUpper = (case cached of Some c \<Rightarrow> snd c | None \<Rightarrow> pi_tickUpper pos),
                    pos_liquidity = pi_liquidity pos\<rparr>
           in readPositions env rest (acc @ [p]) (s\<lparr>world := w1\<rparr>)))"

text \<open>The part both versions of \<open>processDeposit\<close> share after the decision is taken: the
  validation request (a failure is logged and ignored), the execution, and the validation
  response (a failure is logged and ignored).\<close>

definition validateAndExecute ::
  "'w Env \<Rightarrow> AgentInfo \<Rightarrow> nat \<Rightarrow> PositionDecision \<Rightarrow> 'w Sys
     \<Rightarrow> (error + ExecutionResult \<times> string option) \<times> 'w Sys" where
  "validateAndExecute env info depositId decision s =
     (let (h, s1) =
            (if action decision \<noteq> HOLD then
               (case requestValidation env (agentId info) (agentId info)
                       (depositId, decision, nowMs env (world s)) s of
                  (Inl e, s1) \<Rightarrow> (None, s1)
                | (Inr h, s1) \<Rightarrow> (Some h, s1))
             else (None, s))
      in case executeDecision env depositId decision s1 of
           (Inl e, s2) \<Rightarrow> (Inl e, s2)
         | (Inr execResult, s2) \<Rightarrow>
             (let s3 = (case h of
                          None \<Rightarrow> s2
                        | Some hv \<Rightarrow>
                            (if hv = [] then s2
                             else snd (submitValidationResponse env hv
                                         (min (confidence decision) 100) s2)))
              in (Inr (execResult, h), s3)))"

text \<open>
  The steps of \<open>processDeposit\<close> up to the decision are the same in both versions of
  agent.ts; they end early (\<open>Inr None\<close>) when the agent is not initialised, the deposit is
  not assigned to this agent or not active, or a position has unknown bounds.
\<close>

record ProcessDepositResult =
  pd_action :: string
  pd_tickLower :: "int option"
  pd_tickUpper :: "int option"
  pd_newTokenId :: "nat option"
  pd_reason :: string
  pd_confidence :: int
  pd_txHashes :: "string list"
  validationHash :: "string option"

datatype Prepared =
    Skipped
  | HoldUnknown
  | Ready AgentInfo "StrategyName option" PoolAnalysis "ExistingPosition list"

definition prepareDeposit :: "'w Env \<Rightarrow> nat \<Rightarrow> 'w Sys \<Rightarrow> (error + Prepared) \<times> 'w Sys" where
  "prepareDeposit env depositId s =
     (case agentInfo s of
        None \<Rightarrow> (Inr Skipped, s)
      | Some info \<Rightarrow>
          (case getDepositInfo env (world s) depositId of
             (Inl e, w1) \<Rightarrow> (Inl e, s\<lparr>world := w1\<rparr>)
           | (Inr deposit, w1) \<Rightarrow>
               (let s1 = s\<lparr>world := w1\<rparr>;
                    strat = STRATEGY_MAP (strategy deposit)
                in if toLowerCase (assignedAgent deposit) \<noteq> toLowerCase (agentWalletAddress env)
                   then (Inr Skipped, s1)
                   else if status deposit \<noteq> 0 then (Inr Skipped, s1)
                   else
                     (case readPositions env (positionTokenIds deposit) [] s1 of
                        (Inl e, s2) \<Rightarrow> (Inl e, s2)
                      | (Inr existingPositions, s2) \<Rightarrow>
                          (case getPoolState env (world s2) of
                             (Inl e, w3) \<Rightarrow> (Inl e, s2\<lparr>world := w3\<rparr>)
                           | (Inr poolState, w3) \<Rightarrow>
                               (let s3 = s2\<lparr>world := w3\<rparr>;
                                    price = tickToPrice env (tick poolState)
                                in if length existingPositions > 0
                                      \<and> list_ex (\<lambda>p. pos_tickLower p = 0 \<and> pos_tickUpper p = 0
                                                       \<and> pos_liquidity p \<noteq> 0) existingPositions
                                   then (Inr HoldUnknown, s3)
                                   else
                                     (Inr (Ready info strat
                                            \<lparr>currentTick = tick poolState, currentPrice = price,
                                             pa_liquidity = liquidity poolState,
                                             feeGrowth0 = feeGrowthGlobal0 poolState,
                                             feeGrowth1 = feeGrowthGlobal1 poolState\<rparr>
                                            existingPositions), s3)))))))"

text \<open>\<open>processDeposit\<close> of src/agent.ts: the decision comes from \<open>analyzePoolWithGemini\<close>
  and passes the confidence gate before anything is validated or executed.\<close>

definition processDeposit :: "'w Env \<Rightarrow> nat \<Rightarrow> 'w Sys \<Rightarrow> (error + unit) \<times> 'w Sys" where
  "processDeposit env depositId s =
     (case prepareDeposit env depositId s of
        (Inl e, s1) \<Rightarrow> (Inl e, s1)
      | (Inr Skipped, s1) \<Rightarrow> (Inr (), s1)
      | (Inr HoldUnknown, s1) \<Rightarrow> (Inr (), s1)
      | (Inr (Ready info None analysis existingPositions), s1) \<Rightarrow> (Inl TypeError, s1)
      | (Inr (Ready info (Some strat) analysis existingPositions), s1) \<Rightarrow>
          (let (decision, w2) = analyzePoolWithGemini env analysis strat existingPositions (world s1);
               s2 = s1\<lparr>world := w2\<rparr>
           in if confidence decision < 60 then (Inr (), s2)
              else (case validateAndExecute env info depositId decision s2 of
                      (Inl e, s3) \<Rightarrow> (Inl e, s3)
                    | (Inr r, s3) \<Rightarrow> (Inr (), s3))))"

text \<open>\<open>processDeposit\<close> of the later agent.ts, which returns a result: the decision comes
  from \<open>analyzePool\<close> and is validated and executed directly (``Low confidence fallback is
  now handled in llm-analyzer.ts so we proceed with execution directly'').\<close>

definition processDeposit_direct ::
  "'w Env \<Rightarrow> nat \<Rightarrow> 'w Sys \<Rightarrow> (error + ProcessDepositResult option) \<times> 'w Sys" where
  "processDeposit_direct env depositId s =
     (case prepareDeposit env depositId s of
        (Inl e, s1) \<Rightarrow> (Inl e, s1)
      | (Inr Skipped, s1) \<Rightarrow> (Inr None, s1)
      | (Inr HoldUnknown, s1) \<Rightarrow>
          (Inr (Some \<lparr>pd_action = ''HOLD'', pd_tickLower = None, pd_tickUpper = None,
                      pd_newTokenId = None, pd_reason = ''Position has unknown tick range'',
                      pd_confidence = 100, pd_txHashes = [], validationHash = None\<rparr>), s1)
      | (Inr (Ready info None analysis existingPositions), s1) \<Rightarrow> (Inl TypeError, s1)
      | (Inr (Ready info (Some strat) analysis existingPositions), s1) \<Rightarrow>
          (let (decision, w2) = analyzePool env analysis strat existingPositions (world s1);
               s2 = s1\<lparr>world := w2\<rparr>
           in case validateAndExecute env info depositId decision s2 of
                (Inl e, s3) \<Rightarrow> (Inl e, s3)
              | (Inr (execResult, h), s3) \<Rightarrow>
                  (Inr (Some \<lparr>pd_action = er_action execResult,
                              pd_tickLower = er_tickLower execResult,
                              pd_tickUpper = er_tickUpper execResult,
                              pd_newTokenId = er_newTokenId execResult,
                              pd_reason = reason decision,
                              pd_confidence = confidence decision,
                              pd_txHashes = txHashes execResult,
                              validationHash = h\<rparr>), s3)))"

section \<open>The event poller (event-listener.ts)\<close>

definition AGENT_ADDRESSES :: "StrategyName \<Rightarrow> string" where
  "AGENT_ADDRESSES s =
     (case s of
        CONSERVATIVE \<Rightarrow> ''0x5b6A404F8958E7e10028301549e61435925725Bf''
      | BALANCED \<Rightarrow> ''0x6c52aAD1Cbb66C0f666b62b36261d2f2205A8607''
      | DEGEN \<Rightarrow> ''0x5B20B5a4Bba73bC6363fBE90E6b2Ab4fFF5C820e'')"

record DepositEvent =
  de_depositId :: nat
  de_user :: string
  de_amount0 :: int
  de_amount1 :: int
  de_strategy :: "StrategyName option"
  de_lockUntil :: int
  recommendedAgent :: "string option"
  de_timestamp :: int

definition MAX_RECENT :: nat where
  "MAX_RECENT = 50"

text \<open>
  The state of the poller: the watermark \<open>lastBlock\<close>, the notification buffer, the
  deposits handed to \<open>processDeposit\<close> out of band (that call is not awaited and its
  failure is caught by its own \<open>.catch\<close>), and the errors the \<open>catch\<close> of \<open>poll\<close> logged.
\<close>

record 'w Listener =
  l_world :: 'w
  lastBlock :: int
  recentDeposits :: "DepositEvent list"
  immediate :: "nat list"
  errorsLogged :: "error list"

fun depositLoop ::
  "'w Env \<Rightarrow> 'w \<Rightarrow> DepositCreatedArgs option list \<Rightarrow> DepositEvent list \<Rightarrow> DepositEvent list" where
  "depositLoop env w [] rd = rd"
| "depositLoop env w (None # els) rd = depositLoop env w els rd"
| "depositLoop env w (Some args # els) rd =
     (let strategyName = STRATEGY_MAP (dc_strategy args);
          event = \<lparr>de_depositId = dc_depositId args, de_user = dc_user args,
                   de_amount0 = dc_amount0 args, de_amount1 = dc_amount1 args,
                   de_strategy = strategyName, de_lockUntil = dc_lockUntil args,
                   recommendedAgent = map_option AGENT_ADDRESSES strategyName,
                   de_timestamp = nowMs env w\<rparr>;
          rd1 = event # rd;
          rd2 = (if length rd1 > MAX_RECENT then butlast rd1 else rd1)
      in depositLoop env w els rd2)"

fun assignLoop :: "'w Env \<Rightarrow> AgentAssignedArgs option list \<Rightarrow> nat list \<Rightarrow> nat list" where
  "assignLoop env [] acc = acc"
| "assignLoop env (None # els) acc = assignLoop env els acc"
| "assignLoop env (Some args # els) acc =
     (if toLowerCase (aa_agent args) = toLowerCase (agentWalletAddress env)
      then assignLoop env els (acc @ [aa_depositId args])
      else assignLoop env els acc)"

definition poll :: "'w Env \<Rightarrow> 'w Listener \<Rightarrow> 'w Listener" where
  "poll env l =
     (case getBlockNumber env (l_world l) of
        (Inl e, w1) \<Rightarrow> l\<lparr>l_world := w1, errorsLogged := errorsLogged l @ [e]\<rparr>
      | (Inr currentBlock, w1) \<Rightarrow>
          (let l1 = l\<lparr>l_world := w1,
                      lastBlock := (if lastBlock l = 0 then max 0 (currentBlock - 100)
                                    else lastBlock l)\<rparr>
           in if currentBlock \<le> lastBlock l1 then l1
              else
                (case queryDepositCreated env w1 (lastBlock l1 + 1) currentBlock of
                   (Inl e, w2) \<Rightarrow> l1\<lparr>l_world := w2, errorsLogged := errorsLogged l1 @ [e]\<rparr>
                 | (Inr depositLogs, w2) \<Rightarrow>
                     (let l2 = l1\<lparr>l_world := w2,
                                  recentDeposits :=
                                    depositLoop env w2 depositLogs (recentDeposits l1)\<rparr>
                      in case queryAgentAssigned env w2 (lastBlock l1 + 1) currentBlock of
                           (Inl e, w3) \<Rightarrow>
                             l2\<lparr>l_world := w3, errorsLogged := errorsLogged l2 @ [e]\<rparr>
                         | (Inr assignLogs, w3) \<Rightarrow>
                             l2\<lparr>l_world := w3,
                                immediate := assignLoop env assignLogs (immediate l2),
                                lastBlock := currentBlock\<rparr>))))"

section \<open>A small ledger for concrete runs\<close>

text \<open>
  A world with one deposit, used to run the model on concrete inputs.  A mint confirms
  with a creation record for the next token id, lists the position and takes the whole
  balance; a close of a listed position confirms, unlists it and pays \<open>w_payout0\<close> and
  \<open>w_payout1\<close> back; a close of an unlisted position fails.  The advisory model answers
  \<open>w_answer\<close>; event queries fail when \<open>w_rpcDown\<close> is set.
\<close>

record World =
  w_time :: int
  w_pool :: PoolState
  w_deposit :: DepositInfo
  w_nextToken :: nat
  w_payout0 :: int
  w_payout1 :: int
  w_answer :: PositionDecision
  w_height :: int
  w_rpcDown :: bool

definition ledger :: "World Env" where
  "ledger =
     \<lparr>nowMs = w_time,
      agentWalletAddress = ''0xAbC1'',
      getPoolState = (\<lambda>w. (Inr (w_pool w), w)),
      getDepositInfo = (\<lambda>w d. (Inr (w_deposit w), w)),
      getPositionInfo = (\<lambda>w t. (Inr \<lparr>pi_tokenId = t, pi_liquidity = 1, pi_tickLower = 0,
                                       pi_tickUpper = 0, pi_currentTick = tick (w_pool w),
                                       pi_sqrtPriceX96 = sqrtPriceX96 (w_pool w)\<rparr>, w)),
      agentMintPosition = (\<lambda>w d lo hi liq a0 a1 dl.
         (Inr \<lparr>hash = ''0xmint'', logs = [OtherLog, PositionCreated d (w_nextToken w)]\<rparr>,
          w\<lparr>w_deposit := (w_deposit w)
                \<lparr>amount0Remaining := 0, amount1Remaining := 0,
                 positionTokenIds := positionTokenIds (w_deposit w) @ [w_nextToken w]\<rparr>,
            w_nextToken := Suc (w_nextToken w)\<rparr>)),
      agentClosePosition = (\<lambda>w d t m0 m1 dl.
         if t \<in> set (positionTokenIds (w_deposit w)) then
           (Inr \<lparr>hash = ''0xclose'', logs = [OtherLog]\<rparr>,
            w\<lparr>w_deposit := (w_deposit w)
                  \<lparr>amount0Remaining := amount0Remaining (w_deposit w) + w_payout0 w,
                   amount1Remaining := amount1Remaining (w_deposit w) + w_payout1 w,
                   positionTokenIds := removeAll t (positionTokenIds (w_deposit w))\<rparr>\<rparr>)
         else (Inl (CallError ''revert''), w)),
      tickToPrice = (\<lambda>t. 0),
      llm = (\<lambda>w a st ps. (Inr (w_answer w), w)),
      keccak256 = (\<lambda>d. ''0xhash''),
      validationRequest = (\<lambda>w v a h. (Inr (), w)),
      validationResponse = (\<lambda>w h sc. (Inr (), w)),
      isValidationPending = (\<lambda>w h. (Inr (False, False), w)),
      getValidationResponse = (\<lambda>w h. (Inr (False, 0), w)),
      queryValidationEvents = (\<lambda>w a. (Inl (CallError ''queryFilter''), w)),
      getAgent = (\<lambda>w a. (Inr \<lparr>agentId = a, domain = ''agent.test'', address = ''0xAbC1''\<rparr>, w)),
      getAgentCount = (\<lambda>w. (Inr 3, w)),
      isFeedbackAuthorized = (\<lambda>w i a. (Inr (False, []), w)),
      getBlockNumber = (\<lambda>w. (Inr (w_height w), w)),
      queryDepositCreated = (\<lambda>w a b. if w_rpcDown w then (Inl (CallError ''rpc''), w)
                                      else (Inr [], w)),
      queryAgentAssigned = (\<lambda>w a b. (Inr [], w))\<rparr>"

definition world0 :: World where
  "world0 =
     \<lparr>w_time = 1700000000000,
      w_pool = \<lparr>sqrtPriceX96 = 3327019798418269309033979, tick = -201600, liquidity = 1000000,
                feeGrowthGlobal0 = 0, feeGrowthGlobal1 = 0\<rparr>,
      w_deposit = \<lparr>user = ''0xUser'', amount0Remaining = 1000000, amount1Remaining = 1000000,
                   lockUntil = 0, strategy = 1, assignedAgent = ''0xABC1'', status = 0,
                   positionTokenIds = []\<rparr>,
      w_nextToken = 8,
      w_payout0 = 0,
      w_payout1 = 0,
      w_answer = \<lparr>action = MINT, tickLower = Some (-202200), tickUpper = Some (-201000),
                  reason = ''range around the current tick'', confidence = 50\<rparr>,
      w_height = 600,
      w_rpcDown = False\<rparr>"

definition sys0 :: "World \<Rightarrow> World Sys" where
  "sys0 w =
     \<lparr>world = w, positionTickCache = Map.empty, validationStore = [],
      agentInfo = Some \<lparr>agentId = 2, domain = ''agent.test'', address = ''0xAbC1''\<rparr>,
      trace = []\<rparr>"

text \<open>Two positions listed and nothing left to pay back (\<open>worldC\<close>); the same with a
  payout of 500000 of each token per close (\<open>worldD\<close>).\<close>

definition worldC :: World where
  "worldC = world0\<lparr>w_deposit := (w_deposit world0)
              \<lparr>amount0Remaining := 0, amount1Remaining := 0, positionTokenIds := [5, 7]\<rparr>\<rparr>"

definition worldD :: World where
  "worldD = worldC\<lparr>w_payout0 := 500000, w_payout1 := 500000\<rparr>"

section \<open>The side-cache and the open positions\<close>

text \<open>
  What the cache invariant needs from the ledger, for an observation \<open>opened\<close> of the
  positions currently open: a confirmed mint always carries a creation record and opens
  exactly the position that record names; a confirmed close closes exactly the position
  it was asked to close; and nothing else changes the open positions, neither a failed
  transaction, nor a read of the pool, of the deposit or of a position, nor the advisory
  backend, nor a call or an event replay of the validation and identity registries.  The
  world changes through these calls only, so the last condition also says that no other
  party opens or closes a position while the process runs.
\<close>

definition ledger_ok :: "'w Env \<Rightarrow> ('w \<Rightarrow> nat set) \<Rightarrow> bool" where
  "ledger_ok env opened \<longleftrightarrow>
     (\<forall>w r w'. getPoolState env w = (r, w') \<longrightarrow> opened w' = opened w)
   \<and> (\<forall>w d r w'. getDepositInfo env w d = (r, w') \<longrightarrow> opened w' = opened w)
   \<and> (\<forall>w d lo hi liq a0 a1 dl e w'.
         agentMintPosition env w d lo hi liq a0 a1 dl = (Inl e, w') \<longrightarrow> opened w' = opened w)
   \<and> (\<forall>w d lo hi liq a0 a1 dl rc w'.
         agentMintPosition env w d lo hi liq a0 a1 dl = (Inr rc, w') \<longrightarrow>
           (\<exists>t. findPositionCreated (logs rc) = Some t \<and> opened w' = insert t (opened w)))
   \<and> (\<forall>w d t m0 m1 dl e w'.
         agentClosePosition env w d t m0 m1 dl = (Inl e, w') \<longrightarrow> opened w' = opened w)
   \<and> (\<forall>w d t m0 m1 dl rc w'.
         agentClosePosition env w d t m0 m1 dl = (Inr rc, w') \<longrightarrow> opened w' = opened w - {t})
   \<and> (\<forall>w t r w'. getPositionInfo env w t = (r, w') \<longrightarrow> opened w' = opened w)
   \<and> (\<forall>w a st ps r w'. llm env w a st ps = (r, w') \<longrightarrow> opened w' = opened w)
   \<and> (\<forall>w v a h r w'. validationRequest env w v a h = (r, w') \<longrightarrow> opened w' = opened w)
   \<and> (\<forall>w h sc r w'. validationResponse env w h sc = (r, w') \<longrightarrow> opened w' = opened w)
   \<and> (\<forall>w h r w'. isValidationPending env w h = (r, w') \<longrightarrow> opened w' = opened w)
   \<and> (\<forall>w h r w'. getValidationResponse env w h = (r, w') \<longrightarrow> opened w' = opened w)
   \<and> (\<forall>w a r w'. queryValidationEvents env w a = (r, w') \<longrightarrow> opened w' = opened w)
   \<and> (\<forall>w a r w'. getAgent env w a = (r, w') \<longrightarrow> opened w' = opened w)
   \<and> (\<forall>w r w'. getAgentCount env w = (r, w') \<longrightarrow> opened w' = opened w)
   \<and> (\<forall>w i a r w'. isFeedbackAuthorized env w i a = (r, w') \<longrightarrow> opened w' = opened w)"

text \<open>The states that the process reaches from a state \<open>s0\<close>: by the operations of the
  execution coordinator, by per-deposit processing in either version, by the analysis, by
  the validation and reputation tracker, and by the reads of the ledger that callers make
  in between.\<close>

inductive reachable :: "'w Env \<Rightarrow> 'w Sys \<Rightarrow> 'w Sys \<Rightarrow> bool" for env :: "'w Env" and s0 :: "'w Sys" where
  start: "reachable env s0 s0"
| mint: "reachable env s0 s \<Longrightarrow> executeMintPosition env d lo hi a0 a1 s = (r, s')
           \<Longrightarrow> reachable env s0 s'"
| close: "reachable env s0 s \<Longrightarrow> executeClosePosition env d t s = (rc, s')
           \<Longrightarrow> reachable env s0 s'"
| rebalance: "reachable env s0 s \<Longrightarrow> executeRebalance env d lo hi s = (rr, s')
           \<Longrightarrow> reachable env s0 s'"
| decision: "reachable env s0 s \<Longrightarrow> executeDecision env d dec s = (re, s')
           \<Longrightarrow> reachable env s0 s'"
| process: "reachable env s0 s \<Longrightarrow> processDeposit env d s = (ru, s')
           \<Longrightarrow> reachable env s0 s'"
| process_direct: "reachable env s0 s \<Longrightarrow> processDeposit_direct env d s = (rp, s')
           \<Longrightarrow> reachable env s0 s'"
| read_pool: "reachable env s0 s \<Longrightarrow> getPoolState env (world s) = (rs, w')
           \<Longrightarrow> reachable env s0 (s\<lparr>world := w'\<rparr>)"
| read_deposit: "reachable env s0 s \<Longrightarrow> getDepositInfo env (world s) d = (rd, w')
           \<Longrightarrow> reachable env s0 (s\<lparr>world := w'\<rparr>)"
| read_position: "reachable env s0 s \<Longrightarrow> getPositionInfo env (world s) t = (ri, w')
           \<Longrightarrow> reachable env s0 (s\<lparr>world := w'\<rparr>)"
| analyze: "reachable env s0 s \<Longrightarrow> analyzePool env a st ps (world s) = (dec, w')
           \<Longrightarrow> reachable env s0 (s\<lparr>world := w'\<rparr>)"
| analyze_gemini: "reachable env s0 s \<Longrightarrow> analyzePoolWithGemini env a st ps (world s) = (dec, w')
           \<Longrightarrow> reachable env s0 (s\<lparr>world := w'\<rparr>)"
| request: "reachable env s0 s \<Longrightarrow> requestValidation env v ag dd s = (rq, s')
           \<Longrightarrow> reachable env s0 s'"
| respond: "reachable env s0 s \<Longrightarrow> submitValidationResponse env h sc s = (rv, s')
           \<Longrightarrow> reachable env s0 s'"
| status: "reachable env s0 s \<Longrightarrow> getValidationStatus env h s = (rt, s')
           \<Longrightarrow> reachable env s0 s'"
| reputation: "reachable env s0 s \<Longrightarrow> getAgentReputation env ag s = (rn, s')
           \<Longrightarrow> reachable env s0 s'"

text \<open>Every cached id is open, and every open id is cached or was open at the start.\<close>

definition cache_inv :: "('w \<Rightarrow> nat set) \<Rightarrow> nat set \<Rightarrow> 'w Sys \<Rightarrow> bool" where
  "cache_inv opened before s \<longleftrightarrow>
     dom (positionTickCache s) \<subseteq> opened (world s)
   \<and> opened (world s) \<subseteq> dom (positionTickCache s) \<union> before"

definition listed :: "World \<Rightarrow> nat set" where
  "listed w = set (positionTokenIds (w_deposit w))"

text \<open>The small ledger with a mint whose confirmation carries no creation record.\<close>

definition ledgerNoRecord :: "World Env" where
  "ledgerNoRecord = ledger\<lparr>agentMintPosition := (\<lambda>w d lo hi liq a0 a1 dl.
       (case agentMintPosition ledger w d lo hi liq a0 a1 dl of
          (Inr rc, w') \<Rightarrow> (Inr (rc\<lparr>logs := [OtherLog]\<rparr>), w')
        | (Inl e, w') \<Rightarrow> (Inl e, w')))\<rparr>"

definition worldE :: World where
  "worldE = world0\<lparr>w_deposit := (w_deposit world0)\<lparr>positionTokenIds := [5, 7]\<rparr>\<rparr>"

text \<open>A poller state with empty buffers, and a world whose event queries fail.\<close>

definition listener0 :: "World \<Rightarrow> int \<Rightarrow> World Listener" where
  "listener0 w b = \<lparr>l_world = w, lastBlock = b, recentDeposits = [], immediate = [], errorsLogged = []\<rparr>"

definition worldDown :: World where
  "worldDown = world0\<lparr>w_rpcDown := True\<rparr>"

section \<open>The fallback decision as the specification words it\<close>

text \<open>
  The rule of the specification, computed in exact arithmetic with the decimal thresholds
  of the configuration: MINT without a position, REBALANCE when for some position the
  distance of the current tick from the centre exceeds the half-width times the
  threshold, HOLD otherwise.
\<close>

definition thresholdDecimal :: "StrategyName \<Rightarrow> rat" where
  "thresholdDecimal s = (case s of CONSERVATIVE \<Rightarrow> 7 / 10 | BALANCED \<Rightarrow> 85 / 100
                         | DEGEN \<Rightarrow> 95 / 100)"

definition fallbackAction_spec :: "StrategyName \<Rightarrow> int \<Rightarrow> ExistingPosition list \<Rightarrow> Action" where
  "fallbackAction_spec strat cur ps =
     (if ps = [] then MINT
      else if list_ex (\<lambda>p. \<bar>of_int cur - of_int (pos_tickLower p + pos_tickUpper p) / 2\<bar>
                          > (of_int (pos_tickUpper p - pos_tickLower p) / 2)
                              * thresholdDecimal strat) ps
           then REBALANCE
      else HOLD)"

section \<open>The reputation score as the specification words it\<close>

text \<open>
  The specification computes the score over the agent's validation records deduplicated by
  hash.  \<open>dedupByHash\<close> keeps the first record of every hash; \<open>reputationScore_spec\<close> is
  the formula of the specification on the deduplicated records of the agent.
\<close>

fun dedupFrom :: "string list \<Rightarrow> ValidationRecord list \<Rightarrow> ValidationRecord list" where
  "dedupFrom seen [] = []"
| "dedupFrom seen (r # rs) =
     (if dataHash r \<in> set seen then dedupFrom seen rs
      else r # dedupFrom (dataHash r # seen) rs)"

definition dedupByHash :: "ValidationRecord list \<Rightarrow> ValidationRecord list" where
  "dedupByHash rs = dedupFrom [] rs"

definition reputationScore_spec :: "nat \<Rightarrow> ValidationRecord list \<Rightarrow> nat \<Rightarrow> nat \<Rightarrow> int" where
  "reputationScore_spec agent store auths totalAgents =
     (let records = dedupByHash (filter (\<lambda>r. vr_agentId r = agent) store);
          scores = List.map_filter score records;
          avgScore = (if scores = [] then 0
                      else (of_int (sum_list scores) :: rat) / of_nat (length scores));
          responseRatePercent =
            (if records = [] then 0
             else (of_nat (length (filter responded records)) :: rat) / of_nat (length records) * 100);
          trustRatioPercent = (of_nat auths :: rat) / of_int (max (int totalAgents - 1) 1) * 100
      in if records = [] \<and> auths = 0 then 50
         else \<lfloor>6 / 10 * avgScore + 2 / 10 * responseRatePercent + 2 / 10 * trustRatioPercent
               + 1 / 2\<rfloor>)"

text \<open>A registry whose event replay answers: the request for hash \<open>0xh1\<close> was emitted
  twice and answered with 80, the request for \<open>0xh2\<close> once and answered with 60; all are
  for agent 2.\<close>

definition replayLedger :: "World Env" where
  "replayLedger = ledger\<lparr>queryValidationEvents := (\<lambda>w a.
       (Inr ([Some \<lparr>rq_agentValidatorId = 1, rq_agentServerId = 2, rq_dataHash = ''0xh1''\<rparr>,
              Some \<lparr>rq_agentValidatorId = 1, rq_agentServerId = 2, rq_dataHash = ''0xh1''\<rparr>,
              Some \<lparr>rq_agentValidatorId = 1, rq_agentServerId = 2, rq_dataHash = ''0xh2''\<rparr>],
             [Some \<lparr>rs_dataHash = ''0xh1'', rs_response = 80\<rparr>,
              Some \<lparr>rs_dataHash = ''0xh2'', rs_response = 60\<rparr>]), w))\<rparr>"

section \<open>The invariant of the validation store\<close>

text \<open>A record is marked responded exactly when it has a score.\<close>

definition store_inv :: "ValidationRecord list \<Rightarrow> bool" where
  "store_inv store \<longleftrightarrow> (\<forall>r \<in> set store. responded r \<longleftrightarrow> score r \<noteq> None)"

text \<open>A run on the small ledger: one validation request, then its response with score 75.\<close>

definition requested :: "World Sys" where
  "requested = snd (requestValidation ledger 2 2 (1, w_answer world0, 5) (sys0 world0))"

definition answered :: "World Sys" where
  "answered = snd (submitValidationResponse ledger ''0xhash'' 75 requested)"

section \<open>Reading the trace\<close>

text \<open>The token ids of the close transactions of a trace, in order, and its mint
  transactions (deposit, bounds, liquidity and the two maximal amounts).\<close>

fun closedIds :: "Event list \<Rightarrow> nat list" where
  "closedIds [] = []"
| "closedIds (CloseTx d t m0 m1 dl # es) = t # closedIds es"
| "closedIds (e # es) = closedIds es"

fun mintCalls :: "Event list \<Rightarrow> (nat \<times> int \<times> int \<times> int \<times> int \<times> int) list" where
  "mintCalls [] = []"
| "mintCalls (MintTx d lo hi liq a0 a1 dl # es) = (d, lo, hi, liq, a0, a1) # mintCalls es"
| "mintCalls (e # es) = mintCalls es"

text \<open>The events the confidence gate is about: validation requests and calls of
  \<open>executeDecision\<close>.\<close>

fun gated :: "Event \<Rightarrow> bool" where
  "gated (ExecuteDecision d dec) = True"
| "gated (ValidationRequestTx v a h) = True"
| "gated e = False"

text \<open>The small ledger with an advisory answer of confidence 85.\<close>

definition worldSure :: World where
  "worldSure = world0\<lparr>w_answer := (w_answer world0)\<lparr>confidence := 85\<rparr>\<rparr>"

text \<open>The analysis the small ledger leads to.\<close>

definition analysis0 :: PoolAnalysis where
  "analysis0 = \<lparr>currentTick = -201600, currentPrice = 0, pa_liquidity = 1000000,
                 feeGrowth0 = 0, feeGrowth1 = 0\<rparr>"

section \<open>Properties of the rounding to binary64\<close>

lemma pow2_powi: "pow2 e = 2 powi e"
  by (simp add: pow2_def power_int_def power_one_over inverse_eq_divide)

lemma pow2_pos: "0 < pow2 e"
  by (simp add: pow2_powi)

lemma pow2_add: "pow2 (a + b) = pow2 a * pow2 b"
  by (simp add: pow2_powi power_int_add)

lemma pow2_diff: "pow2 (a - b) = pow2 a / pow2 b"
  by (simp add: pow2_powi power_int_diff)

lemma pow2_nat: "0 \<le> e \<Longrightarrow> pow2 e = of_int (2 ^ nat e)"
  by (simp add: pow2_def)

lemma pow2_1: "pow2 1 = 2" by (simp add: pow2_def)

lemma pow2_53: "pow2 53 = 2 ^ 53" by (simp add: pow2_def)

lemma bitLength_int:
  "0 < n \<Longrightarrow> 1 \<le> bitLength n \<and> 2 ^ nat (bitLength n - 1) \<le> n \<and> n < 2 ^ nat (bitLength n)"
proof (induction n rule: bitLength.induct)
  case (1 n)
  show ?case
  proof (cases "n = 1")
    case True
    have "bitLength 1 = 1" by (simp add: bitLength.simps[of 1] bitLength.simps[of 0])
    with True show ?thesis by simp
  next
    case False
    with 1(2) have pos: "0 < n div 2" by simp
    from 1(2) have nle: "\<not> n \<le> 0" by simp
    note ih = 1(1)[OF nle pos]
    have bl: "bitLength n = 1 + bitLength (n div 2)" using nle by (simp add: bitLength.simps[of n])
    define b where "b = nat (bitLength (n div 2) - 1)"
    have b1: "nat (bitLength (n div 2)) = Suc b" using ih unfolding b_def by linarith
    have b2: "nat (bitLength n - 1) = Suc b" using ih bl unfolding b_def by linarith
    have b3: "nat (bitLength n) = Suc (Suc b)" using ih bl unfolding b_def by linarith
    from ih have lo: "2 ^ b \<le> n div 2" and hi: "n div 2 < 2 ^ Suc b"
      by (simp_all add: b_def b1)
    have "n = 2 * (n div 2) + n mod 2" by simp
    moreover have "0 \<le> n mod 2" "n mod 2 < 2" by simp_all
    ultimately have "2 * (n div 2) \<le> n" "n < 2 * (n div 2) + 2" by linarith+
    with lo hi have "2 ^ Suc b \<le> n" "n < 2 ^ Suc (Suc b)" by simp_all
    with ih bl b2 b3 show ?thesis by simp
  qed
qed

lemma bitLength_bounds:
  assumes "0 < n"
  shows "pow2 (bitLength n - 1) \<le> of_int n" and "of_int n < pow2 (bitLength n)"
proof -
  from bitLength_int[OF assms] have a: "1 \<le> bitLength n"
    and b: "2 ^ nat (bitLength n - 1) \<le> n" and c: "n < 2 ^ nat (bitLength n)" by simp_all
  have "pow2 (bitLength n - 1) = of_int (2 ^ nat (bitLength n - 1))" using a by (simp add: pow2_nat)
  also have "\<dots> \<le> of_int n" using b by (simp only: of_int_le_iff)
  finally show "pow2 (bitLength n - 1) \<le> of_int n" .
  have "(of_int n :: rat) < of_int (2 ^ nat (bitLength n))" using c by (simp only: of_int_less_iff)
  also have "\<dots> = pow2 (bitLength n)" using a by (simp add: pow2_nat)
  finally show "of_int n < pow2 (bitLength n)" .
qed


lemma ilog2_bounds:
  assumes "0 < x"
  shows "pow2 (ilog2 x) \<le> x" and "x < pow2 (ilog2 x + 1)"
proof -
  obtain p q where pq: "quotient_of x = (p, q)" by (cases "quotient_of x")
  from quotient_of_denom_pos[OF pq] have q: "0 < q" .
  from quotient_of_div[OF pq] have x: "x = of_int p / of_int q" .
  from assms x q have p: "0 < p" by (simp add: zero_less_divide_iff)
  define k where "k = bitLength p - bitLength q"
  have xq: "x * of_int q = of_int p" using x q by simp
  have "x * pow2 (bitLength q - 1) \<le> x * of_int q"
    using bitLength_bounds(1)[OF q] assms by simp
  also have "\<dots> < pow2 (bitLength p)" using xq bitLength_bounds(2)[OF p] by simp
  finally have "x < pow2 (bitLength p) / pow2 (bitLength q - 1)"
    using pow2_pos[of "bitLength q - 1"] by (simp add: pos_less_divide_eq)
  also have "\<dots> = pow2 (k + 1)" unfolding pow2_diff[symmetric] k_def by (simp add: algebra_simps)
  finally have up: "x < pow2 (k + 1)" .
  have "pow2 (bitLength p - 1) \<le> x * of_int q" using xq bitLength_bounds(1)[OF p] by simp
  also have "\<dots> < x * pow2 (bitLength q)" using bitLength_bounds(2)[OF q] assms by simp
  finally have "pow2 (bitLength p - 1) / pow2 (bitLength q) < x"
    using pow2_pos[of "bitLength q"] by (simp add: pos_divide_less_eq)
  moreover have "pow2 (bitLength p - 1) / pow2 (bitLength q) = pow2 (k - 1)"
    unfolding pow2_diff[symmetric] k_def by (simp add: algebra_simps)
  ultimately have low: "pow2 (k - 1) < x" by simp
  have il: "ilog2 x = (if pow2 k \<le> x then k else k - 1)"
    by (simp add: ilog2_def pq k_def Let_def)
  show "pow2 (ilog2 x) \<le> x" using il low by (auto simp: not_le)
  show "x < pow2 (ilog2 x + 1)" using il up by (auto simp: not_le)
qed

lemma roundEven_error: "\<bar>of_int (roundEven y) - y\<bar> \<le> 1 / 2"
proof -
  have "of_int \<lfloor>y\<rfloor> \<le> y" "y < of_int \<lfloor>y\<rfloor> + 1" by linarith+
  then show ?thesis by (auto simp: roundEven_def Let_def)
qed

lemma round64_error:
  assumes "x \<noteq> 0"
  shows "\<bar>round64 x - x\<bar> \<le> pow2 (ilog2 \<bar>x\<bar> - 53)"
proof -
  define e where "e = ilog2 \<bar>x\<bar> - 52"
  define y where "y = \<bar>x\<bar> / pow2 e"
  have pe: "0 < pow2 e" by (rule pow2_pos)
  have f: "round64 x = sgn x * of_int (roundEven y) * pow2 e"
    using assms by (simp add: round64_def Let_def e_def y_def)
  have "x = sgn x * \<bar>x\<bar>" by (simp add: sgn_mult_abs)
  also have "\<bar>x\<bar> = y * pow2 e" using pe by (simp add: y_def)
  finally have xx: "x = sgn x * (y * pow2 e)" .
  have "round64 x - x = sgn x * (of_int (roundEven y) - y) * pow2 e"
    by (subst (2) xx, simp add: f algebra_simps)
  then have "\<bar>round64 x - x\<bar> = \<bar>of_int (roundEven y) - y\<bar> * pow2 e"
    using assms pe by (simp add: abs_mult abs_sgn_eq)
  also have "\<dots> \<le> (1 / 2) * pow2 e"
    using roundEven_error[of y] pe by (intro mult_right_mono) simp_all
  also have "\<dots> = pow2 (e - 1)" by (simp add: pow2_diff pow2_1)
  also have "e - 1 = ilog2 \<bar>x\<bar> - 53" by (simp add: e_def)
  finally show ?thesis .
qed

lemma round64_rel_error: "\<bar>round64 x - x\<bar> \<le> \<bar>x\<bar> / 2 ^ 53"
proof (cases "x = 0")
  case True
  then show ?thesis by (simp add: round64_def)
next
  case False
  then have pos: "0 < \<bar>x\<bar>" by simp
  have "pow2 (ilog2 \<bar>x\<bar> - 53) = pow2 (ilog2 \<bar>x\<bar>) / 2 ^ 53"
    by (simp only: pow2_diff pow2_53)
  also have "\<dots> \<le> \<bar>x\<bar> / 2 ^ 53"
    using ilog2_bounds(1)[OF pos] by (simp add: divide_right_mono)
  finally show ?thesis using round64_error[OF False] by linarith
qed


lemma round64_product_close:
  fixes w k :: int
  assumes w: "\<bar>w\<bar> < 2 ^ 24" and k: "0 \<le> k" "k \<le> 100"
  shows "\<bar>round64 ((of_int w / 2) * round64 (of_int k / 100)) - (of_int w / 2) * (of_int k / 100)\<bar> < 1 / 200"
proof -
  define h :: rat where "h = of_int w / 2"
  define t :: rat where "t = of_int k / 100"
  define T where "T = round64 t"
  have t01: "0 \<le> t" "t \<le> 1" using k by (simp_all add: t_def)
  have "\<bar>of_int w :: rat\<bar> < 2 ^ 24" using w by (metis of_int_abs of_int_less_numeral_power_cancel_iff)
  then have h: "\<bar>h\<bar> < 2 ^ 23" by (simp add: h_def)
  have Tt: "\<bar>T - t\<bar> \<le> 1 / 2 ^ 53"
  proof -
    have "\<bar>T - t\<bar> \<le> \<bar>t\<bar> / 2 ^ 53" unfolding T_def by (rule round64_rel_error)
    also have "\<dots> \<le> 1 / 2 ^ 53" using t01 by (simp add: divide_right_mono)
    finally show ?thesis .
  qed
  have "(1 :: rat) / 2 ^ 53 \<le> 1" by simp
  with Tt have "\<bar>T - t\<bar> \<le> 1" by linarith
  then have T2: "\<bar>T\<bar> \<le> 2" using t01 by linarith
  have e1: "\<bar>round64 (h * T) - h * T\<bar> \<le> \<bar>h\<bar> * 2 / 2 ^ 53"
  proof -
    have "\<bar>round64 (h * T) - h * T\<bar> \<le> \<bar>h * T\<bar> / 2 ^ 53" by (rule round64_rel_error)
    also have "\<bar>h * T\<bar> = \<bar>h\<bar> * \<bar>T\<bar>" by (rule abs_mult)
    also have "\<bar>h\<bar> * \<bar>T\<bar> / 2 ^ 53 \<le> \<bar>h\<bar> * 2 / 2 ^ 53"
      using T2 by (intro divide_right_mono mult_left_mono) simp_all
    finally show ?thesis .
  qed
  have e2: "\<bar>h * T - h * t\<bar> \<le> \<bar>h\<bar> * 1 / 2 ^ 53"
  proof -
    have "h * T - h * t = h * (T - t)" by (simp add: algebra_simps)
    then have "\<bar>h * T - h * t\<bar> = \<bar>h\<bar> * \<bar>T - t\<bar>" by (simp add: abs_mult)
    also have "\<dots> \<le> \<bar>h\<bar> * (1 / 2 ^ 53)" using Tt by (intro mult_left_mono) simp_all
    finally show ?thesis by simp
  qed
  have "\<bar>round64 (h * T) - h * t\<bar> \<le> \<bar>round64 (h * T) - h * T\<bar> + \<bar>h * T - h * t\<bar>" by linarith
  also have "\<dots> \<le> \<bar>h\<bar> * 2 / 2 ^ 53 + \<bar>h\<bar> * 1 / 2 ^ 53" using e1 e2 by linarith
  also have "\<dots> = \<bar>h\<bar> * (3 / 2 ^ 53)" by (simp add: algebra_simps)
  also have "\<dots> < 2 ^ 23 * (3 / 2 ^ 53)" using h by (intro mult_strict_right_mono) simp_all
  also have "\<dots> < (1 / 200 :: rat)" by simp
  finally show ?thesis unfolding h_def t_def T_def .
qed

lemma away_from_tie:
  fixes cur lo hi k :: int
  assumes w: "\<bar>hi - lo\<bar> < 2 ^ 24" and k: "0 \<le> k" "k \<le> 100"
  defines "D \<equiv> \<bar>of_int cur - of_int (lo + hi) / 2\<bar> :: rat"
    and "h \<equiv> of_int (hi - lo) / 2 :: rat"
    and "t \<equiv> of_int k / 100 :: rat"
  shows "h * t < D \<Longrightarrow> round64 (h * round64 t) < D"
    and "D < h * t \<Longrightarrow> \<not> round64 (h * round64 t) < D"
proof -
  define N :: int where "N = 100 * \<bar>2 * cur - (lo + hi)\<bar> - (hi - lo) * k"
  define b :: rat where "b = of_int (2 * cur - (lo + hi))"
  have "of_int cur - of_int (lo + hi) / 2 = b / 2" unfolding b_def by (simp add: field_simps)
  then have "D = \<bar>b / 2\<bar>" unfolding D_def by (simp only:)
  then have "D = \<bar>b\<bar> / 2" by simp
  also have "\<bar>b\<bar> = of_int \<bar>2 * cur - (lo + hi)\<bar>" unfolding b_def by (simp only: of_int_abs)
  finally have D: "D = of_int \<bar>2 * cur - (lo + hi)\<bar> / 2" .
  have diff: "D - h * t = of_int N / 200" unfolding D h_def t_def N_def by (simp add: field_simps)
  have close: "\<bar>round64 (h * round64 t) - h * t\<bar> < 1 / 200"
    unfolding h_def t_def by (rule round64_product_close[OF w k])
  {
    assume "h * t < D"
    then have "0 < (of_int N :: rat) / 200" using diff by simp
    then have "0 < N" by simp
    then have "1 \<le> N" by simp
    then have "(1 :: rat) \<le> of_int N" by (metis of_int_1_le_iff)
    then have "1 / 200 \<le> D - h * t" using diff by simp
    with close show "round64 (h * round64 t) < D" by linarith
  }
  {
    assume "D < h * t"
    then have "(of_int N :: rat) / 200 < 0" using diff by simp
    then have "N < 0" by simp
    then have "N \<le> - 1" by simp
    then have "of_int N \<le> (- 1 :: rat)" by (metis of_int_le_iff of_int_minus of_int_1)
    then have "D - h * t \<le> - (1 / 200)" using diff by simp
    with close show "\<not> round64 (h * round64 t) < D" by linarith
  }
qed

section \<open>Properties of the fallback decision\<close>

lemma alignTick_floor:
  "60 dvd alignTick t \<and> alignTick t \<le> t \<and> t < alignTick t + 60"
proof -
  have "t = (t div 60) * 60 + t mod 60" by simp
  moreover have "0 \<le> t mod 60" and "t mod 60 < 60" by simp_all
  ultimately show ?thesis unfolding alignTick_def by (simp add: algebra_simps) arith
qed

lemma threshold_config:
  "rebalanceThreshold (STRATEGY_CONFIG strat) = round64 (thresholdDecimal strat)"
  by (cases strat) (simp_all add: STRATEGY_CONFIG_def thresholdDecimal_def)

lemma threshold_percent:
  "\<exists>k::int. 0 \<le> k \<and> k \<le> 100 \<and> thresholdDecimal strat = of_int k / 100"
proof (cases strat)
  case CONSERVATIVE
  then have "thresholdDecimal strat = of_int 70 / 100" by (simp add: thresholdDecimal_def)
  then show ?thesis by (intro exI[of _ 70]) simp
next
  case BALANCED
  then have "thresholdDecimal strat = of_int 85 / 100" by (simp add: thresholdDecimal_def)
  then show ?thesis by (intro exI[of _ 85]) simp
next
  case DEGEN
  then have "thresholdDecimal strat = of_int 95 / 100" by (simp add: thresholdDecimal_def)
  then show ?thesis by (intro exI[of _ 95]) simp
qed

lemma outOfRange_exact:
  assumes w: "\<bar>pos_tickUpper p - pos_tickLower p\<bar> < 2 ^ 24"
    and ne: "\<bar>of_int cur - of_int (pos_tickLower p + pos_tickUpper p) / 2\<bar>
               \<noteq> (of_int (pos_tickUpper p - pos_tickLower p) / 2) * thresholdDecimal strat"
  shows "outOfRange (STRATEGY_CONFIG strat) cur p \<longleftrightarrow>
           \<bar>of_int cur - of_int (pos_tickLower p + pos_tickUpper p) / 2\<bar>
             > (of_int (pos_tickUpper p - pos_tickLower p) / 2) * thresholdDecimal strat"
proof -
  from threshold_percent obtain k :: int where k: "0 \<le> k" "k \<le> 100"
    and t: "thresholdDecimal strat = of_int k / 100" by blast
  have o: "outOfRange (STRATEGY_CONFIG strat) cur p \<longleftrightarrow>
             round64 ((of_int (pos_tickUpper p - pos_tickLower p) / 2) * round64 (of_int k / 100))
               < \<bar>of_int cur - of_int (pos_tickLower p + pos_tickUpper p) / 2\<bar>"
    by (simp add: outOfRange_def Let_def threshold_config t)
  from away_from_tie[OF w k, of cur] ne show ?thesis unfolding o t by linarith
qed

text \<open>
  Claim C1, as amended.  For every pool analysis, strategy and list of existing positions
  the fallback decision is: MINT with confidence 75 and the aligned bounds around the
  current tick when there is no position; otherwise REBALANCE with confidence 70 and the
  same bounds when some position has its centre further from the current tick than the
  product of its half-width and the rebalance threshold, that product being computed in
  binary64 (the threshold is the binary64 nearest to 0.7, 0.85 or 0.95 and the product is
  rounded); otherwise HOLD with confidence 60.  For positions narrower than \<open>2^24\<close> ticks
  (the ticks of the pool are \<open>int24\<close>) the action is the one the rule gives in exact
  arithmetic whenever no position has its distance equal to the exact product; at such a
  tie the rounded product decides.  The aligned bound is the greatest multiple of 60 not
  above its argument.  Scenario A (tick -201600, BALANCED, no position) gives MINT
  [-202200, -201000] with confidence 75, and scenario B (one position [-202200, -201000],
  tick -195000) gives REBALANCE with confidence 70.
\<close>

theorem getFallbackDecision_spec:
  fixes poolState :: PoolAnalysis and strat :: StrategyName
    and existingPositions :: "ExistingPosition list"
  defines "cur \<equiv> currentTick poolState"
    and "m \<equiv> tickRangeMultiplier (STRATEGY_CONFIG strat)"
    and "thr \<equiv> rebalanceThreshold (STRATEGY_CONFIG strat)"
    and "d \<equiv> getFallbackDecision poolState strat existingPositions"
  defines "distance \<equiv> (\<lambda>p::ExistingPosition. \<bar>of_int cur - of_int (pos_tickLower p + pos_tickUpper p) / 2\<bar> :: rat)"
    and "half \<equiv> (\<lambda>p::ExistingPosition. of_int (pos_tickUpper p - pos_tickLower p) / 2 :: rat)"
  defines "far \<equiv> (\<lambda>p. distance p > round64 (half p * thr))"
  shows "(existingPositions = [] \<longrightarrow>
            action d = MINT \<and> confidence d = 75
            \<and> tickLower d = Some (alignTick (cur - m * 60))
            \<and> tickUpper d = Some (alignTick (cur + m * 60)))
       \<and> (existingPositions \<noteq> [] \<and> (\<exists>p \<in> set existingPositions. far p) \<longrightarrow>
            action d = REBALANCE \<and> confidence d = 70
            \<and> tickLower d = Some (alignTick (cur - m * 60))
            \<and> tickUpper d = Some (alignTick (cur + m * 60)))
       \<and> (existingPositions \<noteq> [] \<and> \<not> (\<exists>p \<in> set existingPositions. far p) \<longrightarrow>
            action d = HOLD \<and> confidence d = 60)
       \<and> thr = round64 (thresholdDecimal strat)
       \<and> ((\<forall>p \<in> set existingPositions.
              \<bar>pos_tickUpper p - pos_tickLower p\<bar> < 2 ^ 24
              \<and> distance p \<noteq> half p * thresholdDecimal strat) \<longrightarrow>
            action d = fallbackAction_spec strat cur existingPositions)
       \<and> (\<forall>t. 60 dvd alignTick t \<and> alignTick t \<le> t \<and> t < alignTick t + 60)
       \<and> tickRangeMultiplier (STRATEGY_CONFIG BALANCED) = 10
       \<and> getFallbackDecision
            \<lparr>currentTick = -201600, currentPrice = 0, pa_liquidity = 0,
             feeGrowth0 = 0, feeGrowth1 = 0\<rparr> BALANCED []
          = \<lparr>action = MINT, tickLower = Some (-202200), tickUpper = Some (-201000),
             reason = ''[Fallback] LLM unavailable - auto-minting based on strategy config'',
             confidence = 75\<rparr>
       \<and> getFallbackDecision
            \<lparr>currentTick = -195000, currentPrice = 0, pa_liquidity = 0,
             feeGrowth0 = 0, feeGrowth1 = 0\<rparr> BALANCED
            [\<lparr>pos_tickLower = -202200, pos_tickUpper = -201000, pos_liquidity = 1\<rparr>]
          = \<lparr>action = REBALANCE, tickLower = Some (-195600), tickUpper = Some (-194400),
             reason = ''[Fallback] LLM unavailable - auto-rebalancing out-of-range position'',
             confidence = 70\<rparr>"
proof -
  have far: "\<And>p. outOfRange (STRATEGY_CONFIG strat) cur p \<longleftrightarrow> far p"
    unfolding far_def distance_def half_def thr_def by (simp add: outOfRange_def Let_def)
  have g1: "existingPositions = [] \<longrightarrow>
            action d = MINT \<and> confidence d = 75
            \<and> tickLower d = Some (alignTick (cur - m * 60))
            \<and> tickUpper d = Some (alignTick (cur + m * 60))"
    unfolding cur_def m_def d_def by (simp add: getFallbackDecision_def Let_def)
  have g2: "existingPositions \<noteq> [] \<and> (\<exists>p \<in> set existingPositions. far p) \<longrightarrow>
            action d = REBALANCE \<and> confidence d = 70
            \<and> tickLower d = Some (alignTick (cur - m * 60))
            \<and> tickUpper d = Some (alignTick (cur + m * 60))"
    unfolding far[symmetric] unfolding cur_def m_def d_def
    by (simp add: getFallbackDecision_def Let_def list_ex_iff)
  have g3: "existingPositions \<noteq> [] \<and> \<not> (\<exists>p \<in> set existingPositions. far p) \<longrightarrow>
            action d = HOLD \<and> confidence d = 60"
    unfolding far[symmetric] unfolding cur_def m_def d_def
    by (simp add: getFallbackDecision_def Let_def list_ex_iff)
  have g4: "thr = round64 (thresholdDecimal strat)"
    unfolding thr_def by (rule threshold_config)
  have g5: "(\<forall>p \<in> set existingPositions.
              \<bar>pos_tickUpper p - pos_tickLower p\<bar> < 2 ^ 24
              \<and> distance p \<noteq> half p * thresholdDecimal strat) \<longrightarrow>
            action d = fallbackAction_spec strat cur existingPositions"
  proof
    assume a: "\<forall>p \<in> set existingPositions.
              \<bar>pos_tickUpper p - pos_tickLower p\<bar> < 2 ^ 24
              \<and> distance p \<noteq> half p * thresholdDecimal strat"
    have "\<forall>p \<in> set existingPositions.
            outOfRange (STRATEGY_CONFIG strat) cur p \<longleftrightarrow> distance p > half p * thresholdDecimal strat"
      using a outOfRange_exact[of _ cur strat] unfolding distance_def half_def by blast
    then have "list_ex (outOfRange (STRATEGY_CONFIG strat) cur) existingPositions
                 \<longleftrightarrow> list_ex (\<lambda>p. distance p > half p * thresholdDecimal strat) existingPositions"
      by (simp add: list_ex_iff)
    then show "action d = fallbackAction_spec strat cur existingPositions"
      unfolding d_def distance_def half_def cur_def
      by (simp add: getFallbackDecision_def fallbackAction_spec_def Let_def)
  qed
  have a: "getFallbackDecision
            \<lparr>currentTick = -201600, currentPrice = 0, pa_liquidity = 0,
             feeGrowth0 = 0, feeGrowth1 = 0\<rparr> BALANCED []
          = \<lparr>action = MINT, tickLower = Some (-202200), tickUpper = Some (-201000),
             reason = ''[Fallback] LLM unavailable - auto-minting based on strategy config'',
             confidence = 75\<rparr>"
    by (simp add: getFallbackDecision_def STRATEGY_CONFIG_def alignTick_def)
  have o: "outOfRange (STRATEGY_CONFIG BALANCED) (-195000)
             \<lparr>pos_tickLower = -202200, pos_tickUpper = -201000, pos_liquidity = 1\<rparr>"
    by code_simp
  have b: "getFallbackDecision
            \<lparr>currentTick = -195000, currentPrice = 0, pa_liquidity = 0,
             feeGrowth0 = 0, feeGrowth1 = 0\<rparr> BALANCED
            [\<lparr>pos_tickLower = -202200, pos_tickUpper = -201000, pos_liquidity = 1\<rparr>]
          = \<lparr>action = REBALANCE, tickLower = Some (-195600), tickUpper = Some (-194400),
             reason = ''[Fallback] LLM unavailable - auto-rebalancing out-of-range position'',
             confidence = 70\<rparr>"
    using o by (simp add: getFallbackDecision_def alignTick_def)
       (simp add: STRATEGY_CONFIG_def)
  have c: "tickRangeMultiplier (STRATEGY_CONFIG BALANCED) = 10"
    by (simp add: STRATEGY_CONFIG_def)
  from alignTick_floor have al: "\<forall>t. 60 dvd alignTick t \<and> alignTick t \<le> t \<and> t < alignTick t + 60"
    by blast
  show ?thesis
    by (intro conjI) (rule g1 g2 g3 g4 g5 al c a b)+
qed

theorem getFallbackDecision_spec_witness:
  "action (getFallbackDecision
            \<lparr>currentTick = -201600, currentPrice = 0, pa_liquidity = 0,
             feeGrowth0 = 0, feeGrowth1 = 0\<rparr> DEGEN []) = MINT
   \<and> round64 (600 * round64 (7 / 10)) < 6600
   \<and> action (getFallbackDecision
            \<lparr>currentTick = -195000, currentPrice = 0, pa_liquidity = 0,
             feeGrowth0 = 0, feeGrowth1 = 0\<rparr> CONSERVATIVE
            [\<lparr>pos_tickLower = -202200, pos_tickUpper = -201000, pos_liquidity = 1\<rparr>]) = REBALANCE
   \<and> \<not> round64 (600 * round64 (85 / 100)) < 100
   \<and> action (getFallbackDecision
            \<lparr>currentTick = -201500, currentPrice = 0, pa_liquidity = 0,
             feeGrowth0 = 0, feeGrowth1 = 0\<rparr> BALANCED
            [\<lparr>pos_tickLower = -202200, pos_tickUpper = -201000, pos_liquidity = 1\<rparr>]) = HOLD
   \<and> fallbackAction_spec DEGEN (-180000)
        [\<lparr>pos_tickLower = -202200, pos_tickUpper = -201000, pos_liquidity = 1\<rparr>] = REBALANCE
   \<and> action (getFallbackDecision
            \<lparr>currentTick = -180000, currentPrice = 0, pa_liquidity = 0,
             feeGrowth0 = 0, feeGrowth1 = 0\<rparr> DEGEN
            [\<lparr>pos_tickLower = -202200, pos_tickUpper = -201000, pos_liquidity = 1\<rparr>]) = REBALANCE"
proof -
  have r1: "round64 (600 * round64 (7 / 10)) < 6600" by code_simp
  have r2: "\<not> round64 (600 * round64 (85 / 100)) < 100" by code_simp
  have s: "fallbackAction_spec DEGEN (-180000)
        [\<lparr>pos_tickLower = -202200, pos_tickUpper = -201000, pos_liquidity = 1\<rparr>] = REBALANCE"
    by (simp add: fallbackAction_spec_def thresholdDecimal_def)
  have w1: "action (getFallbackDecision
            \<lparr>currentTick = -201600, currentPrice = 0, pa_liquidity = 0,
             feeGrowth0 = 0, feeGrowth1 = 0\<rparr> DEGEN []) = MINT"
    using getFallbackDecision_spec[where existingPositions = "[]" and strat = DEGEN
      and poolState = "\<lparr>currentTick = -201600, currentPrice = 0, pa_liquidity = 0,
             feeGrowth0 = 0, feeGrowth1 = 0\<rparr>"]
    by simp
  have w2: "action (getFallbackDecision
            \<lparr>currentTick = -195000, currentPrice = 0, pa_liquidity = 0,
             feeGrowth0 = 0, feeGrowth1 = 0\<rparr> CONSERVATIVE
            [\<lparr>pos_tickLower = -202200, pos_tickUpper = -201000, pos_liquidity = 1\<rparr>]) = REBALANCE"
    using r1 getFallbackDecision_spec[where strat = CONSERVATIVE
      and existingPositions = "[\<lparr>pos_tickLower = -202200, pos_tickUpper = -201000, pos_liquidity = 1\<rparr>]"
      and poolState = "\<lparr>currentTick = -195000, currentPrice = 0, pa_liquidity = 0,
             feeGrowth0 = 0, feeGrowth1 = 0\<rparr>"]
    by (simp add: STRATEGY_CONFIG_def)
  have w3: "action (getFallbackDecision
            \<lparr>currentTick = -201500, currentPrice = 0, pa_liquidity = 0,
             feeGrowth0 = 0, feeGrowth1 = 0\<rparr> BALANCED
            [\<lparr>pos_tickLower = -202200, pos_tickUpper = -201000, pos_liquidity = 1\<rparr>]) = HOLD"
    using r2 getFallbackDecision_spec[where strat = BALANCED
      and existingPositions = "[\<lparr>pos_tickLower = -202200, pos_tickUpper = -201000, pos_liquidity = 1\<rparr>]"
      and poolState = "\<lparr>currentTick = -201500, currentPrice = 0, pa_liquidity = 0,
             feeGrowth0 = 0, feeGrowth1 = 0\<rparr>"]
    by (simp add: STRATEGY_CONFIG_def)
  have w4: "action (getFallbackDecision
            \<lparr>currentTick = -180000, currentPrice = 0, pa_liquidity = 0,
             feeGrowth0 = 0, feeGrowth1 = 0\<rparr> DEGEN
            [\<lparr>pos_tickLower = -202200, pos_tickUpper = -201000, pos_liquidity = 1\<rparr>]) = REBALANCE"
    using s getFallbackDecision_spec[where strat = DEGEN
      and existingPositions = "[\<lparr>pos_tickLower = -202200, pos_tickUpper = -201000, pos_liquidity = 1\<rparr>]"
      and poolState = "\<lparr>currentTick = -180000, currentPrice = 0, pa_liquidity = 0,
             feeGrowth0 = 0, feeGrowth1 = 0\<rparr>", THEN conjunct2, THEN conjunct2, THEN conjunct2,
        THEN conjunct2, THEN conjunct1]
    by (simp add: thresholdDecimal_def)
  from w1 r1 w2 r2 w3 s w4 show ?thesis by (intro conjI)
qed

text \<open>
  Claim C1 as stated fails at a tie.  With the CONSERVATIVE strategy, one position
  [-201780, -201420] and the current tick -201474, the distance from the centre is 126 and
  the half-width times 0.7 is 126, so the rule in exact arithmetic gives HOLD; the binary64
  product of 180 and 0.7 lies below 126 and the decision is REBALANCE.
\<close>

theorem getFallbackDecision_tie_counterexample:
  "action (getFallbackDecision
            \<lparr>currentTick = -201474, currentPrice = 0, pa_liquidity = 0,
             feeGrowth0 = 0, feeGrowth1 = 0\<rparr> CONSERVATIVE
            [\<lparr>pos_tickLower = -201780, pos_tickUpper = -201420, pos_liquidity = 1\<rparr>]) = REBALANCE
   \<and> fallbackAction_spec CONSERVATIVE (-201474)
        [\<lparr>pos_tickLower = -201780, pos_tickUpper = -201420, pos_liquidity = 1\<rparr>] = HOLD
   \<and> round64 (180 * round64 (7 / 10)) < 126"
  by code_simp

section \<open>Properties of the liquidity math\<close>

lemma sorted_bounds:
  "getLiquidityForAmounts P A B amount0 amount1 = getLiquidityForAmounts P (min A B) (max A B) amount0 amount1"
  by (simp add: getLiquidityForAmounts_def min_def max_def)

lemma below_range:
  "A < B \<Longrightarrow> P \<le> A \<Longrightarrow> getLiquidityForAmounts P A B amount0 amount1 = getLiquidityForAmount0 A B amount0"
  by (simp add: getLiquidityForAmounts_def)

lemma above_range:
  "A < B \<Longrightarrow> B \<le> P \<Longrightarrow> getLiquidityForAmounts P A B amount0 amount1 = getLiquidityForAmount1 A B amount1"
  by (simp add: getLiquidityForAmounts_def)

lemma amount0_defined:
  "A \<noteq> B \<Longrightarrow> \<exists>l. getLiquidityForAmount0 A B amount0 = Inr l"
  by (simp add: getLiquidityForAmount0_def bigint_div_def Q96_def)

lemma amount1_defined:
  "A \<noteq> B \<Longrightarrow> \<exists>l. getLiquidityForAmount1 A B amount1 = Inr l"
  by (simp add: getLiquidityForAmount1_def bigint_div_def Q96_def)

lemma in_range:
  assumes "A < P" "P < B"
    and "getLiquidityForAmount0 P B amount0 = Inr liq0"
    and "getLiquidityForAmount1 A P amount1 = Inr liq1"
  shows "getLiquidityForAmounts P A B amount0 amount1 = Inr (min liq0 liq1)"
  using assms by (simp add: getLiquidityForAmounts_def min_def)

text \<open>
  Claim C2.  \<open>getLiquidityForAmounts\<close> sorts its two bounds first.  With the sorted
  bounds \<open>lo < hi\<close>: a current price at or below \<open>lo\<close> gives the amount0
  estimate over \<open>[lo, hi]\<close>, whatever amount1 is; a current price at or above \<open>hi\<close>
  gives the amount1 estimate over \<open>[lo, hi]\<close>, whatever amount0 is; a price strictly
  inside gives the minimum of the amount0 estimate over \<open>[price, hi]\<close> and the amount1
  estimate over \<open>[lo, price]\<close>, both of which are defined.
\<close>

theorem getLiquidityForAmounts_piecewise:
  fixes P A B amount0 amount1 :: int
  defines "lo \<equiv> min A B" and "hi \<equiv> max A B"
  shows "getLiquidityForAmounts P A B amount0 amount1 = getLiquidityForAmounts P lo hi amount0 amount1
    \<and> (lo < hi \<and> P \<le> lo \<longrightarrow>
          getLiquidityForAmounts P A B amount0 amount1 = getLiquidityForAmount0 lo hi amount0
          \<and> (\<forall>x. getLiquidityForAmounts P A B amount0 x = getLiquidityForAmounts P A B amount0 amount1))
    \<and> (lo < hi \<and> hi \<le> P \<longrightarrow>
          getLiquidityForAmounts P A B amount0 amount1 = getLiquidityForAmount1 lo hi amount1
          \<and> (\<forall>x. getLiquidityForAmounts P A B x amount1 = getLiquidityForAmounts P A B amount0 amount1))
    \<and> (lo < hi \<and> lo < P \<and> P < hi \<longrightarrow>
          (\<exists>liq0 liq1. getLiquidityForAmount0 P hi amount0 = Inr liq0
              \<and> getLiquidityForAmount1 lo P amount1 = Inr liq1
              \<and> getLiquidityForAmounts P A B amount0 amount1 = Inr (min liq0 liq1)))"
proof -
  have s: "\<And>x y. getLiquidityForAmounts P A B x y = getLiquidityForAmounts P lo hi x y"
    unfolding lo_def hi_def by (rule sorted_bounds)
  have b: "lo < hi \<and> P \<le> lo \<longrightarrow>
          getLiquidityForAmounts P A B amount0 amount1 = getLiquidityForAmount0 lo hi amount0
          \<and> (\<forall>x. getLiquidityForAmounts P A B amount0 x = getLiquidityForAmounts P A B amount0 amount1)"
    by (simp add: s below_range)
  have a: "lo < hi \<and> hi \<le> P \<longrightarrow>
          getLiquidityForAmounts P A B amount0 amount1 = getLiquidityForAmount1 lo hi amount1
          \<and> (\<forall>x. getLiquidityForAmounts P A B x amount1 = getLiquidityForAmounts P A B amount0 amount1)"
    by (simp add: s above_range)
  have i: "lo < hi \<and> lo < P \<and> P < hi \<longrightarrow>
          (\<exists>liq0 liq1. getLiquidityForAmount0 P hi amount0 = Inr liq0
              \<and> getLiquidityForAmount1 lo P amount1 = Inr liq1
              \<and> getLiquidityForAmounts P A B amount0 amount1 = Inr (min liq0 liq1))"
  proof (intro impI)
    assume h: "lo < hi \<and> lo < P \<and> P < hi"
    then obtain l0 where l0: "getLiquidityForAmount0 P hi amount0 = Inr l0"
      using amount0_defined[of P hi amount0] by auto
    from h obtain l1 where l1: "getLiquidityForAmount1 lo P amount1 = Inr l1"
      using amount1_defined[of lo P amount1] by auto
    from h l0 l1 show "\<exists>liq0 liq1. getLiquidityForAmount0 P hi amount0 = Inr liq0
              \<and> getLiquidityForAmount1 lo P amount1 = Inr liq1
              \<and> getLiquidityForAmounts P A B amount0 amount1 = Inr (min liq0 liq1)"
      by (simp add: s in_range)
  qed
  from s b a i show ?thesis by blast
qed

theorem getLiquidityForAmounts_piecewise_witness:
  "(min (Q96 * 4) (Q96 * 2) < max (Q96 * 4) (Q96 * 2) \<and> Q96 \<le> min (Q96 * 4) (Q96 * 2))
   \<and> getLiquidityForAmounts Q96 (Q96 * 4) (Q96 * 2) 1000 5 = Inr 4000
   \<and> (min (Q96 * 4) (Q96 * 2) < max (Q96 * 4) (Q96 * 2) \<and> max (Q96 * 4) (Q96 * 2) \<le> Q96 * 5)
   \<and> getLiquidityForAmounts (Q96 * 5) (Q96 * 4) (Q96 * 2) 7 1000 = Inr 500
   \<and> (min (Q96 * 4) Q96 < max (Q96 * 4) Q96 \<and> min (Q96 * 4) Q96 < Q96 * 2 \<and> Q96 * 2 < max (Q96 * 4) Q96)
   \<and> getLiquidityForAmounts (Q96 * 2) (Q96 * 4) Q96 1000 1000 = Inr 1000"
proof -
  have h1: "min (Q96 * 4) (Q96 * 2) < max (Q96 * 4) (Q96 * 2) \<and> Q96 \<le> min (Q96 * 4) (Q96 * 2)"
    by (simp add: Q96_def)
  have h2: "min (Q96 * 4) (Q96 * 2) < max (Q96 * 4) (Q96 * 2) \<and> max (Q96 * 4) (Q96 * 2) \<le> Q96 * 5"
    by (simp add: Q96_def)
  have h3: "min (Q96 * 4) Q96 < max (Q96 * 4) Q96 \<and> min (Q96 * 4) Q96 < Q96 * 2 \<and> Q96 * 2 < max (Q96 * 4) Q96"
    by (simp add: Q96_def)
  have r1: "getLiquidityForAmounts Q96 (Q96 * 4) (Q96 * 2) 1000 5
              = getLiquidityForAmount0 (min (Q96 * 4) (Q96 * 2)) (max (Q96 * 4) (Q96 * 2)) 1000"
    using getLiquidityForAmounts_piecewise[where P="Q96" and A="Q96 * 4" and B="Q96 * 2"
        and ?amount0.0=1000 and ?amount1.0=5] h1 by blast
  have r2: "getLiquidityForAmounts (Q96 * 5) (Q96 * 4) (Q96 * 2) 7 1000
              = getLiquidityForAmount1 (min (Q96 * 4) (Q96 * 2)) (max (Q96 * 4) (Q96 * 2)) 1000"
    using getLiquidityForAmounts_piecewise[where P="Q96 * 5" and A="Q96 * 4" and B="Q96 * 2"
        and ?amount0.0=7 and ?amount1.0=1000] h2 by blast
  have r3: "\<exists>liq0 liq1. getLiquidityForAmount0 (Q96 * 2) (max (Q96 * 4) Q96) 1000 = Inr liq0
              \<and> getLiquidityForAmount1 (min (Q96 * 4) Q96) (Q96 * 2) 1000 = Inr liq1
              \<and> getLiquidityForAmounts (Q96 * 2) (Q96 * 4) Q96 1000 1000 = Inr (min liq0 liq1)"
    using getLiquidityForAmounts_piecewise[where P="Q96 * 2" and A="Q96 * 4" and B="Q96"
        and ?amount0.0=1000 and ?amount1.0=1000] h3 by blast
  have e1: "getLiquidityForAmount0 (min (Q96 * 4) (Q96 * 2)) (max (Q96 * 4) (Q96 * 2)) 1000 = Inr 4000"
    by (simp add: Q96_def getLiquidityForAmount0_def bigint_div_def tquot_def)
  have e2: "getLiquidityForAmount1 (min (Q96 * 4) (Q96 * 2)) (max (Q96 * 4) (Q96 * 2)) 1000 = Inr 500"
    by (simp add: Q96_def getLiquidityForAmount1_def bigint_div_def tquot_def)
  have e3: "getLiquidityForAmount0 (Q96 * 2) (max (Q96 * 4) Q96) 1000 = Inr 4000"
    by (simp add: Q96_def getLiquidityForAmount0_def bigint_div_def tquot_def)
  have e4: "getLiquidityForAmount1 (min (Q96 * 4) Q96) (Q96 * 2) 1000 = Inr 1000"
    by (simp add: Q96_def getLiquidityForAmount1_def bigint_div_def tquot_def)
  from r3 e3 e4 have r3': "getLiquidityForAmounts (Q96 * 2) (Q96 * 4) Q96 1000 1000 = Inr 1000"
    by auto
  from h1 h2 h3 r1 r2 r3' e1 e2 show ?thesis by simp
qed

text \<open>
  Claim C8.  When the two bounds coincide, the liquidity computation and both single-token
  estimates raise the division-by-zero error; no value is returned.
\<close>

theorem zero_width_range_fails:
  "getLiquidityForAmounts P A A amount0 amount1 = Inl RangeError
   \<and> getLiquidityForAmount0 A A amount0 = Inl RangeError
   \<and> getLiquidityForAmount1 A A amount1 = Inl RangeError"
  by (simp add: getLiquidityForAmounts_def getLiquidityForAmount0_def getLiquidityForAmount1_def
      bigint_div_def Q96_def)

section \<open>Properties of the execution coordinator\<close>

lemma tquot_nonneg: "0 \<le> a \<Longrightarrow> 0 \<le> b \<Longrightarrow> tquot a b = a div b"
  by (cases "a = 0"; cases "b = 0") (simp_all add: tquot_def sgn_if)

lemma tquot_nonneg_ge0: "0 \<le> a \<Longrightarrow> 0 \<le> b \<Longrightarrow> 0 \<le> tquot a b"
  by (simp add: tquot_nonneg pos_imp_zdiv_nonneg_iff div_int_pos_iff)

lemma mulShift_nonneg: "0 \<le> c \<Longrightarrow> 0 \<le> r \<Longrightarrow> 0 \<le> mulShift a m c r"
  by (simp add: mulShift_def)

lemma tickRatio_nonneg: "0 \<le> tickRatio a"
  unfolding tickRatio_def Let_def
  by (intro mulShift_nonneg) simp_all

lemma tickToSqrtPriceX96_nonneg:
  assumes "tickToSqrtPriceX96 t = Inr A" shows "0 \<le> A"
proof -
  obtain q where q: "(if t > 0 then bigint_div (2 ^ 256 - 1) (tickRatio \<bar>t\<bar>) else Inr (tickRatio \<bar>t\<bar>)) = Inr q"
    and A: "A = drop_bit 32 q + (if bigint_rem q (push_bit 32 1) > 0 then 1 else 0)"
    using assms by (auto simp: tickToSqrtPriceX96_def Let_def split: sum.splits)
  have "0 \<le> q"
    using q tickRatio_nonneg[of "\<bar>t\<bar>"]
    by (auto simp: bigint_div_def tquot_nonneg_ge0 split: if_splits)
  then show ?thesis using A by simp
qed

lemma amount0_nonneg:
  assumes "getLiquidityForAmount0 A B a = Inr l" "0 \<le> A" "0 \<le> B" "0 \<le> a"
  shows "0 \<le> l"
  using assms
  by (auto simp: getLiquidityForAmount0_def bigint_div_def Q96_def tquot_nonneg_ge0 split: if_splits)

lemma amount1_nonneg:
  assumes "getLiquidityForAmount1 A B a = Inr l" "0 \<le> a"
  shows "0 \<le> l"
  using assms
  by (auto simp: getLiquidityForAmount1_def bigint_div_def Q96_def tquot_nonneg_ge0 split: if_splits)

lemma getLiquidityForAmounts_nonneg:
  assumes L: "getLiquidityForAmounts P A B a0 a1 = Inr L"
    and "0 \<le> A" "0 \<le> B" "0 \<le> a0" "0 \<le> a1"
  shows "0 \<le> L"
proof -
  define lo where "lo = min A B"
  define hi where "hi = max A B"
  have lohi: "0 \<le> lo" "0 \<le> hi" using assms by (simp_all add: lo_def hi_def)
  have s: "getLiquidityForAmounts P lo hi a0 a1 = Inr L"
    using L by (simp add: getLiquidityForAmounts_def lo_def hi_def min_def max_def split: if_splits)
  have le: "lo \<le> hi" by (simp add: lo_def hi_def)
  consider "P \<le> lo" | "lo < P" "P < hi" | "lo < P" "hi \<le> P" by linarith
  then show ?thesis
  proof cases
    case 1
    then have "getLiquidityForAmount0 lo hi a0 = Inr L"
      using s le by (simp add: getLiquidityForAmounts_def)
    then show ?thesis using lohi assms by (auto dest: amount0_nonneg)
  next
    case 2
    then obtain l0 l1 where "getLiquidityForAmount0 P hi a0 = Inr l0"
      "getLiquidityForAmount1 lo P a1 = Inr l1" "L = (if l0 < l1 then l0 else l1)"
      using s le by (auto simp: getLiquidityForAmounts_def split: sum.splits)
    moreover have "0 \<le> P" using 2 lohi by simp
    ultimately show ?thesis using lohi assms
      by (auto dest: amount0_nonneg amount1_nonneg)
  next
    case 3
    then have "getLiquidityForAmount1 lo hi a1 = Inr L"
      using s le by (simp add: getLiquidityForAmounts_def)
    then show ?thesis using assms by (auto dest: amount1_nonneg)
  qed
qed

lemma margin_bound: "0 \<le> (L::int) \<Longrightarrow> tquot (L * 99) 100 = (L * 99) div 100 \<and> 100 * tquot (L * 99) 100 \<le> 99 * L \<and> 0 \<le> tquot (L * 99) 100"
proof -
  assume L: "0 \<le> L"
  have q: "tquot (L * 99) 100 = (L * 99) div 100" using L by (simp add: tquot_nonneg)
  define d where "d = (L * 99) div 100"
  define r where "r = (L * 99) mod 100"
  have "L * 99 = d * 100 + r" by (simp add: d_def r_def)
  moreover have "0 \<le> r" by (simp add: r_def)
  moreover have "0 \<le> d" using L by (simp add: d_def pos_imp_zdiv_nonneg_iff)
  ultimately have "100 * d \<le> 99 * L \<and> 0 \<le> d" by linarith
  then show ?thesis using q by (simp add: d_def)
qed

lemma executeMintPosition_computed:
  assumes "getPoolState env (world s) = (Inr pool, w1)"
    and "tickToSqrtPriceX96 lo = Inr A" and "tickToSqrtPriceX96 hi = Inr B"
    and "getLiquidityForAmounts (sqrtPriceX96 pool) A B a0 a1 = Inr L"
  shows "executeMintPosition env d lo hi a0 a1 s =
     (let liq = tquot (L * 99) 100; deadline = nowMs env (world s) div 1000 + 300 in
      if liq = 0 then (Inr None, s\<lparr>world := w1\<rparr>)
      else
        (let tr = trace s @ [MintTx d lo hi liq a0 a1 deadline]
         in case agentMintPosition env w1 d lo hi liq a0 a1 deadline of
              (Inl e, w2) \<Rightarrow> (Inl e, s\<lparr>world := w2, trace := tr\<rparr>)
            | (Inr receipt, w2) \<Rightarrow>
                (let tokenId = findPositionCreated (logs receipt);
                     cache = (case tokenId of
                                None \<Rightarrow> positionTickCache s
                              | Some t \<Rightarrow> (positionTickCache s)(t \<mapsto> (lo, hi)))
                 in (Inr (Some \<lparr>mr_tokenId = tokenId, mr_txHash = hash receipt,
                                mr_liquidity = liq, mr_amount0 = a0,
                                mr_amount1 = a1\<rparr>),
                     s\<lparr>world := w2, positionTickCache := cache, trace := tr\<rparr>))))"
  using assms by (simp add: executeMintPosition_def Let_def)

lemma executeMintPosition_not_computed:
  assumes "\<not> (\<exists>pool w1 A B L. getPoolState env (world s) = (Inr pool, w1)
             \<and> tickToSqrtPriceX96 lo = Inr A \<and> tickToSqrtPriceX96 hi = Inr B
             \<and> getLiquidityForAmounts (sqrtPriceX96 pool) A B a0 a1 = Inr L)"
  shows "\<exists>e. fst (executeMintPosition env d lo hi a0 a1 s) = Inl e
           \<and> trace (snd (executeMintPosition env d lo hi a0 a1 s)) = trace s
           \<and> positionTickCache (snd (executeMintPosition env d lo hi a0 a1 s)) = positionTickCache s"
  using assms
  by (auto simp: executeMintPosition_def Let_def split: prod.splits sum.splits)

text \<open>
  Claim C3.  \<open>executeMintPosition\<close> either fails before anything is submitted (a read
  failure or a division by zero; the trace is unchanged), or it has read the pool price,
  converted both ticks with \<open>tickToSqrtPriceX96\<close> and computed the candidate liquidity
  \<open>L\<close> with \<open>getLiquidityForAmounts\<close>.  The liquidity it uses is \<open>L * 99 / 100\<close> in
  bigint division.  When that is zero it returns \<open>undefined\<close> and nothing but the world
  read has changed: no mint is submitted.  Otherwise exactly one mint is submitted, with
  that liquidity, and a result it returns carries it.  For non-negative balances \<open>L\<close> is
  non-negative, the division rounds down, and the liquidity submitted is at most 99% of
  \<open>L\<close>.
\<close>

theorem executeMintPosition_safety_margin:
  fixes env :: "'w Env"
  defines "deadline s \<equiv> nowMs env (world s) div 1000 + 300"
  shows
  "(\<exists>e. fst (executeMintPosition env depositId lo hi amount0Max amount1Max s) = Inl e
        \<and> trace (snd (executeMintPosition env depositId lo hi amount0Max amount1Max s)) = trace s)
   \<or> (\<exists>pool w1 A B L.
         getPoolState env (world s) = (Inr pool, w1)
       \<and> tickToSqrtPriceX96 lo = Inr A \<and> tickToSqrtPriceX96 hi = Inr B
       \<and> getLiquidityForAmounts (sqrtPriceX96 pool) A B amount0Max amount1Max = Inr L
       \<and> (if tquot (L * 99) 100 = 0
          then executeMintPosition env depositId lo hi amount0Max amount1Max s
                 = (Inr None, s\<lparr>world := w1\<rparr>)
          else trace (snd (executeMintPosition env depositId lo hi amount0Max amount1Max s))
                 = trace s @ [MintTx depositId lo hi (tquot (L * 99) 100)
                                amount0Max amount1Max (deadline s)]
             \<and> fst (executeMintPosition env depositId lo hi amount0Max amount1Max s) \<noteq> Inr None
             \<and> (\<forall>m. fst (executeMintPosition env depositId lo hi amount0Max amount1Max s)
                       = Inr (Some m) \<longrightarrow> mr_liquidity m = tquot (L * 99) 100))
       \<and> (0 \<le> amount0Max \<and> 0 \<le> amount1Max \<longrightarrow>
            0 \<le> L \<and> tquot (L * 99) 100 = (L * 99) div 100
            \<and> 100 * tquot (L * 99) 100 \<le> 99 * L))"
proof (cases "\<exists>pool w1 A B L. getPoolState env (world s) = (Inr pool, w1)
             \<and> tickToSqrtPriceX96 lo = Inr A \<and> tickToSqrtPriceX96 hi = Inr B
             \<and> getLiquidityForAmounts (sqrtPriceX96 pool) A B amount0Max amount1Max = Inr L")
  case False
  from executeMintPosition_not_computed[OF False, of depositId] show ?thesis by blast
next
  case True
  then obtain pool w1 A B L where c: "getPoolState env (world s) = (Inr pool, w1)"
    "tickToSqrtPriceX96 lo = Inr A" "tickToSqrtPriceX96 hi = Inr B"
    "getLiquidityForAmounts (sqrtPriceX96 pool) A B amount0Max amount1Max = Inr L" by blast
  note e = executeMintPosition_computed[OF c, of depositId]
  have run: "(if tquot (L * 99) 100 = 0
          then executeMintPosition env depositId lo hi amount0Max amount1Max s
                 = (Inr None, s\<lparr>world := w1\<rparr>)
          else trace (snd (executeMintPosition env depositId lo hi amount0Max amount1Max s))
                 = trace s @ [MintTx depositId lo hi (tquot (L * 99) 100)
                                amount0Max amount1Max (deadline s)]
             \<and> fst (executeMintPosition env depositId lo hi amount0Max amount1Max s) \<noteq> Inr None
             \<and> (\<forall>m. fst (executeMintPosition env depositId lo hi amount0Max amount1Max s)
                       = Inr (Some m) \<longrightarrow> mr_liquidity m = tquot (L * 99) 100))"
    unfolding e deadline_def by (auto simp: Let_def split: prod.splits sum.splits)
  have bound: "0 \<le> amount0Max \<and> 0 \<le> amount1Max \<longrightarrow>
            0 \<le> L \<and> tquot (L * 99) 100 = (L * 99) div 100
            \<and> 100 * tquot (L * 99) 100 \<le> 99 * L"
    using getLiquidityForAmounts_nonneg[OF c(4)] tickToSqrtPriceX96_nonneg[OF c(2)]
      tickToSqrtPriceX96_nonneg[OF c(3)] margin_bound[of L] by blast
  from c run bound show ?thesis by blast
qed

theorem executeMintPosition_safety_margin_witness:
  "(0 \<le> (1000000::int) \<and> 0 \<le> (1000000::int))
   \<and> trace (snd (executeMintPosition ledger 1 (-202200) (-201000) 1000000 1000000 (sys0 world0)))
       = [MintTx 1 (-202200) (-201000) 1478 1000000 1000000 1700000300]
   \<and> 100 * 1478 \<le> 99 * (1493::int)
   \<and> executeMintPosition ledger 1 (-202200) (-201000) 1 1 (sys0 world0)
       = (Inr None, (sys0 world0)\<lparr>world := world0\<rparr>)"
proof -
  have pool: "getPoolState ledger (world (sys0 world0)) = (Inr (w_pool world0), world0)"
    by (simp add: ledger_def sys0_def)
  have A: "tickToSqrtPriceX96 (-202200) = Inr 3223902454699589507672865" by code_simp
  have B: "tickToSqrtPriceX96 (-201000) = Inr 3423247179824975857681740" by code_simp
  have L1: "getLiquidityForAmounts (sqrtPriceX96 (w_pool world0)) 3223902454699589507672865
              3423247179824975857681740 1000000 1000000 = Inr 1493" by code_simp
  have L2: "getLiquidityForAmounts (sqrtPriceX96 (w_pool world0)) 3223902454699589507672865
              3423247179824975857681740 1 1 = Inr 0" by code_simp
  have ok1: "fst (executeMintPosition ledger 1 (-202200) (-201000) 1000000 1000000 (sys0 world0))
              \<noteq> Inl e" for e
    unfolding executeMintPosition_computed[OF pool A B L1]
    by (simp add: tquot_def ledger_def Let_def)
  have ok2: "fst (executeMintPosition ledger 1 (-202200) (-201000) 1 1 (sys0 world0)) \<noteq> Inl e" for e
    unfolding executeMintPosition_computed[OF pool A B L2]
    by (simp add: tquot_def ledger_def Let_def)
  have q1: "tquot (1493 * 99) 100 = 1478" by (simp add: tquot_def)
  have q2: "tquot (0 * 99) 100 = 0" by (simp add: tquot_def)
  have dl: "nowMs ledger (world (sys0 world0)) div 1000 + 300 = 1700000300"
    by (simp add: ledger_def sys0_def world0_def)
  from executeMintPosition_safety_margin[where env=ledger and depositId=1 and lo="-202200"
      and hi="-201000" and ?amount0Max.0=1000000 and ?amount1Max.0=1000000 and s="sys0 world0"]
    ok1 pool A B L1 q1 dl
  have r1: "trace (snd (executeMintPosition ledger 1 (-202200) (-201000) 1000000 1000000 (sys0 world0)))
       = [MintTx 1 (-202200) (-201000) 1478 1000000 1000000 1700000300]
     \<and> 100 * 1478 \<le> 99 * (1493::int)"
    by (auto simp: sys0_def)
  from executeMintPosition_safety_margin[where env=ledger and depositId=1 and lo="-202200"
      and hi="-201000" and ?amount0Max.0=1 and ?amount1Max.0=1 and s="sys0 world0"]
    ok2 pool A B L2 q2
  have r2: "executeMintPosition ledger 1 (-202200) (-201000) 1 1 (sys0 world0)
       = (Inr None, (sys0 world0)\<lparr>world := world0\<rparr>)"
    by auto
  from r1 r2 show ?thesis by simp
qed

lemma closedIds_append: "closedIds (xs @ ys) = closedIds xs @ closedIds ys"
  by (induction xs rule: closedIds.induct) simp_all

lemma mintCalls_append: "mintCalls (xs @ ys) = mintCalls xs @ mintCalls ys"
  by (induction xs rule: mintCalls.induct) simp_all

lemma executeClosePosition_trace:
  "trace (snd (executeClosePosition env d t s))
     = trace s @ [CloseTx d t 0 0 (nowMs env (world s) div 1000 + 300)]"
  by (simp add: executeClosePosition_def Let_def split: prod.splits sum.splits)

lemma executeClosePosition_result:
  "executeClosePosition env d t s = (Inr c, s1) \<Longrightarrow> cr_tokenId c = t"
  by (auto simp: executeClosePosition_def Let_def split: prod.splits sum.splits)

lemma closeLoop_trace:
  "closeLoop env d ids acc s = (r, s2) \<Longrightarrow>
     mintCalls (trace s2) = mintCalls (trace s)
     \<and> (\<forall>closes. r = Inr closes \<longrightarrow>
           closedIds (trace s2) = closedIds (trace s) @ ids
           \<and> (\<exists>new. closes = acc @ new \<and> map cr_tokenId new = ids
                  \<and> length new = length ids))"
proof (induction ids arbitrary: acc s)
  case Nil
  then show ?case by auto
next
  case (Cons t rest)
  obtain r1 s1 where c: "executeClosePosition env d t s = (r1, s1)" by (cases "executeClosePosition env d t s")
  have tr: "trace s1 = trace s @ [CloseTx d t 0 0 (nowMs env (world s) div 1000 + 300)]"
    using executeClosePosition_trace[of env d t s] c by simp
  show ?case
  proof (cases r1)
    case (Inl e)
    with Cons.prems c tr show ?thesis by (auto simp: mintCalls_append)
  next
    case (Inr cr)
    with Cons.prems c have rec: "closeLoop env d rest (acc @ [cr]) s1 = (r, s2)" by simp
    from executeClosePosition_result c Inr have t: "cr_tokenId cr = t" by blast
    from Cons.IH[OF rec] tr t show ?thesis
      by (auto simp: mintCalls_append closedIds_append)
  qed
qed

lemma executeMintPosition_trace:
  "executeMintPosition env d lo hi a0 a1 s = (r, s') \<Longrightarrow>
     closedIds (trace s') = closedIds (trace s)
     \<and> (mintCalls (trace s') = mintCalls (trace s)
        \<or> (\<exists>liq. mintCalls (trace s') = mintCalls (trace s) @ [(d, lo, hi, liq, a0, a1)]))"
  by (auto simp: executeMintPosition_def Let_def mintCalls_append closedIds_append
      split: prod.splits sum.splits if_splits)

text \<open>
  Claim C4.  Whatever the outcome, \<open>executeRebalance\<close> submits at most one mint, and only
  after a re-read of the deposit that shows a nonzero balance; that mint carries the new
  bounds and the two re-read balances.  When it returns a result, it has read the deposit,
  closed every listed position in order, each close starting from the state the previous
  confirmed one left (\<open>closeLoop\<close>), so \<open>closeTxHashes\<close> has one entry per listed position
  and the trace has gained exactly these closes; it has then re-read the deposit.  If both
  re-read balances are zero the result has \<open>mintResult\<close> null and \<open>newTokenId\<close> undefined
  and no mint is submitted; otherwise \<open>executeMintPosition\<close> ran once with the re-read
  balances and the new bounds, and the result carries its outcome.
\<close>

theorem executeRebalance_spec:
  fixes env :: "'w Env" and s s' :: "'w Sys"
  assumes run: "executeRebalance env depositId newTickLower newTickUpper s = (r, s')"
  shows "(mintCalls (trace s') = mintCalls (trace s)
          \<or> (\<exists>(s2::'w Sys) deposit2 w3 liq.
                getDepositInfo env (world s2) depositId = (Inr deposit2, w3)
              \<and> (amount0Remaining deposit2 \<noteq> 0 \<or> amount1Remaining deposit2 \<noteq> 0)
              \<and> mintCalls (trace s') = mintCalls (trace s) @
                   [(depositId, newTickLower, newTickUpper, liq,
                     amount0Remaining deposit2, amount1Remaining deposit2)]))
       \<and> (\<forall>rr. r = Inr rr \<longrightarrow>
            (\<exists>deposit w1 (s2::'w Sys) deposit2 w3.
                getDepositInfo env (world s) depositId = (Inr deposit, w1)
              \<and> closeLoop env depositId (positionTokenIds deposit) [] (s\<lparr>world := w1\<rparr>)
                  = (Inr (closeTxHashes rr), s2)
              \<and> map cr_tokenId (closeTxHashes rr) = positionTokenIds deposit
              \<and> length (closeTxHashes rr) = length (positionTokenIds deposit)
              \<and> closedIds (trace s') = closedIds (trace s) @ positionTokenIds deposit
              \<and> getDepositInfo env (world s2) depositId = (Inr deposit2, w3)
              \<and> (if amount0Remaining deposit2 = 0 \<and> amount1Remaining deposit2 = 0
                 then mintResult rr = None \<and> newTokenId rr = None \<and> s' = s2\<lparr>world := w3\<rparr>
                      \<and> mintCalls (trace s') = mintCalls (trace s)
                 else executeMintPosition env depositId newTickLower newTickUpper
                        (amount0Remaining deposit2) (amount1Remaining deposit2)
                        (s2\<lparr>world := w3\<rparr>) = (Inr (mintResult rr), s')
                      \<and> newTokenId rr = (case mintResult rr of None \<Rightarrow> None
                                          | Some m \<Rightarrow> mr_tokenId m))))"
proof -
  obtain r1 w1 where d1: "getDepositInfo env (world s) depositId = (r1, w1)"
    by (cases "getDepositInfo env (world s) depositId")
  show ?thesis
  proof (cases r1)
    case (Inl e)
    with run d1 show ?thesis by (auto simp: executeRebalance_def)
  next
    case (Inr deposit)
    obtain r2 s2 where cl: "closeLoop env depositId (positionTokenIds deposit) [] (s\<lparr>world := w1\<rparr>) = (r2, s2)"
      by (cases "closeLoop env depositId (positionTokenIds deposit) [] (s\<lparr>world := w1\<rparr>)")
    note ct = closeLoop_trace[OF cl]
    show ?thesis
    proof (cases r2)
      case (Inl e)
      with run d1 Inr cl ct show ?thesis by (auto simp: executeRebalance_def)
    next
      case closes: (Inr closes)
      obtain r3 w3 where d3: "getDepositInfo env (world s2) depositId = (r3, w3)"
        by (cases "getDepositInfo env (world s2) depositId")
      show ?thesis
      proof (cases r3)
        case (Inl e)
        with run d1 Inr cl closes ct d3 show ?thesis by (auto simp: executeRebalance_def)
      next
        case dep2: (Inr deposit2)
        show ?thesis
        proof (cases "amount0Remaining deposit2 = 0 \<and> amount1Remaining deposit2 = 0")
          case True
          with run d1 Inr cl closes ct d3 dep2 show ?thesis
            by (auto simp: executeRebalance_def)
        next
          case False
          obtain r4 s4 where m: "executeMintPosition env depositId newTickLower newTickUpper
                        (amount0Remaining deposit2) (amount1Remaining deposit2)
                        (s2\<lparr>world := w3\<rparr>) = (r4, s4)"
            by (cases "executeMintPosition env depositId newTickLower newTickUpper
                        (amount0Remaining deposit2) (amount1Remaining deposit2)
                        (s2\<lparr>world := w3\<rparr>)")
          note mt = executeMintPosition_trace[OF m]
          have s': "s' = s4" and r: "r = (case r4 of Inl e \<Rightarrow> Inl e | Inr mr \<Rightarrow>
                 Inr \<lparr>closeTxHashes = closes, mintResult = mr,
                          newTokenId = (case mr of None \<Rightarrow> None | Some x \<Rightarrow> mr_tokenId x)\<rparr>)"
            using run d1 Inr cl closes d3 dep2 False m
            by (auto simp: executeRebalance_def Let_def split: sum.splits)
          have A: "mintCalls (trace s') = mintCalls (trace s)
          \<or> (\<exists>(s2::'w Sys) deposit2 w3 liq.
                getDepositInfo env (world s2) depositId = (Inr deposit2, w3)
              \<and> (amount0Remaining deposit2 \<noteq> 0 \<or> amount1Remaining deposit2 \<noteq> 0)
              \<and> mintCalls (trace s') = mintCalls (trace s) @
                   [(depositId, newTickLower, newTickUpper, liq,
                     amount0Remaining deposit2, amount1Remaining deposit2)])"
          proof -
            have d3': "getDepositInfo env (world s2) depositId = (Inr deposit2, w3)"
              using d3 dep2 by simp
            have nz: "amount0Remaining deposit2 \<noteq> 0 \<or> amount1Remaining deposit2 \<noteq> 0"
              using False by simp
            have base: "mintCalls (trace s2) = mintCalls (trace s)" using ct by simp
            from mt have "mintCalls (trace s') = mintCalls (trace s)
                \<or> (\<exists>liq. mintCalls (trace s') = mintCalls (trace s) @
                     [(depositId, newTickLower, newTickUpper, liq,
                       amount0Remaining deposit2, amount1Remaining deposit2)])"
              using base s' by simp
            then show ?thesis
            proof (elim disjE exE)
              assume "mintCalls (trace s') = mintCalls (trace s)"
              then show ?thesis by (rule disjI1)
            next
              fix liq
              assume "mintCalls (trace s') = mintCalls (trace s) @
                     [(depositId, newTickLower, newTickUpper, liq,
                       amount0Remaining deposit2, amount1Remaining deposit2)]"
              with d3' nz show ?thesis
                apply -
                apply (rule disjI2)
                apply (rule exI[of _ s2], rule exI[of _ deposit2], rule exI[of _ w3],
                       rule exI[of _ liq])
                apply simp
                done
            qed
          qed
          have B: "\<forall>rr. r = Inr rr \<longrightarrow>
            (\<exists>deposit w1 (s2::'w Sys) deposit2 w3.
                getDepositInfo env (world s) depositId = (Inr deposit, w1)
              \<and> closeLoop env depositId (positionTokenIds deposit) [] (s\<lparr>world := w1\<rparr>)
                  = (Inr (closeTxHashes rr), s2)
              \<and> map cr_tokenId (closeTxHashes rr) = positionTokenIds deposit
              \<and> length (closeTxHashes rr) = length (positionTokenIds deposit)
              \<and> closedIds (trace s') = closedIds (trace s) @ positionTokenIds deposit
              \<and> getDepositInfo env (world s2) depositId = (Inr deposit2, w3)
              \<and> (if amount0Remaining deposit2 = 0 \<and> amount1Remaining deposit2 = 0
                 then mintResult rr = None \<and> newTokenId rr = None \<and> s' = s2\<lparr>world := w3\<rparr>
                      \<and> mintCalls (trace s') = mintCalls (trace s)
                 else executeMintPosition env depositId newTickLower newTickUpper
                        (amount0Remaining deposit2) (amount1Remaining deposit2)
                        (s2\<lparr>world := w3\<rparr>) = (Inr (mintResult rr), s')
                      \<and> newTokenId rr = (case mintResult rr of None \<Rightarrow> None
                                          | Some m \<Rightarrow> mr_tokenId m)))"
          proof (intro allI impI)
            fix rr assume rr: "r = Inr rr"
            with r obtain mr where r4: "r4 = Inr mr" and rrv: "rr = \<lparr>closeTxHashes = closes, mintResult = mr,
                          newTokenId = (case mr of None \<Rightarrow> None | Some x \<Rightarrow> mr_tokenId x)\<rparr>"
              by (cases r4) auto
            have len: "map cr_tokenId closes = positionTokenIds deposit"
              using ct closes by auto
            then have len2: "length closes = length (positionTokenIds deposit)"
              by (metis length_map)
            have ci: "closedIds (trace s') = closedIds (trace s) @ positionTokenIds deposit"
              using ct closes mt s' by auto
            show "\<exists>deposit w1 (s2::'w Sys) deposit2 w3.
                getDepositInfo env (world s) depositId = (Inr deposit, w1)
              \<and> closeLoop env depositId (positionTokenIds deposit) [] (s\<lparr>world := w1\<rparr>)
                  = (Inr (closeTxHashes rr), s2)
              \<and> map cr_tokenId (closeTxHashes rr) = positionTokenIds deposit
              \<and> length (closeTxHashes rr) = length (positionTokenIds deposit)
              \<and> closedIds (trace s') = closedIds (trace s) @ positionTokenIds deposit
              \<and> getDepositInfo env (world s2) depositId = (Inr deposit2, w3)
              \<and> (if amount0Remaining deposit2 = 0 \<and> amount1Remaining deposit2 = 0
                 then mintResult rr = None \<and> newTokenId rr = None \<and> s' = s2\<lparr>world := w3\<rparr>
                      \<and> mintCalls (trace s') = mintCalls (trace s)
                 else executeMintPosition env depositId newTickLower newTickUpper
                        (amount0Remaining deposit2) (amount1Remaining deposit2)
                        (s2\<lparr>world := w3\<rparr>) = (Inr (mintResult rr), s')
                      \<and> newTokenId rr = (case mintResult rr of None \<Rightarrow> None
                                          | Some m \<Rightarrow> mr_tokenId m))"
              apply (rule exI[of _ deposit], rule exI[of _ w1], rule exI[of _ s2],
                     rule exI[of _ deposit2], rule exI[of _ w3])
              using d1 Inr cl closes d3 dep2 False m r4 rrv s' len len2 ci by auto
          qed
          from A B show ?thesis by blast
        qed
      qed
    qed
  qed
qed

theorem executeRebalance_spec_witness:
  "executeRebalance ledger 1 (-202200) (-201000) (sys0 worldC)
     = (Inr \<lparr>closeTxHashes = [\<lparr>cr_tokenId = 5, cr_txHash = ''0xclose''\<rparr>,
                               \<lparr>cr_tokenId = 7, cr_txHash = ''0xclose''\<rparr>],
             mintResult = None, newTokenId = None\<rparr>,
        snd (executeRebalance ledger 1 (-202200) (-201000) (sys0 worldC)))
   \<and> closedIds (trace (snd (executeRebalance ledger 1 (-202200) (-201000) (sys0 worldC)))) = [5, 7]
   \<and> mintCalls (trace (snd (executeRebalance ledger 1 (-202200) (-201000) (sys0 worldC)))) = []
   \<and> newTokenId (projr (fst (executeRebalance ledger 1 (-202200) (-201000) (sys0 worldD)))) = Some 8
   \<and> closedIds (trace (snd (executeRebalance ledger 1 (-202200) (-201000) (sys0 worldD)))) = [5, 7]
   \<and> mintCalls (trace (snd (executeRebalance ledger 1 (-202200) (-201000) (sys0 worldD))))
        = [(1, -202200, -201000, 1478, 1000000, 1000000)]"
proof -
  let ?C = "executeRebalance ledger 1 (-202200) (-201000) (sys0 worldC)"
  let ?D = "executeRebalance ledger 1 (-202200) (-201000) (sys0 worldD)"
  let ?rrC = "\<lparr>closeTxHashes = [\<lparr>cr_tokenId = 5, cr_txHash = ''0xclose''\<rparr>,
                               \<lparr>cr_tokenId = 7, cr_txHash = ''0xclose''\<rparr>],
             mintResult = None, newTokenId = None\<rparr>"
  have fC: "fst ?C = Inr ?rrC" by code_simp
  then have runC: "?C = (Inr ?rrC, snd ?C)" by (metis prod.collapse)
  have depC: "getDepositInfo ledger (world (sys0 worldC)) 1 = (Inr (w_deposit worldC), worldC)"
    by (simp add: ledger_def sys0_def)
  have idsC: "positionTokenIds (w_deposit worldC) = [5, 7]"
    by (simp add: worldC_def)
  have tr0: "trace (sys0 worldC) = []" "trace (sys0 worldD) = []" by (simp_all add: sys0_def)
  from executeRebalance_spec[OF runC] depC idsC tr0
  have cC: "closedIds (trace (snd ?C)) = [5, 7]" by auto
  have mC: "mintCalls (trace (snd ?C)) = []" by code_simp
  have fD: "fst ?D = Inr \<lparr>closeTxHashes = [\<lparr>cr_tokenId = 5, cr_txHash = ''0xclose''\<rparr>,
                               \<lparr>cr_tokenId = 7, cr_txHash = ''0xclose''\<rparr>],
             mintResult = Some \<lparr>mr_tokenId = Some 8, mr_txHash = ''0xmint'', mr_liquidity = 1478,
                                mr_amount0 = 1000000, mr_amount1 = 1000000\<rparr>,
             newTokenId = Some 8\<rparr>" by code_simp
  then have runD: "?D = (Inr \<lparr>closeTxHashes = [\<lparr>cr_tokenId = 5, cr_txHash = ''0xclose''\<rparr>,
                               \<lparr>cr_tokenId = 7, cr_txHash = ''0xclose''\<rparr>],
             mintResult = Some \<lparr>mr_tokenId = Some 8, mr_txHash = ''0xmint'', mr_liquidity = 1478,
                                mr_amount0 = 1000000, mr_amount1 = 1000000\<rparr>,
             newTokenId = Some 8\<rparr>, snd ?D)" by (metis prod.collapse)
  have depD: "getDepositInfo ledger (world (sys0 worldD)) 1 = (Inr (w_deposit worldD), worldD)"
    by (simp add: ledger_def sys0_def)
  have idsD: "positionTokenIds (w_deposit worldD) = [5, 7]"
    by (simp add: worldD_def worldC_def)
  from executeRebalance_spec[OF runD] depD idsD tr0
  have cD: "closedIds (trace (snd ?D)) = [5, 7]" by auto
  have mD: "mintCalls (trace (snd ?D)) = [(1, -202200, -201000, 1478, 1000000, 1000000)]"
    by code_simp
  from fD have nD: "newTokenId (projr (fst ?D)) = Some 8" by simp
  from runC cC mC nD cD mD show ?thesis by blast
qed

section \<open>Properties of the side-cache\<close>

lemma ok_pool: "ledger_ok env opened \<Longrightarrow> getPoolState env w = (r, w') \<Longrightarrow> opened w' = opened w"
  unfolding ledger_ok_def by metis
lemma ok_deposit: "ledger_ok env opened \<Longrightarrow> getDepositInfo env w d = (r, w') \<Longrightarrow> opened w' = opened w"
  unfolding ledger_ok_def by metis
lemma ok_mint_fail: "ledger_ok env opened \<Longrightarrow>
   agentMintPosition env w d lo hi liq a0 a1 dl = (Inl e, w') \<Longrightarrow> opened w' = opened w"
  unfolding ledger_ok_def by metis
lemma ok_mint: "ledger_ok env opened \<Longrightarrow>
   agentMintPosition env w d lo hi liq a0 a1 dl = (Inr rc, w') \<Longrightarrow>
   \<exists>t. findPositionCreated (logs rc) = Some t \<and> opened w' = insert t (opened w)"
  unfolding ledger_ok_def by metis
lemma ok_close_fail: "ledger_ok env opened \<Longrightarrow>
   agentClosePosition env w d t m0 m1 dl = (Inl e, w') \<Longrightarrow> opened w' = opened w"
  unfolding ledger_ok_def by metis
lemma ok_close: "ledger_ok env opened \<Longrightarrow>
   agentClosePosition env w d t m0 m1 dl = (Inr rc, w') \<Longrightarrow> opened w' = opened w - {t}"
  unfolding ledger_ok_def by metis

lemma cache_inv_world:
  "cache_inv opened before s \<Longrightarrow> opened w' = opened (world s) \<Longrightarrow>
   cache_inv opened before (s\<lparr>world := w'\<rparr>)"
  by (simp add: cache_inv_def)

lemma cache_inv_world_trace:
  "cache_inv opened before s \<Longrightarrow> opened w' = opened (world s) \<Longrightarrow>
   cache_inv opened before (s\<lparr>world := w', trace := tr\<rparr>)"
  by (simp add: cache_inv_def)

lemma cache_inv_trace:
  "cache_inv opened before (s\<lparr>trace := tr\<rparr>) = cache_inv opened before s"
  by (simp add: cache_inv_def)

lemma mint_cases:
  fixes s :: "'w Sys"
  assumes run: "executeMintPosition env d lo hi a0 a1 s = (r, s')"
  obtains (read) rp w1 where "getPoolState env (world s) = (rp, w1)" "s' = s\<lparr>world := w1\<rparr>"
            "\<forall>m. r \<noteq> Inr (Some m)"
  | (failed) p w1 liq dl e w2 where "getPoolState env (world s) = (Inr p, w1)"
            "agentMintPosition env w1 d lo hi liq a0 a1 dl = (Inl e, w2)"
            "s' = s\<lparr>world := w2, trace := trace s @ [MintTx d lo hi liq a0 a1 dl]\<rparr>" "r = Inl e"
  | (confirmed) p w1 liq dl rc w2 where "getPoolState env (world s) = (Inr p, w1)"
            "agentMintPosition env w1 d lo hi liq a0 a1 dl = (Inr rc, w2)"
            "s' = s\<lparr>world := w2,
                    positionTickCache := (case findPositionCreated (logs rc) of
                        None \<Rightarrow> positionTickCache s
                      | Some t \<Rightarrow> (positionTickCache s)(t \<mapsto> (lo, hi))),
                    trace := trace s @ [MintTx d lo hi liq a0 a1 dl]\<rparr>"
            "r = Inr (Some \<lparr>mr_tokenId = findPositionCreated (logs rc), mr_txHash = hash rc,
                             mr_liquidity = liq, mr_amount0 = a0, mr_amount1 = a1\<rparr>)"
  using run
  by (auto simp: executeMintPosition_def Let_def split: prod.splits sum.splits if_splits)

lemma mint_inv:
  fixes s :: "'w Sys"
  assumes ok: "ledger_ok env opened" and inv: "cache_inv opened before s"
    and run: "executeMintPosition env d lo hi a0 a1 s = (r, s')"
  shows "cache_inv opened before s'"
  using run
proof (cases rule: mint_cases)
  case (read rp w1)
  then show ?thesis using ok_pool[OF ok read(1)] inv by (simp add: cache_inv_def)
next
  case (failed p w1 liq dl e w2)
  then show ?thesis using ok_pool[OF ok failed(1)] ok_mint_fail[OF ok failed(2)] inv
    by (simp add: cache_inv_def)
next
  case (confirmed p w1 liq dl rc w2)
  from ok_mint[OF ok confirmed(2)] obtain t where
    t: "findPositionCreated (logs rc) = Some t" "opened w2 = insert t (opened w1)" by blast
  then show ?thesis using ok_pool[OF ok confirmed(1)] confirmed(3) inv
    by (auto simp: cache_inv_def)
qed

lemma close_cases:
  fixes s :: "'w Sys"
  assumes run: "executeClosePosition env d t s = (r, s')"
  obtains (failed) e w1 dl where "agentClosePosition env (world s) d t 0 0 dl = (Inl e, w1)"
            "s' = s\<lparr>world := w1, trace := trace s @ [CloseTx d t 0 0 dl]\<rparr>" "r = Inl e"
  | (confirmed) rc w1 dl where "agentClosePosition env (world s) d t 0 0 dl = (Inr rc, w1)"
            "s' = s\<lparr>world := w1, positionTickCache := (positionTickCache s)(t := None),
                    trace := trace s @ [CloseTx d t 0 0 dl]\<rparr>"
            "r = Inr \<lparr>cr_tokenId = t, cr_txHash = hash rc\<rparr>"
  using run
  by (auto simp: executeClosePosition_def Let_def split: prod.splits sum.splits)

lemma close_inv:
  fixes s :: "'w Sys"
  assumes ok: "ledger_ok env opened" and inv: "cache_inv opened before s"
    and run: "executeClosePosition env d t s = (r, s')"
  shows "cache_inv opened before s'"
  using run
proof (cases rule: close_cases)
  case (failed e w1 dl)
  then show ?thesis using ok_close_fail[OF ok failed(1)] inv by (simp add: cache_inv_def)
next
  case (confirmed rc w1 dl)
  then show ?thesis using ok_close[OF ok confirmed(1)] inv by (auto simp: cache_inv_def)
qed

lemma closeLoop_inv:
  fixes s :: "'w Sys"
  assumes ok: "ledger_ok env opened"
  shows "cache_inv opened before s \<Longrightarrow> closeLoop env d ids acc s = (r, s') \<Longrightarrow>
         cache_inv opened before s'"
proof (induction ids arbitrary: acc s)
  case Nil
  then show ?case by simp
next
  case (Cons t rest)
  obtain r1 s1 where c: "executeClosePosition env d t s = (r1, s1)"
    by (cases "executeClosePosition env d t s")
  from close_inv[OF ok Cons.prems(1) c] have i1: "cache_inv opened before s1" .
  show ?case
  proof (cases r1)
    case (Inl e)
    with Cons.prems c i1 show ?thesis by simp
  next
    case (Inr cr)
    with Cons.prems c have "closeLoop env d rest (acc @ [cr]) s1 = (r, s')" by simp
    from Cons.IH[OF i1 this] show ?thesis .
  qed
qed

lemma rebalance_inv:
  fixes s :: "'w Sys"
  assumes ok: "ledger_ok env opened" and inv: "cache_inv opened before s"
    and run: "executeRebalance env d lo hi s = (r, s')"
  shows "cache_inv opened before s'"
proof -
  obtain r1 w1 where d1: "getDepositInfo env (world s) d = (r1, w1)"
    by (cases "getDepositInfo env (world s) d")
  have i1: "cache_inv opened before (s\<lparr>world := w1\<rparr>)"
    using cache_inv_world[OF inv ok_deposit[OF ok d1]] .
  show ?thesis
  proof (cases r1)
    case (Inl e)
    with run d1 i1 show ?thesis by (auto simp: executeRebalance_def)
  next
    case (Inr deposit)
    obtain r2 s2 where cl: "closeLoop env d (positionTokenIds deposit) [] (s\<lparr>world := w1\<rparr>) = (r2, s2)"
      by (cases "closeLoop env d (positionTokenIds deposit) [] (s\<lparr>world := w1\<rparr>)")
    from closeLoop_inv[OF ok i1 cl] have i2: "cache_inv opened before s2" .
    show ?thesis
    proof (cases r2)
      case (Inl e)
      with run d1 Inr cl i2 show ?thesis by (auto simp: executeRebalance_def)
    next
      case closes: (Inr closes)
      obtain r3 w3 where d3: "getDepositInfo env (world s2) d = (r3, w3)"
        by (cases "getDepositInfo env (world s2) d")
      have i3: "cache_inv opened before (s2\<lparr>world := w3\<rparr>)"
        using cache_inv_world[OF i2 ok_deposit[OF ok d3]] .
      show ?thesis
      proof (cases r3)
        case (Inl e)
        with run d1 Inr cl closes d3 i3 show ?thesis by (auto simp: executeRebalance_def)
      next
        case dep2: (Inr deposit2)
        show ?thesis
        proof (cases "amount0Remaining deposit2 = 0 \<and> amount1Remaining deposit2 = 0")
          case True
          with run d1 Inr cl closes d3 dep2 i3 show ?thesis by (auto simp: executeRebalance_def)
        next
          case False
          obtain r4 s4 where m: "executeMintPosition env d lo hi
                        (amount0Remaining deposit2) (amount1Remaining deposit2)
                        (s2\<lparr>world := w3\<rparr>) = (r4, s4)"
            by (cases "executeMintPosition env d lo hi
                        (amount0Remaining deposit2) (amount1Remaining deposit2)
                        (s2\<lparr>world := w3\<rparr>)")
          from mint_inv[OF ok i3 m] have i4: "cache_inv opened before s4" .
          have "s' = s4" using run d1 Inr cl closes d3 dep2 False m
            by (auto simp: executeRebalance_def Let_def split: sum.splits)
          with i4 show ?thesis by simp
        qed
      qed
    qed
  qed
qed

lemma decision_inv:
  fixes s :: "'w Sys"
  assumes ok: "ledger_ok env opened" and inv: "cache_inv opened before s"
    and run: "executeDecision env d dec s = (r, s')"
  shows "cache_inv opened before s'"
proof -
  let ?s = "s\<lparr>trace := trace s @ [ExecuteDecision d dec]\<rparr>"
  have i0: "cache_inv opened before ?s" using inv by (simp add: cache_inv_def)
  obtain r1 w1 where d1: "getDepositInfo env (world ?s) d = (r1, w1)"
    by (cases "getDepositInfo env (world ?s) d")
  have i1: "cache_inv opened before (?s\<lparr>world := w1\<rparr>)"
    using cache_inv_world[OF i0 ok_deposit[OF ok d1]] .
  show ?thesis
  proof (cases r1)
    case (Inl e)
    with run d1 i1 show ?thesis by (auto simp: executeDecision_def Let_def)
  next
    case (Inr deposit)
    have pres: "\<And>r2 s2. executeMintPosition env d (the (tickLower dec)) (the (tickUpper dec))
                  (amount0Remaining deposit) (amount1Remaining deposit) (?s\<lparr>world := w1\<rparr>) = (r2, s2)
                \<Longrightarrow> cache_inv opened before s2"
      using mint_inv[OF ok i1] by blast
    have pres2: "\<And>r2 s2. closeLoop env d (positionTokenIds deposit) [] (?s\<lparr>world := w1\<rparr>) = (r2, s2)
                \<Longrightarrow> cache_inv opened before s2"
      using closeLoop_inv[OF ok i1] by blast
    have pres3: "\<And>r2 s2. executeRebalance env d (the (tickLower dec)) (the (tickUpper dec))
                  (?s\<lparr>world := w1\<rparr>) = (r2, s2)
                \<Longrightarrow> cache_inv opened before s2"
      using rebalance_inv[OF ok i1] by blast
    from run d1 Inr i1 pres pres2 pres3 show ?thesis
      by (auto simp: executeDecision_def Let_def split: if_splits prod.splits sum.splits option.splits)
  qed
qed

lemma ok_position: "ledger_ok env opened \<Longrightarrow> getPositionInfo env w t = (r, w') \<Longrightarrow> opened w' = opened w"
  unfolding ledger_ok_def by metis
lemma ok_llm: "ledger_ok env opened \<Longrightarrow> llm env w a st ps = (r, w') \<Longrightarrow> opened w' = opened w"
  unfolding ledger_ok_def by metis
lemma ok_request: "ledger_ok env opened \<Longrightarrow> validationRequest env w v a h = (r, w') \<Longrightarrow> opened w' = opened w"
  unfolding ledger_ok_def by metis
lemma ok_response: "ledger_ok env opened \<Longrightarrow> validationResponse env w h sc = (r, w') \<Longrightarrow> opened w' = opened w"
  unfolding ledger_ok_def by metis

lemma cache_inv_same:
  "cache_inv opened before s \<Longrightarrow> positionTickCache s' = positionTickCache s \<Longrightarrow>
   opened (world s') = opened (world s) \<Longrightarrow> cache_inv opened before s'"
  by (simp add: cache_inv_def)

lemma readPositions_same:
  fixes s :: "'w Sys"
  assumes ok: "ledger_ok env opened"
  shows "readPositions env ids acc s = (r, s1) \<Longrightarrow>
         positionTickCache s1 = positionTickCache s \<and> opened (world s1) = opened (world s)"
proof (induction ids arbitrary: acc s)
  case Nil
  then show ?case by simp
next
  case (Cons t rest)
  obtain r1 w1 where g: "getPositionInfo env (world s) t = (r1, w1)"
    by (cases "getPositionInfo env (world s) t")
  note o = ok_position[OF ok g]
  show ?case
  proof (cases r1)
    case (Inl e)
    with Cons.prems g have "s1 = s\<lparr>world := w1\<rparr>" by simp
    with o show ?thesis by simp
  next
    case (Inr pos)
    with Cons.prems g obtain acc' where
      "readPositions env rest acc' (s\<lparr>world := w1\<rparr>) = (r, s1)"
      by (simp add: Let_def)
    from Cons.IH[OF this] o show ?thesis by simp
  qed
qed

lemma prepareDeposit_same:
  fixes s :: "'w Sys"
  assumes ok: "ledger_ok env opened" and run: "prepareDeposit env d s = (r, s1)"
  shows "positionTickCache s1 = positionTickCache s \<and> opened (world s1) = opened (world s)"
proof (cases "agentInfo s")
  case None
  with run have "s1 = s" by (simp add: prepareDeposit_def)
  then show ?thesis by simp
next
  case (Some info)
  obtain r1 w1 where g: "getDepositInfo env (world s) d = (r1, w1)"
    by (cases "getDepositInfo env (world s) d")
  note o1 = ok_deposit[OF ok g]
  show ?thesis
  proof (cases r1)
    case (Inl e)
    with run Some g have "s1 = s\<lparr>world := w1\<rparr>" by (simp add: prepareDeposit_def)
    with o1 show ?thesis by simp
  next
    case (Inr deposit)
    obtain r2 s2 where rp: "readPositions env (positionTokenIds deposit) [] (s\<lparr>world := w1\<rparr>) = (r2, s2)"
      by (cases "readPositions env (positionTokenIds deposit) [] (s\<lparr>world := w1\<rparr>)")
    from readPositions_same[OF ok rp] o1
    have s2: "positionTickCache s2 = positionTickCache s" "opened (world s2) = opened (world s)"
      by simp_all
    obtain r3 w3 where p: "getPoolState env (world s2) = (r3, w3)"
      by (cases "getPoolState env (world s2)")
    note o3 = ok_pool[OF ok p]
    have "s1 = s\<lparr>world := w1\<rparr> \<or> s1 = s2 \<or> s1 = s2\<lparr>world := w3\<rparr>"
    proof (cases "toLowerCase (assignedAgent deposit) \<noteq> toLowerCase (agentWalletAddress env)
                  \<or> status deposit \<noteq> 0")
      case True
      with run Some g Inr have "s1 = s\<lparr>world := w1\<rparr>"
        by (simp add: prepareDeposit_def Let_def split: if_splits)
      then show ?thesis by simp
    next
      case False
      show ?thesis
      proof (cases r2)
        case (Inl e)
        with run Some g Inr rp False have "s1 = s2"
          by (simp add: prepareDeposit_def Let_def)
        then show ?thesis by simp
      next
        case ps: (Inr ps)
        have "s1 = s2\<lparr>world := w3\<rparr>"
          using run Some g Inr rp False ps p
          by (cases r3) (simp_all add: prepareDeposit_def Let_def split: if_splits)
        then show ?thesis by simp
      qed
    qed
    then show ?thesis
    proof (elim disjE)
      assume "s1 = s\<lparr>world := w1\<rparr>"
      with o1 show ?thesis by simp
    next
      assume "s1 = s2"
      with s2 show ?thesis by simp
    next
      assume "s1 = s2\<lparr>world := w3\<rparr>"
      with s2 o3 show ?thesis by simp
    qed
  qed
qed

lemma analyzePoolWithGemini_opened:
  assumes ok: "ledger_ok env opened"
    and run: "analyzePoolWithGemini env a st ps w = (dec, w')"
  shows "opened w' = opened w"
proof -
  obtain r1 w1 where l: "llm env w a st ps = (r1, w1)" by (cases "llm env w a st ps")
  from run l have "w' = w1" by (auto simp: analyzePoolWithGemini_def split: sum.splits)
  with ok_llm[OF ok l] show ?thesis by simp
qed

lemma analyzePool_opened:
  assumes ok: "ledger_ok env opened" and run: "analyzePool env a st ps w = (dec, w')"
  shows "opened w' = opened w"
proof -
  obtain d1 w1 where g: "analyzePoolWithGemini env a st ps w = (d1, w1)"
    by (cases "analyzePoolWithGemini env a st ps w")
  from run g have "w' = w1" by (auto simp: analyzePool_def split: if_splits)
  with analyzePoolWithGemini_opened[OF ok g] show ?thesis by simp
qed

lemma requestValidation_same:
  fixes s :: "'w Sys"
  assumes ok: "ledger_ok env opened" and run: "requestValidation env v a dd s = (r, s')"
  shows "positionTickCache s' = positionTickCache s \<and> opened (world s') = opened (world s)"
proof -
  obtain r1 w1 where q: "validationRequest env (world s) v a (keccak256 env dd) = (r1, w1)"
    by (cases "validationRequest env (world s) v a (keccak256 env dd)")
  from run q have "positionTickCache s' = positionTickCache s \<and> world s' = w1"
    by (cases r1) (auto simp: requestValidation_def Let_def)
  with ok_request[OF ok q] show ?thesis by simp
qed

lemma submitValidationResponse_same:
  fixes s :: "'w Sys"
  assumes ok: "ledger_ok env opened" and run: "submitValidationResponse env h sc s = (r, s')"
  shows "positionTickCache s' = positionTickCache s \<and> opened (world s') = opened (world s)"
proof -
  obtain r1 w1 where q: "validationResponse env (world s) h sc = (r1, w1)"
    by (cases "validationResponse env (world s) h sc")
  from run q have "positionTickCache s' = positionTickCache s \<and> world s' = w1"
    by (cases r1) (auto simp: submitValidationResponse_def Let_def)
  with ok_response[OF ok q] show ?thesis by simp
qed

lemma validateAndExecute_inv:
  fixes s :: "'w Sys"
  assumes ok: "ledger_ok env opened" and inv: "cache_inv opened before s"
    and run: "validateAndExecute env info d dec s = (r, s')"
  shows "cache_inv opened before s'"
proof -
  define pre where "pre = (if action dec \<noteq> HOLD then
               (case requestValidation env (agentId info) (agentId info)
                       (d, dec, nowMs env (world s)) s of
                  (Inl e, s1) \<Rightarrow> (None, s1)
                | (Inr h, s1) \<Rightarrow> (Some h, s1))
             else (None, s))"
  obtain h s1 where pre: "pre = (h, s1)" by (cases pre)
  have i1: "cache_inv opened before s1"
  proof (cases "action dec \<noteq> HOLD")
    case False
    with pre have "s1 = s" by (simp add: pre_def)
    with inv show ?thesis by simp
  next
    case True
    obtain rq sq where q: "requestValidation env (agentId info) (agentId info)
                       (d, dec, nowMs env (world s)) s = (rq, sq)"
      by (cases "requestValidation env (agentId info) (agentId info)
                       (d, dec, nowMs env (world s)) s")
    with pre True have "s1 = sq" by (auto simp: pre_def split: sum.splits)
    with requestValidation_same[OF ok q] inv show ?thesis
      by (auto intro: cache_inv_same)
  qed
  obtain r2 s2 where e: "executeDecision env d dec s1 = (r2, s2)"
    by (cases "executeDecision env d dec s1")
  from decision_inv[OF ok i1 e] have i2: "cache_inv opened before s2" .
  have sub: "cache_inv opened before (snd (submitValidationResponse env hv sc s2))" for hv sc
    using submitValidationResponse_same[OF ok, of hv sc s2
        "fst (submitValidationResponse env hv sc s2)" "snd (submitValidationResponse env hv sc s2)"]
      i2 by (auto intro: cache_inv_same)
  have "s' = s2 \<or> (\<exists>hv sc. s' = snd (submitValidationResponse env hv sc s2))"
    using run pre e
    by (auto simp: validateAndExecute_def pre_def[symmetric] Let_def
        split: sum.splits option.splits if_splits)
  with i2 sub show ?thesis by auto
qed

lemma processDeposit_inv:
  fixes s :: "'w Sys"
  assumes ok: "ledger_ok env opened" and inv: "cache_inv opened before s"
    and run: "processDeposit env d s = (r, s')"
  shows "cache_inv opened before s'"
proof -
  obtain rp s1 where prep: "prepareDeposit env d s = (rp, s1)"
    by (cases "prepareDeposit env d s")
  from prepareDeposit_same[OF ok prep] inv have i1: "cache_inv opened before s1"
    by (auto intro: cache_inv_same)
  show ?thesis
  proof (cases "\<exists>info strat analysis ps. rp = Inr (Ready info (Some strat) analysis ps)")
    case False
    then have "s' = s1" using run prep
      by (auto simp: processDeposit_def split: sum.splits Prepared.splits option.splits)
    with i1 show ?thesis by simp
  next
    case True
    then obtain info strat analysis ps where rp: "rp = Inr (Ready info (Some strat) analysis ps)"
      by blast
    obtain dec w2 where a: "analyzePoolWithGemini env analysis strat ps (world s1) = (dec, w2)"
      by (cases "analyzePoolWithGemini env analysis strat ps (world s1)")
    have i2: "cache_inv opened before (s1\<lparr>world := w2\<rparr>)"
      using cache_inv_world[OF i1 analyzePoolWithGemini_opened[OF ok a]] .
    show ?thesis
    proof (cases "confidence dec < 60")
      case True
      then have "s' = s1\<lparr>world := w2\<rparr>" using run prep rp a by (simp add: processDeposit_def)
      with i2 show ?thesis by simp
    next
      case False
      obtain r3 s3 where v: "validateAndExecute env info d dec (s1\<lparr>world := w2\<rparr>) = (r3, s3)"
        by (cases "validateAndExecute env info d dec (s1\<lparr>world := w2\<rparr>)")
      have "s' = s3" using run prep rp a False v
        by (auto simp: processDeposit_def split: sum.splits)
      with validateAndExecute_inv[OF ok i2 v] show ?thesis by simp
    qed
  qed
qed

lemma processDeposit_direct_inv:
  fixes s :: "'w Sys"
  assumes ok: "ledger_ok env opened" and inv: "cache_inv opened before s"
    and run: "processDeposit_direct env d s = (r, s')"
  shows "cache_inv opened before s'"
proof -
  obtain rp s1 where prep: "prepareDeposit env d s = (rp, s1)"
    by (cases "prepareDeposit env d s")
  from prepareDeposit_same[OF ok prep] inv have i1: "cache_inv opened before s1"
    by (auto intro: cache_inv_same)
  show ?thesis
  proof (cases "\<exists>info strat analysis ps. rp = Inr (Ready info (Some strat) analysis ps)")
    case False
    then have "s' = s1" using run prep
      by (auto simp: processDeposit_direct_def split: sum.splits Prepared.splits option.splits)
    with i1 show ?thesis by simp
  next
    case True
    then obtain info strat analysis ps where rp: "rp = Inr (Ready info (Some strat) analysis ps)"
      by blast
    obtain dec w2 where a: "analyzePool env analysis strat ps (world s1) = (dec, w2)"
      by (cases "analyzePool env analysis strat ps (world s1)")
    have i2: "cache_inv opened before (s1\<lparr>world := w2\<rparr>)"
      using cache_inv_world[OF i1 analyzePool_opened[OF ok a]] .
    obtain r3 s3 where v: "validateAndExecute env info d dec (s1\<lparr>world := w2\<rparr>) = (r3, s3)"
      by (cases "validateAndExecute env info d dec (s1\<lparr>world := w2\<rparr>)")
    have "s' = s3" using run prep rp a v
      by (auto simp: processDeposit_direct_def split: sum.splits)
    with validateAndExecute_inv[OF ok i2 v] show ?thesis by simp
  qed
qed

lemma ok_pending: "ledger_ok env opened \<Longrightarrow> isValidationPending env w h = (r, w') \<Longrightarrow> opened w' = opened w"
  unfolding ledger_ok_def by metis
lemma ok_getresponse: "ledger_ok env opened \<Longrightarrow> getValidationResponse env w h = (r, w') \<Longrightarrow> opened w' = opened w"
  unfolding ledger_ok_def by metis
lemma ok_events: "ledger_ok env opened \<Longrightarrow> queryValidationEvents env w a = (r, w') \<Longrightarrow> opened w' = opened w"
  unfolding ledger_ok_def by metis
lemma ok_agent: "ledger_ok env opened \<Longrightarrow> getAgent env w a = (r, w') \<Longrightarrow> opened w' = opened w"
  unfolding ledger_ok_def by metis
lemma ok_count: "ledger_ok env opened \<Longrightarrow> getAgentCount env w = (r, w') \<Longrightarrow> opened w' = opened w"
  unfolding ledger_ok_def by metis
lemma ok_feedback: "ledger_ok env opened \<Longrightarrow> isFeedbackAuthorized env w i a = (r, w') \<Longrightarrow> opened w' = opened w"
  unfolding ledger_ok_def by metis

lemma getValidationStatus_same:
  fixes s :: "'w Sys"
  assumes ok: "ledger_ok env opened" and run: "getValidationStatus env h s = (r, s')"
  shows "positionTickCache s' = positionTickCache s \<and> opened (world s') = opened (world s)"
proof (cases "find (\<lambda>r. dataHash r = h) (validationStore s)")
  case (Some found)
  with run have "s' = s" by (simp add: getValidationStatus_def split: if_splits)
  then show ?thesis by simp
next
  case None
  obtain r1 w1 where p: "isValidationPending env (world s) h = (r1, w1)"
    by (cases "isValidationPending env (world s) h")
  note o1 = ok_pending[OF ok p]
  obtain r2 w2 where g: "getValidationResponse env w1 h = (r2, w2)"
    by (cases "getValidationResponse env w1 h")
  note o2 = ok_getresponse[OF ok g]
  from run None p g have "s' = s\<lparr>world := w1\<rparr> \<or> s' = s\<lparr>world := w2\<rparr>"
    by (auto simp: getValidationStatus_def split: if_splits sum.splits prod.splits)
  then show ?thesis
  proof
    assume "s' = s\<lparr>world := w1\<rparr>"
    with o1 show ?thesis by simp
  next
    assume "s' = s\<lparr>world := w2\<rparr>"
    with o1 o2 show ?thesis by simp
  qed
qed

lemma feedbackLoop_opened:
  assumes ok: "ledger_ok env opened"
  shows "feedbackLoop env agent ids acc w = (r, w') \<Longrightarrow> opened w' = opened w"
proof (induction ids arbitrary: acc w)
  case Nil
  then show ?case by simp
next
  case (Cons i rest)
  show ?case
  proof (cases "i = agent")
    case True
    with Cons.prems have "feedbackLoop env agent rest acc w = (r, w')" by simp
    from Cons.IH[OF this] show ?thesis .
  next
    case False
    obtain r1 w1 where f: "isFeedbackAuthorized env w i agent = (r1, w1)"
      by (cases "isFeedbackAuthorized env w i agent")
    note o = ok_feedback[OF ok f]
    from Cons.prems False f obtain acc' where
      "feedbackLoop env agent rest acc' w1 = (r, w')"
      by (cases r1) (auto split: prod.splits)
    from Cons.IH[OF this] o show ?thesis by simp
  qed
qed

lemma getAgentReputation_same:
  fixes s :: "'w Sys"
  assumes ok: "ledger_ok env opened" and run: "getAgentReputation env agent s = (r, s')"
  shows "positionTickCache s' = positionTickCache s \<and> opened (world s') = opened (world s)"
proof -
  obtain r1 w1 where a: "getAgent env (world s) agent = (r1, w1)"
    by (cases "getAgent env (world s) agent")
  note o1 = ok_agent[OF ok a]
  show ?thesis
  proof (cases r1)
    case (Inl e)
    with run a have "s' = s\<lparr>world := w1\<rparr>" by (simp add: getAgentReputation_def)
    with o1 show ?thesis by simp
  next
    case info: (Inr info)
    obtain r2 w2 where c: "getAgentCount env w1 = (r2, w2)"
      by (cases "getAgentCount env w1")
    note o2 = ok_count[OF ok c]
    show ?thesis
    proof (cases r2)
      case (Inl e)
      with run a info c have "s' = s\<lparr>world := w2\<rparr>" by (simp add: getAgentReputation_def)
      with o1 o2 show ?thesis by simp
    next
      case (Inr totalAgents)
      obtain r3 w3 where q: "queryValidationEvents env w2 agent = (r3, w3)"
        by (cases "queryValidationEvents env w2 agent")
      note o3 = ok_events[OF ok q]
      obtain auths w4 where f: "feedbackLoop env agent [1..<Suc totalAgents] [] w3 = (auths, w4)"
        by (cases "feedbackLoop env agent [1..<Suc totalAgents] [] w3")
      note o4 = feedbackLoop_opened[OF ok f]
      from run a info c Inr q f
      have "positionTickCache s' = positionTickCache s \<and> world s' = w4"
        by (cases r3) (auto simp: getAgentReputation_def Let_def split: prod.splits)
      with o1 o2 o3 o4 show ?thesis by simp
    qed
  qed
qed

lemma reachable_inv:
  fixes s0 :: "'w Sys"
  assumes ok: "ledger_ok env opened" and inv: "cache_inv opened before s0"
    and re: "reachable env s0 s"
  shows "cache_inv opened before s"
  using re
proof (induction rule: reachable.induct)
  case start
  then show ?case using inv .
next
  case (mint s d lo hi a0 a1 r s')
  then show ?case using mint_inv[OF ok] by blast
next
  case (close s d t rc s')
  then show ?case using close_inv[OF ok] by blast
next
  case (rebalance s d lo hi rr s')
  then show ?case using rebalance_inv[OF ok] by blast
next
  case (decision s d dec re s')
  then show ?case using decision_inv[OF ok] by blast
next
  case (process s d ru s')
  then show ?case using processDeposit_inv[OF ok] by blast
next
  case (process_direct s d rp s')
  then show ?case using processDeposit_direct_inv[OF ok] by blast
next
  case (read_pool s rs w')
  from ok_pool[OF ok read_pool(2)] read_pool(3) show ?case by (simp add: cache_inv_def)
next
  case (read_deposit s d rd w')
  from ok_deposit[OF ok read_deposit(2)] read_deposit(3) show ?case by (simp add: cache_inv_def)
next
  case (read_position s t ri w')
  from ok_position[OF ok read_position(2)] read_position(3) show ?case
    by (simp add: cache_inv_def)
next
  case (analyze s a st ps dec w')
  from analyzePool_opened[OF ok analyze(2)] analyze(3) show ?case by (simp add: cache_inv_def)
next
  case (analyze_gemini s a st ps dec w')
  from analyzePoolWithGemini_opened[OF ok analyze_gemini(2)] analyze_gemini(3) show ?case
    by (simp add: cache_inv_def)
next
  case (request s v ag dd rq s')
  from requestValidation_same[OF ok request(2)] request(3) show ?case
    by (simp add: cache_inv_def)
next
  case (respond s h sc rv s')
  from submitValidationResponse_same[OF ok respond(2)] respond(3) show ?case
    by (simp add: cache_inv_def)
next
  case (status s h rt s')
  from getValidationStatus_same[OF ok status(2)] status(3) show ?case
    by (simp add: cache_inv_def)
next
  case (reputation s ag rn s')
  from getAgentReputation_same[OF ok reputation(2)] reputation(3) show ?case
    by (simp add: cache_inv_def)
qed

lemma mint_cache_step:
  fixes s :: "'w Sys"
  assumes run: "executeMintPosition env d lo hi a0 a1 s = (r, s')"
  shows "positionTickCache s' =
           (case r of
              Inr (Some m) \<Rightarrow> (case mr_tokenId m of
                                 Some t \<Rightarrow> (positionTickCache s)(t \<mapsto> (lo, hi))
                               | None \<Rightarrow> positionTickCache s)
            | Inr None \<Rightarrow> positionTickCache s
            | Inl e \<Rightarrow> positionTickCache s)"
  using run by (cases rule: mint_cases) (auto split: sum.splits option.splits)

lemma close_cache_step:
  fixes s :: "'w Sys"
  assumes run: "executeClosePosition env d t s = (r, s')"
  shows "positionTickCache s' =
           (case r of Inr c \<Rightarrow> (positionTickCache s)(t := None) | Inl e \<Rightarrow> positionTickCache s)"
  using run by (cases rule: close_cases) auto

text \<open>
  Claim C5, as amended.  The cache lives in the memory of the process and starts empty,
  so a position that was open before the process started has no entry; per-deposit
  processing expects that and falls back to the bounds the ledger reports.  What holds:
  \<open>executeMintPosition\<close> adds an entry exactly when the mint confirms with a creation
  record, under the token id of that record, and none when the confirmation carries no
  such record; \<open>executeClosePosition\<close> removes the entry of its token id exactly when
  the close confirms.  Assume of the ledger (\<open>ledger_ok\<close>) that every confirmed mint
  carries a creation record and opens exactly the position that record names, that a
  confirmed close closes exactly the position it was asked to close, and that nothing
  else changes the open positions: no failed transaction, no read, no call of the
  advisory backend or of the registries, and no other party while the process runs.
  Then at every state the process reaches from an empty cache (by the coordinator,
  per-deposit processing, the analysis, the validation and reputation tracker and the
  reads in between) every cached id is open, every open id is cached or was open at the
  start, and so for an id that was not open at the start an entry exists if and only if
  the position is open.
\<close>

theorem cache_tracks_open_positions:
  fixes env :: "'w Env" and s0 s :: "'w Sys"
  assumes ok: "ledger_ok env opened"
    and empty: "positionTickCache s0 = Map.empty"
    and re: "reachable env s0 s"
  shows "dom (positionTickCache s) \<subseteq> opened (world s)
       \<and> opened (world s) \<subseteq> dom (positionTickCache s) \<union> opened (world s0)
       \<and> (\<forall>t. t \<notin> opened (world s0) \<longrightarrow>
             (t \<in> dom (positionTickCache s) \<longleftrightarrow> t \<in> opened (world s)))
       \<and> (\<forall>d lo hi a0 a1 r s'. executeMintPosition env d lo hi a0 a1 s = (r, s') \<longrightarrow>
             positionTickCache s' =
               (case r of
                  Inr (Some m) \<Rightarrow> (case mr_tokenId m of
                                     Some t \<Rightarrow> (positionTickCache s)(t \<mapsto> (lo, hi))
                                   | None \<Rightarrow> positionTickCache s)
                | Inr None \<Rightarrow> positionTickCache s
                | Inl e \<Rightarrow> positionTickCache s))
       \<and> (\<forall>d t r s'. executeClosePosition env d t s = (r, s') \<longrightarrow>
             positionTickCache s' =
               (case r of Inr c \<Rightarrow> (positionTickCache s)(t := None)
                | Inl e \<Rightarrow> positionTickCache s))"
proof -
  have "cache_inv opened (opened (world s0)) s0"
    using empty by (simp add: cache_inv_def)
  from reachable_inv[OF ok this re]
  have inv: "dom (positionTickCache s) \<subseteq> opened (world s)"
    "opened (world s) \<subseteq> dom (positionTickCache s) \<union> opened (world s0)"
    by (simp_all add: cache_inv_def)
  then have iff: "\<forall>t. t \<notin> opened (world s0) \<longrightarrow>
             (t \<in> dom (positionTickCache s) \<longleftrightarrow> t \<in> opened (world s))"
    by blast
  from inv iff mint_cache_step close_cache_step show ?thesis by blast
qed

lemma ledger_ok_ledger: "ledger_ok ledger listed"
  unfolding ledger_ok_def
  by (auto simp: ledger_def listed_def split: if_splits)

theorem cache_tracks_open_positions_witness:
  "ledger_ok ledger listed
   \<and> positionTickCache (sys0 world0) = Map.empty
   \<and> reachable ledger (sys0 world0)
       (snd (executeMintPosition ledger 1 (-202200) (-201000) 1000000 1000000 (sys0 world0)))
   \<and> listed (world (snd (executeMintPosition ledger 1 (-202200) (-201000) 1000000 1000000
                            (sys0 world0)))) = {8}
   \<and> dom (positionTickCache (snd (executeMintPosition ledger 1 (-202200) (-201000) 1000000
                                     1000000 (sys0 world0)))) = {8}"
proof -
  let ?s1 = "snd (executeMintPosition ledger 1 (-202200) (-201000) 1000000 1000000 (sys0 world0))"
  have e: "positionTickCache (sys0 world0) = Map.empty" by (simp add: sys0_def)
  have r: "reachable ledger (sys0 world0) ?s1"
    by (rule reachable.mint[OF reachable.start, of ledger 1 "-202200" "-201000" 1000000 1000000
          "sys0 world0" "fst (executeMintPosition ledger 1 (-202200) (-201000) 1000000 1000000 (sys0 world0))"])
       simp
  have l: "listed (world ?s1) = {8}" by code_simp
  have l0: "listed (world (sys0 world0)) = {}" by code_simp
  from cache_tracks_open_positions[OF ledger_ok_ledger e r] l l0
  have "dom (positionTickCache ?s1) = {8}" by auto
  with ledger_ok_ledger e r l show ?thesis by blast
qed

text \<open>The condition on the creation record is needed: when a mint confirms without one,
  the position it opened has no entry, although nothing was open at the start.\<close>

lemma mint_without_record_uncached:
  "listed (world (sys0 world0)) = {}
   \<and> 8 \<in> listed (world (snd (executeMintPosition ledgerNoRecord 1 (-202200) (-201000)
                                  1000000 1000000 (sys0 world0))))
   \<and> positionTickCache (snd (executeMintPosition ledgerNoRecord 1 (-202200) (-201000)
                               1000000 1000000 (sys0 world0))) 8 = None
   \<and> \<not> ledger_ok ledgerNoRecord listed"
proof -
  have a: "listed (world (sys0 world0)) = {}" by code_simp
  have b: "8 \<in> listed (world (snd (executeMintPosition ledgerNoRecord 1 (-202200) (-201000)
                                  1000000 1000000 (sys0 world0))))" by code_simp
  have c: "positionTickCache (snd (executeMintPosition ledgerNoRecord 1 (-202200) (-201000)
                               1000000 1000000 (sys0 world0))) 8 = None" by code_simp
  have "agentMintPosition ledgerNoRecord world0 1 0 0 0 0 0 0
          = (Inr \<lparr>hash = ''0xmint'', logs = [OtherLog]\<rparr>,
             snd (agentMintPosition ledgerNoRecord world0 1 0 0 0 0 0 0))"
    by (simp add: ledgerNoRecord_def ledger_def)
  moreover have "findPositionCreated (logs \<lparr>hash = ''0xmint'', logs = [OtherLog]\<rparr>) = None"
    by simp
  ultimately have d: "\<not> ledger_ok ledgerNoRecord listed"
    unfolding ledger_ok_def by (metis option.distinct(1))
  from a b c d show ?thesis by (intro conjI)
qed

text \<open>
  Claim C5 as stated fails: starting with positions 5 and 7 open and an empty cache, after
  one confirmed mint position 5 is still open and has no cache entry, while the new
  position 8 has one.
\<close>

theorem cache_iff_open_counterexample:
  "5 \<in> listed (world (snd (executeMintPosition ledger 1 (-202200) (-201000) 1000000 1000000
                             (sys0 worldE))))
   \<and> positionTickCache (snd (executeMintPosition ledger 1 (-202200) (-201000) 1000000 1000000
                               (sys0 worldE))) 5 = None
   \<and> positionTickCache (snd (executeMintPosition ledger 1 (-202200) (-201000) 1000000 1000000
                               (sys0 worldE))) 8 = Some (-202200, -201000)"
  by code_simp

section \<open>Properties of the event poller\<close>

lemma poll_height_failed:
  "getBlockNumber env (l_world l) = (Inl e, w1) \<Longrightarrow>
   poll env l = l\<lparr>l_world := w1, errorsLogged := errorsLogged l @ [e]\<rparr>"
  by (simp add: poll_def)

lemma poll_nothing_new:
  "getBlockNumber env (l_world l) = (Inr cur, w1) \<Longrightarrow>
   wm = (if lastBlock l = 0 then max 0 (cur - 100) else lastBlock l) \<Longrightarrow> cur \<le> wm \<Longrightarrow>
   poll env l = l\<lparr>l_world := w1, lastBlock := wm\<rparr>"
  by (simp add: poll_def Let_def)

lemma poll_deposit_query_failed:
  "getBlockNumber env (l_world l) = (Inr cur, w1) \<Longrightarrow>
   wm = (if lastBlock l = 0 then max 0 (cur - 100) else lastBlock l) \<Longrightarrow> wm < cur \<Longrightarrow>
   queryDepositCreated env w1 (wm + 1) cur = (Inl e, w2) \<Longrightarrow>
   poll env l = l\<lparr>l_world := w2, lastBlock := wm, errorsLogged := errorsLogged l @ [e]\<rparr>"
  by (simp add: poll_def Let_def)

lemma poll_assign_query_failed:
  "getBlockNumber env (l_world l) = (Inr cur, w1) \<Longrightarrow>
   wm = (if lastBlock l = 0 then max 0 (cur - 100) else lastBlock l) \<Longrightarrow> wm < cur \<Longrightarrow>
   queryDepositCreated env w1 (wm + 1) cur = (Inr dl, w2) \<Longrightarrow>
   queryAgentAssigned env w2 (wm + 1) cur = (Inl e, w3) \<Longrightarrow>
   poll env l = l\<lparr>l_world := w3, lastBlock := wm,
                   recentDeposits := depositLoop env w2 dl (recentDeposits l),
                   errorsLogged := errorsLogged l @ [e]\<rparr>"
  by (simp add: poll_def Let_def)

lemma poll_advances:
  "getBlockNumber env (l_world l) = (Inr cur, w1) \<Longrightarrow>
   wm = (if lastBlock l = 0 then max 0 (cur - 100) else lastBlock l) \<Longrightarrow> wm < cur \<Longrightarrow>
   queryDepositCreated env w1 (wm + 1) cur = (Inr dl, w2) \<Longrightarrow>
   queryAgentAssigned env w2 (wm + 1) cur = (Inr al, w3) \<Longrightarrow>
   poll env l = l\<lparr>l_world := w3, lastBlock := cur,
                   recentDeposits := depositLoop env w2 dl (recentDeposits l),
                   immediate := assignLoop env al (immediate l)\<rparr>"
  by (simp add: poll_def Let_def)

text \<open>
  Claim C6, as amended.  A step of the poller never raises.  When reading the height
  fails, the error is logged and nothing else changes.  Otherwise the watermark is first
  set to \<open>max 0 (height - 100)\<close> if it was 0 (the first run).  If the height is not above
  the watermark the step does nothing more.  Otherwise the deposit-creation window
  \<open>(watermark + 1, height)\<close> is queried, then the agent-assignment window.  When both
  queries return, the watermark advances to the height; the deposits assigned to this
  agent are only handed to \<open>processDeposit\<close>, whose failures are caught on their own and
  cannot stop the advance.  When a query raises, the error is caught and logged and the
  watermark does not advance: it keeps its value, so the same window is queried again
  at the next tick.
\<close>

theorem poll_watermark:
  fixes env :: "'w Env" and l :: "'w Listener"
  shows
  "(\<forall>e w1. getBlockNumber env (l_world l) = (Inl e, w1) \<longrightarrow>
       poll env l = l\<lparr>l_world := w1, errorsLogged := errorsLogged l @ [e]\<rparr>)
   \<and> (\<forall>cur w1 wm. getBlockNumber env (l_world l) = (Inr cur, w1)
         \<and> wm = (if lastBlock l = 0 then max 0 (cur - 100) else lastBlock l) \<longrightarrow>
       (cur \<le> wm \<longrightarrow> poll env l = l\<lparr>l_world := w1, lastBlock := wm\<rparr>)
     \<and> (wm < cur \<longrightarrow>
          (\<forall>e w2. queryDepositCreated env w1 (wm + 1) cur = (Inl e, w2) \<longrightarrow>
             poll env l = l\<lparr>l_world := w2, lastBlock := wm,
                             errorsLogged := errorsLogged l @ [e]\<rparr>)
        \<and> (\<forall>dl w2 e w3. queryDepositCreated env w1 (wm + 1) cur = (Inr dl, w2)
              \<and> queryAgentAssigned env w2 (wm + 1) cur = (Inl e, w3) \<longrightarrow>
             poll env l = l\<lparr>l_world := w3, lastBlock := wm,
                             recentDeposits := depositLoop env w2 dl (recentDeposits l),
                             errorsLogged := errorsLogged l @ [e]\<rparr>)
        \<and> (\<forall>dl w2 al w3. queryDepositCreated env w1 (wm + 1) cur = (Inr dl, w2)
              \<and> queryAgentAssigned env w2 (wm + 1) cur = (Inr al, w3) \<longrightarrow>
             poll env l = l\<lparr>l_world := w3, lastBlock := cur,
                             recentDeposits := depositLoop env w2 dl (recentDeposits l),
                             immediate := assignLoop env al (immediate l)\<rparr>)))"
proof (intro conjI allI impI, goal_cases)
  case (1 e w1)
  then show ?case by (rule poll_height_failed)
next
  case (2 cur w1 wm)
  then show ?case using poll_nothing_new[of env l cur w1 wm] by simp
next
  case (3 cur w1 wm e w2)
  then show ?case using poll_deposit_query_failed[of env l cur w1 wm e w2] by simp
next
  case (4 cur w1 wm dl w2 e w3)
  then show ?case using poll_assign_query_failed[of env l cur w1 wm dl w2 e w3] by simp
next
  case (5 cur w1 wm dl w2 al w3)
  then show ?case using poll_advances[of env l cur w1 wm dl w2 al w3] by simp
qed

theorem poll_watermark_witness:
  "lastBlock (poll ledger (listener0 world0 500)) = 600
   \<and> poll ledger (listener0 world0 600) = listener0 world0 600
   \<and> lastBlock (poll ledger (listener0 worldDown 0)) = 500
   \<and> errorsLogged (poll ledger (listener0 worldDown 0)) = [CallError ''rpc'']"
proof -
  have hw: "w_height world0 = 600" "w_rpcDown world0 = False"
    "w_height worldDown = 600" "w_rpcDown worldDown = True"
    by (simp_all add: world0_def worldDown_def)
  have g1: "getBlockNumber ledger (l_world (listener0 world0 500)) = (Inr 600, world0)
            \<and> 500 = (if lastBlock (listener0 world0 500) = 0 then max 0 (600 - 100)
                      else lastBlock (listener0 world0 500))"
    by (simp add: ledger_def listener0_def hw)
  have q1: "queryDepositCreated ledger world0 (500 + 1) 600 = (Inr [], world0)
            \<and> queryAgentAssigned ledger world0 (500 + 1) 600 = (Inr [], world0)"
    by (simp add: ledger_def hw)
  have r1: "lastBlock (poll ledger (listener0 world0 500)) = 600"
  proof -
    have lt: "(500::int) < 600" by simp
    have "poll ledger (listener0 world0 500)
            = (listener0 world0 500)\<lparr>l_world := world0, lastBlock := 600,
                 recentDeposits := depositLoop ledger world0 [] (recentDeposits (listener0 world0 500)),
                 immediate := assignLoop ledger [] (immediate (listener0 world0 500))\<rparr>"
      by (rule poll_watermark[where env=ledger and l="listener0 world0 500", THEN conjunct2,
            THEN spec, THEN spec, THEN spec, THEN mp, OF g1, THEN conjunct2, THEN mp, OF lt,
            THEN conjunct2, THEN conjunct2, THEN spec, THEN spec, THEN spec, THEN spec,
            THEN mp, OF q1])
    then show ?thesis by simp
  qed
  have g2: "getBlockNumber ledger (l_world (listener0 world0 600)) = (Inr 600, world0)
            \<and> 600 = (if lastBlock (listener0 world0 600) = 0 then max 0 (600 - 100)
                      else lastBlock (listener0 world0 600))"
    by (simp add: ledger_def listener0_def hw)
  have r2: "poll ledger (listener0 world0 600) = listener0 world0 600"
  proof -
    have le: "(600::int) \<le> 600" by simp
    have "poll ledger (listener0 world0 600)
            = (listener0 world0 600)\<lparr>l_world := world0, lastBlock := 600\<rparr>"
      by (rule poll_watermark[where env=ledger and l="listener0 world0 600", THEN conjunct2,
            THEN spec, THEN spec, THEN spec, THEN mp, OF g2, THEN conjunct1, THEN mp, OF le])
    then show ?thesis by (simp add: listener0_def)
  qed
  have g3: "getBlockNumber ledger (l_world (listener0 worldDown 0)) = (Inr 600, worldDown)
            \<and> 500 = (if lastBlock (listener0 worldDown 0) = 0 then max 0 (600 - 100)
                      else lastBlock (listener0 worldDown 0))"
    by (simp add: ledger_def listener0_def hw)
  have q3: "queryDepositCreated ledger worldDown (500 + 1) 600 = (Inl (CallError ''rpc''), worldDown)"
    by (simp add: ledger_def hw)
  have r3: "lastBlock (poll ledger (listener0 worldDown 0)) = 500
            \<and> errorsLogged (poll ledger (listener0 worldDown 0)) = [CallError ''rpc'']"
  proof -
    have lt: "(500::int) < 600" by simp
    have "poll ledger (listener0 worldDown 0)
            = (listener0 worldDown 0)\<lparr>l_world := worldDown, lastBlock := 500,
                 errorsLogged := errorsLogged (listener0 worldDown 0) @ [CallError ''rpc'']\<rparr>"
      by (rule poll_watermark[where env=ledger and l="listener0 worldDown 0", THEN conjunct2,
            THEN spec, THEN spec, THEN spec, THEN mp, OF g3, THEN conjunct2, THEN mp, OF lt,
            THEN conjunct1, THEN spec, THEN spec, THEN mp, OF q3])
    then show ?thesis by (simp add: listener0_def)
  qed
  from r1 r2 r3 show ?thesis by simp
qed

text \<open>
  Claim C6 as stated fails: with the watermark at 500 and the height at 600, a failing
  deposit-creation query leaves the watermark at 500.
\<close>

theorem poll_watermark_counterexample:
  "getBlockNumber ledger (l_world (listener0 worldDown 500)) = (Inr 600, worldDown)
   \<and> lastBlock (poll ledger (listener0 worldDown 500)) = 500
   \<and> errorsLogged (poll ledger (listener0 worldDown 500)) = [CallError ''rpc'']"
  by code_simp

section \<open>Properties of the reputation score\<close>

lemma getAgentReputation_formula:
  fixes s :: "'w Sys"
  assumes "getAgentReputation env agent s = (Inr rep, s')"
  shows "\<exists>info w1 totalAgents w2.
           getAgent env (world s) agent = (Inr info, w1)
         \<and> getAgentCount env w1 = (Inr totalAgents, w2)
         \<and> totalValidations rep = length (filter (\<lambda>r. vr_agentId r = agent) (validationStore s'))
         \<and> totalFeedbackAuths rep = length (feedbackAuthorizations rep)
         \<and> reputationScore rep =
             reputationScoreOf (filter (\<lambda>r. vr_agentId r = agent) (validationStore s'))
               (totalFeedbackAuths rep) totalAgents"
  using assms
  by (auto simp: getAgentReputation_def Let_def split: prod.splits sum.splits)

lemma reputation_no_history:
  fixes s :: "'w Sys"
  assumes "getAgentReputation env agent s = (Inr rep, s')"
    and "totalValidations rep = 0" and "totalFeedbackAuths rep = 0"
  shows "reputationScore rep = 50"
  using assms
  by (auto simp: getAgentReputation_def Let_def reputationScoreOf_def split: prod.splits sum.splits)

lemma reputationScoreOf_formula:
  "reputationScoreOf records auths totalAgents =
     (let scores = List.map_filter score records;
          avgScore = (if scores = [] then 0
                      else round64 (of_int (sum_list scores) / of_nat (length scores)));
          responseRatePercent =
            (if records = [] then 0
             else round64 (round64 (of_nat (length (filter responded records))
                                      / of_nat (length records)) * 100));
          trustRatioPercent =
            round64 (round64 (of_nat auths / of_int (max (int totalAgents - 1) 1)) * 100)
      in if records = [] \<and> auths = 0 then 50
         else \<lfloor>round64 (round64 (round64 (avgScore * round64 (6 / 10))
                                    + round64 (responseRatePercent * round64 (2 / 10)))
                           + round64 (trustRatioPercent * round64 (2 / 10)))
               + 1 / 2\<rfloor>)"
  by (simp add: reputationScoreOf_def averageScoreOf_def responseRateOf_def trustRatioOf_def
      Math_round_def Let_def List.map_filter_def comp_def)

text \<open>The rounding shows in the score: for the scores 70 and 75, one record without an
  answer and one authorization among four agents the score is 63, where the weighted sum
  in exact arithmetic is 63.5 and rounds to 64.\<close>

lemma reputationScoreOf_rounding:
  "reputationScoreOf
     [\<lparr>dataHash = ''0xa'', vr_agentId = 1, validatorId = 2, score = Some 70, responded = True,
       timestamp = 0\<rparr>,
      \<lparr>dataHash = ''0xb'', vr_agentId = 1, validatorId = 2, score = Some 75, responded = True,
       timestamp = 0\<rparr>,
      \<lparr>dataHash = ''0xc'', vr_agentId = 1, validatorId = 2, score = None, responded = False,
       timestamp = 0\<rparr>] 1 4 = 63
   \<and> \<lfloor>6 / 10 * ((70 + 75) / 2) + 2 / 10 * (2 / 3 * 100) + 2 / 10 * (1 / 3 * 100) + 1 / (2::rat)\<rfloor>
       = (64::int)"
  by code_simp

text \<open>
  Claim C7.  The score is the rounded weighted sum of the claim, computed in binary64
  over the records of the agent that are in the store after the merge, and it is 50 for
  an agent without records and authorizations (the lemmas above; the last conjunct below
  evaluates that case).
  The records, however, are not deduplicated by hash: the merge compares a replayed
  request with the hashes the store had before the merge only.  When the replay holds
  the request of \<open>0xh1\<close> twice (answered 80) and that of \<open>0xh2\<close> once (answered 60), the
  store gets three records and the score is 64, where the formula on the records
  deduplicated by hash gives 62.
\<close>

theorem reputation_duplicate_events:
  "reputationScore (projr (fst (getAgentReputation replayLedger 2 (sys0 world0)))) = 64
   \<and> reputationScore_spec 2
        (validationStore (snd (getAgentReputation replayLedger 2 (sys0 world0)))) 0 3 = 62
   \<and> map dataHash (validationStore (snd (getAgentReputation replayLedger 2 (sys0 world0))))
        = [''0xh1'', ''0xh1'', ''0xh2'']
   \<and> reputationScore (projr (fst (getAgentReputation ledger 2 (sys0 world0)))) = 50"
  by code_simp

section \<open>Properties of the validation store\<close>

lemma store_inv_append:
  "store_inv (xs @ ys) \<longleftrightarrow> store_inv xs \<and> store_inv ys"
  by (auto simp: store_inv_def)

lemma requestValidation_store:
  fixes s :: "'w Sys"
  shows "validationStore (snd (requestValidation env v a d s)) = validationStore s
       \<or> (\<exists>h t. validationStore (snd (requestValidation env v a d s))
               = validationStore s @ [\<lparr>dataHash = h, vr_agentId = a, validatorId = v,
                                       score = None, responded = False, timestamp = t\<rparr>])"
  by (auto simp: requestValidation_def Let_def split: prod.splits sum.splits)

lemma requestValidation_inv:
  fixes s :: "'w Sys"
  assumes "store_inv (validationStore s)"
  shows "store_inv (validationStore (snd (requestValidation env v a d s)))"
  using requestValidation_store[of env v a d s] assms
  by (auto simp: store_inv_append) (simp add: store_inv_def)

lemma respondFirst_inv: "store_inv rs \<Longrightarrow> store_inv (respondFirst h sc rs)"
  by (induction rs) (auto simp: store_inv_def)

lemma submitValidationResponse_inv:
  fixes s :: "'w Sys"
  assumes "store_inv (validationStore s)"
  shows "store_inv (validationStore (snd (submitValidationResponse env h sc s)))"
  using assms
  by (auto simp: submitValidationResponse_def Let_def respondFirst_inv split: prod.splits sum.splits)

lemma mergeRequests_inv:
  "store_inv store \<Longrightarrow> store_inv (mergeRequests known rm els store)"
  by (induction known rm els store rule: mergeRequests.induct)
     (auto simp: store_inv_append, auto simp: store_inv_def)

lemma mergeEvents_inv: "store_inv store \<Longrightarrow> store_inv (mergeEvents rq rs store)"
  by (simp add: mergeEvents_def mergeRequests_inv)

lemma getAgentReputation_inv:
  fixes s :: "'w Sys"
  assumes "store_inv (validationStore s)"
  shows "store_inv (validationStore (snd (getAgentReputation env agent s)))"
  using assms
  by (auto simp: getAgentReputation_def Let_def mergeEvents_inv split: prod.splits sum.splits)

lemma find_in_set: "find P xs = Some x \<Longrightarrow> x \<in> set xs \<and> P x"
  by (induction xs) (auto split: if_splits)

lemma getValidationStatus_responded:
  fixes s :: "'w Sys"
  assumes inv: "store_inv (validationStore s)"
    and f: "find (\<lambda>r. dataHash r = h) (validationStore s) = Some r"
    and r: "responded r"
  shows "\<exists>sc. score r = Some sc
           \<and> getValidationStatus env h s = (Inr \<lparr>vs_status = ''RESPONDED'', vs_score = Some sc\<rparr>, s)"
proof -
  from find_in_set[OF f] have "r \<in> set (validationStore s)" by simp
  with inv r obtain sc where "score r = Some sc" by (auto simp: store_inv_def)
  with f r show ?thesis by (simp add: getValidationStatus_def)
qed

text \<open>
  Claim C10.  In the in-memory validation store a record is marked responded exactly when
  its score is not null.  The empty store satisfies this; \<open>requestValidation\<close> leaves the
  store alone or appends a record with a null score that is not responded, and keeps the
  invariant; \<open>submitValidationResponse\<close> and the event merge of \<open>getAgentReputation\<close>
  keep it.  So \<open>getValidationStatus\<close>, when the first record of the hash is responded,
  returns RESPONDED with the numeric score of that record and changes nothing.
\<close>

theorem validation_store_invariant:
  fixes env :: "'w Env" and s :: "'w Sys"
  shows "store_inv []
   \<and> (validationStore (snd (requestValidation env v a d s)) = validationStore s
       \<or> (\<exists>h t. validationStore (snd (requestValidation env v a d s))
               = validationStore s @ [\<lparr>dataHash = h, vr_agentId = a, validatorId = v,
                                       score = None, responded = False, timestamp = t\<rparr>]))
   \<and> (store_inv (validationStore s) \<longrightarrow>
         store_inv (validationStore (snd (requestValidation env v a d s)))
       \<and> store_inv (validationStore (snd (submitValidationResponse env h sc s)))
       \<and> store_inv (validationStore (snd (getAgentReputation env agent s)))
       \<and> (\<forall>r. find (\<lambda>r. dataHash r = h) (validationStore s) = Some r \<and> responded r \<longrightarrow>
             (\<exists>v. score r = Some v
                \<and> getValidationStatus env h s
                    = (Inr \<lparr>vs_status = ''RESPONDED'', vs_score = Some v\<rparr>, s))))"
proof -
  have 0: "store_inv []" by (simp add: store_inv_def)
  note 1 = requestValidation_store[of env v a d s]
  have 2: "store_inv (validationStore s) \<longrightarrow>
         store_inv (validationStore (snd (requestValidation env v a d s)))
       \<and> store_inv (validationStore (snd (submitValidationResponse env h sc s)))
       \<and> store_inv (validationStore (snd (getAgentReputation env agent s)))
       \<and> (\<forall>r. find (\<lambda>r. dataHash r = h) (validationStore s) = Some r \<and> responded r \<longrightarrow>
             (\<exists>v. score r = Some v
                \<and> getValidationStatus env h s
                    = (Inr \<lparr>vs_status = ''RESPONDED'', vs_score = Some v\<rparr>, s)))"
    using requestValidation_inv[of s env v a d] submitValidationResponse_inv[of s env h sc]
      getAgentReputation_inv[of s env agent] getValidationStatus_responded[of s h _ env]
    by blast
  from 0 1 2 show ?thesis by blast
qed

theorem validation_store_invariant_witness:
  "store_inv (validationStore (sys0 world0))
   \<and> store_inv (validationStore requested)
   \<and> store_inv (validationStore answered)
   \<and> map (\<lambda>r. (dataHash r, score r, responded r)) (validationStore answered)
        = [(''0xhash'', Some 75, True)]
   \<and> getValidationStatus ledger ''0xhash'' answered
        = (Inr \<lparr>vs_status = ''RESPONDED'', vs_score = Some 75\<rparr>, answered)"
proof -
  note t = validation_store_invariant[where env = ledger]
  have e: "validationStore (sys0 world0) = []" by (simp add: sys0_def)
  have i0: "store_inv (validationStore (sys0 world0))"
    using t[where s = "sys0 world0", THEN conjunct1] e by simp
  have i1: "store_inv (validationStore requested)"
    using t[where v = 2 and a = 2 and d = "(1, w_answer world0, 5)" and s = "sys0 world0",
            THEN conjunct2, THEN conjunct2,
            THEN mp, OF i0, THEN conjunct1]
    by (simp add: requested_def)
  have i2: "store_inv (validationStore answered)"
    using t[where s = requested and h = "''0xhash''" and sc = 75, THEN conjunct2, THEN conjunct2,
            THEN mp, OF i1, THEN conjunct2, THEN conjunct1]
    by (simp add: answered_def)
  have m: "map (\<lambda>r. (dataHash r, score r, responded r)) (validationStore answered)
        = [(''0xhash'', Some 75, True)]"
    unfolding answered_def requested_def by code_simp
  then obtain r where st: "validationStore answered = [r]" and r: "dataHash r = ''0xhash''"
    "score r = Some 75" "responded r"
    by (cases "validationStore answered") auto
  have f: "find (\<lambda>r. dataHash r = ''0xhash'') (validationStore answered) = Some r \<and> responded r"
    using st r by simp
  from t[where s = answered and h = "''0xhash''", THEN conjunct2, THEN conjunct2,
         THEN mp, OF i2, THEN conjunct2, THEN conjunct2, THEN conjunct2, THEN spec, THEN mp, OF f]
  have "getValidationStatus ledger ''0xhash'' answered
        = (Inr \<lparr>vs_status = ''RESPONDED'', vs_score = Some 75\<rparr>, answered)"
    using r by auto
  with i0 i1 i2 m show ?thesis by blast
qed

section \<open>Properties of per-deposit processing\<close>

lemma world_id: "\<exists>w. (s::'w Sys) = s\<lparr>world := w\<rparr>"
  by (rule exI[of _ "world s"]) simp

lemma readPositions_world:
  fixes s :: "'w Sys"
  shows "readPositions env ids acc s = (r, s1) \<Longrightarrow> \<exists>w. s1 = s\<lparr>world := w\<rparr>"
proof (induction ids arbitrary: acc s)
  case Nil
  then have "s1 = s\<lparr>world := world s\<rparr>" by simp
  then show ?case by blast
next
  case (Cons t rest)
  obtain r1 w1 where g: "getPositionInfo env (world s) t = (r1, w1)"
    by (cases "getPositionInfo env (world s) t")
  show ?case
  proof (cases r1)
    case (Inl e)
    with Cons.prems g show ?thesis by auto
  next
    case (Inr pos)
    with Cons.prems g obtain acc' where
      "readPositions env rest acc' (s\<lparr>world := w1\<rparr>) = (r, s1)"
      by (auto simp: Let_def)
    from Cons.IH[OF this] show ?thesis by auto
  qed
qed

lemma prepareDeposit_world:
  fixes s :: "'w Sys"
  assumes "prepareDeposit env d s = (r, s1)"
  shows "\<exists>w. s1 = s\<lparr>world := w\<rparr>"
proof -
  have triv: "s = s\<lparr>world := world s\<rparr>" by simp
  show ?thesis
  proof (cases "agentInfo s")
    case None
    with assms have "s1 = s" by (auto simp: prepareDeposit_def)
    then show ?thesis using world_id[of s] by simp
  next
    case (Some info)
    obtain r1 w1 where g: "getDepositInfo env (world s) d = (r1, w1)"
      by (cases "getDepositInfo env (world s) d")
    show ?thesis
    proof (cases r1)
      case (Inl e)
      with assms Some g show ?thesis by (auto simp: prepareDeposit_def)
    next
      case (Inr deposit)
      obtain r2 s2 where rp: "readPositions env (positionTokenIds deposit) [] (s\<lparr>world := w1\<rparr>) = (r2, s2)"
        by (cases "readPositions env (positionTokenIds deposit) [] (s\<lparr>world := w1\<rparr>)")
      from readPositions_world[OF rp] obtain w2 where s2: "s2 = s\<lparr>world := w2\<rparr>" by auto
      from assms Some g Inr rp s2 show ?thesis
        by (auto simp: prepareDeposit_def Let_def split: if_splits sum.splits prod.splits)
    qed
  qed
qed

lemma mint_gated:
  fixes s :: "'w Sys"
  shows "executeMintPosition env d lo hi a0 a1 s = (r, s') \<Longrightarrow>
         filter gated (trace s') = filter gated (trace s)"
  by (auto simp: executeMintPosition_def Let_def split: prod.splits sum.splits if_splits)

lemma close_gated:
  fixes s :: "'w Sys"
  shows "executeClosePosition env d t s = (r, s') \<Longrightarrow>
         filter gated (trace s') = filter gated (trace s)"
  by (auto simp: executeClosePosition_def Let_def split: prod.splits sum.splits)

lemma closeLoop_gated:
  fixes s :: "'w Sys"
  shows "closeLoop env d ids acc s = (r, s') \<Longrightarrow>
         filter gated (trace s') = filter gated (trace s)"
proof (induction ids arbitrary: acc s)
  case Nil
  then show ?case by simp
next
  case (Cons t rest)
  obtain r1 s1 where c: "executeClosePosition env d t s = (r1, s1)"
    by (cases "executeClosePosition env d t s")
  note g = close_gated[OF c]
  show ?case
  proof (cases r1)
    case (Inl e)
    with Cons.prems c g show ?thesis by simp
  next
    case (Inr cr)
    with Cons.prems c have "closeLoop env d rest (acc @ [cr]) s1 = (r, s')" by simp
    from Cons.IH[OF this] g show ?thesis by simp
  qed
qed

lemma rebalance_gated:
  fixes s :: "'w Sys"
  assumes run: "executeRebalance env d lo hi s = (r, s')"
  shows "filter gated (trace s') = filter gated (trace s)"
proof -
  obtain r1 w1 where d1: "getDepositInfo env (world s) d = (r1, w1)"
    by (cases "getDepositInfo env (world s) d")
  show ?thesis
  proof (cases r1)
    case (Inl e)
    with run d1 show ?thesis by (auto simp: executeRebalance_def)
  next
    case (Inr deposit)
    obtain r2 s2 where cl: "closeLoop env d (positionTokenIds deposit) [] (s\<lparr>world := w1\<rparr>) = (r2, s2)"
      by (cases "closeLoop env d (positionTokenIds deposit) [] (s\<lparr>world := w1\<rparr>)")
    from closeLoop_gated[OF cl] have g2: "filter gated (trace s2) = filter gated (trace s)" by simp
    show ?thesis
    proof (cases r2)
      case (Inl e)
      with run d1 Inr cl g2 show ?thesis by (auto simp: executeRebalance_def)
    next
      case closes: (Inr closes)
      obtain r3 w3 where d3: "getDepositInfo env (world s2) d = (r3, w3)"
        by (cases "getDepositInfo env (world s2) d")
      show ?thesis
      proof (cases r3)
        case (Inl e)
        with run d1 Inr cl closes d3 g2 show ?thesis by (auto simp: executeRebalance_def)
      next
        case dep2: (Inr deposit2)
        show ?thesis
        proof (cases "amount0Remaining deposit2 = 0 \<and> amount1Remaining deposit2 = 0")
          case True
          with run d1 Inr cl closes d3 dep2 g2 show ?thesis by (auto simp: executeRebalance_def)
        next
          case False
          obtain r4 s4 where m: "executeMintPosition env d lo hi
                        (amount0Remaining deposit2) (amount1Remaining deposit2)
                        (s2\<lparr>world := w3\<rparr>) = (r4, s4)"
            by (cases "executeMintPosition env d lo hi
                        (amount0Remaining deposit2) (amount1Remaining deposit2)
                        (s2\<lparr>world := w3\<rparr>)")
          from mint_gated[OF m] g2 have g4: "filter gated (trace s4) = filter gated (trace s)" by simp
          have "s' = s4" using run d1 Inr cl closes d3 dep2 False m
            by (auto simp: executeRebalance_def Let_def split: sum.splits)
          with g4 show ?thesis by simp
        qed
      qed
    qed
  qed
qed

lemma decision_gated:
  fixes s :: "'w Sys"
  assumes run: "executeDecision env d dec s = (r, s')"
  shows "filter gated (trace s') = filter gated (trace s) @ [ExecuteDecision d dec]"
proof -
  let ?s = "s\<lparr>trace := trace s @ [ExecuteDecision d dec]\<rparr>"
  have g0: "filter gated (trace ?s) = filter gated (trace s) @ [ExecuteDecision d dec]" by simp
  obtain r1 w1 where d1: "getDepositInfo env (world ?s) d = (r1, w1)"
    by (cases "getDepositInfo env (world ?s) d")
  show ?thesis
  proof (cases r1)
    case (Inl e)
    with run d1 show ?thesis by (auto simp: executeDecision_def Let_def)
  next
    case (Inr deposit)
    have p1: "\<And>r2 s2. executeMintPosition env d (the (tickLower dec)) (the (tickUpper dec))
                  (amount0Remaining deposit) (amount1Remaining deposit) (?s\<lparr>world := w1\<rparr>) = (r2, s2)
                \<Longrightarrow> filter gated (trace s2) = filter gated (trace s) @ [ExecuteDecision d dec]"
      using mint_gated by fastforce
    have p2: "\<And>r2 s2. closeLoop env d (positionTokenIds deposit) [] (?s\<lparr>world := w1\<rparr>) = (r2, s2)
                \<Longrightarrow> filter gated (trace s2) = filter gated (trace s) @ [ExecuteDecision d dec]"
      using closeLoop_gated by fastforce
    have p3: "\<And>r2 s2. executeRebalance env d (the (tickLower dec)) (the (tickUpper dec))
                  (?s\<lparr>world := w1\<rparr>) = (r2, s2)
                \<Longrightarrow> filter gated (trace s2) = filter gated (trace s) @ [ExecuteDecision d dec]"
      using rebalance_gated by fastforce
    from run d1 Inr p1 p2 p3 show ?thesis
      by (auto simp: executeDecision_def Let_def split: if_splits prod.splits sum.splits option.splits)
  qed
qed

lemma request_gated:
  fixes s :: "'w Sys"
  shows "requestValidation env v a dd s = (r, s') \<Longrightarrow>
         filter gated (trace s') = filter gated (trace s) @ [ValidationRequestTx v a (keccak256 env dd)]"
  by (auto simp: requestValidation_def Let_def split: prod.splits sum.splits)

lemma submit_gated:
  fixes s :: "'w Sys"
  shows "filter gated (trace (snd (submitValidationResponse env h sc s))) = filter gated (trace s)"
  by (auto simp: submitValidationResponse_def Let_def split: prod.splits sum.splits)

lemma validateAndExecute_gated:
  fixes s :: "'w Sys"
  assumes run: "validateAndExecute env info d dec s = (r, s')"
  shows "filter gated (trace s') =
           filter gated (trace s)
           @ (if action dec \<noteq> HOLD
              then [ValidationRequestTx (agentId info) (agentId info)
                      (keccak256 env (d, dec, nowMs env (world s)))]
              else [])
           @ [ExecuteDecision d dec]"
proof -
  define pre where "pre = (if action dec \<noteq> HOLD then
               (case requestValidation env (agentId info) (agentId info)
                       (d, dec, nowMs env (world s)) s of
                  (Inl e, s1) \<Rightarrow> (None, s1)
                | (Inr h, s1) \<Rightarrow> (Some h, s1))
             else (None, s))"
  obtain h s1 where pre: "pre = (h, s1)" by (cases pre)
  have g1: "filter gated (trace s1) = filter gated (trace s)
           @ (if action dec \<noteq> HOLD
              then [ValidationRequestTx (agentId info) (agentId info)
                      (keccak256 env (d, dec, nowMs env (world s)))]
              else [])"
    using pre request_gated[of env "agentId info" "agentId info" "(d, dec, nowMs env (world s))" s]
    by (auto simp: pre_def split: if_splits prod.splits sum.splits)
  obtain r2 s2 where e: "executeDecision env d dec s1 = (r2, s2)"
    by (cases "executeDecision env d dec s1")
  note g2 = decision_gated[OF e]
  have "filter gated (trace s') = filter gated (trace s2)"
    using run pre e submit_gated[of env _ _ s2]
    by (auto simp: validateAndExecute_def pre_def[symmetric] Let_def
        split: sum.splits option.splits if_splits)
  with g1 g2 show ?thesis by simp
qed

lemma fallback_confidence: "60 \<le> confidence (getFallbackDecision a st ps)"
  by (simp add: getFallbackDecision_def Let_def)

lemma analyzePool_fallback:
  assumes "analyzePoolWithGemini env analysis strat ps w = (dec0, w1)"
    and "confidence dec0 = 0 \<or> str_includes (reason dec0) ''Failed to parse''"
  shows "analyzePool env analysis strat ps w = (getFallbackDecision analysis strat ps, w1)"
  using assms by (auto simp: analyzePool_def)

lemma processDeposit_gate_closed:
  fixes s :: "'w Sys"
  assumes prep: "prepareDeposit env depositId s = (Inr (Ready info (Some strat) analysis ps), s1)"
    and dec: "analyzePoolWithGemini env analysis strat ps (world s1) = (dec, w2)"
    and low: "confidence dec < 60"
  shows "processDeposit env depositId s = (Inr (), s1\<lparr>world := w2\<rparr>)
       \<and> trace (s1\<lparr>world := w2\<rparr>) = trace s
       \<and> validationStore (s1\<lparr>world := w2\<rparr>) = validationStore s
       \<and> positionTickCache (s1\<lparr>world := w2\<rparr>) = positionTickCache s"
proof -
  from prepareDeposit_world[OF prep] obtain w where "s1 = s\<lparr>world := w\<rparr>" by blast
  then show ?thesis using prep dec low by (simp add: processDeposit_def)
qed

lemma processDeposit_gated_events:
  fixes s :: "'w Sys"
  assumes run: "processDeposit env depositId s = (r, s')"
  shows "filter gated (trace s') = filter gated (trace s)
       \<or> (\<exists>(info::AgentInfo) dec t. 60 \<le> confidence dec
             \<and> filter gated (trace s') =
                 filter gated (trace s)
                 @ (if action dec \<noteq> HOLD
                    then [ValidationRequestTx (agentId info) (agentId info)
                            (keccak256 env (depositId, dec, t))]
                    else [])
                 @ [ExecuteDecision depositId dec])"
proof -
  obtain rp s1 where prep: "prepareDeposit env depositId s = (rp, s1)"
    by (cases "prepareDeposit env depositId s")
  from prepareDeposit_world[OF prep] obtain w where s1: "s1 = s\<lparr>world := w\<rparr>" by blast
  then have t1: "trace s1 = trace s" by simp
  show ?thesis
  proof (cases "\<exists>info strat analysis ps. rp = Inr (Ready info (Some strat) analysis ps)")
    case False
    then have "s' = s1" using run prep
      by (auto simp: processDeposit_def split: sum.splits Prepared.splits option.splits)
    with t1 show ?thesis by simp
  next
    case True
    then obtain info strat analysis ps where rp: "rp = Inr (Ready info (Some strat) analysis ps)"
      by blast
    obtain dec w2 where d: "analyzePoolWithGemini env analysis strat ps (world s1) = (dec, w2)"
      by (cases "analyzePoolWithGemini env analysis strat ps (world s1)")
    show ?thesis
    proof (cases "confidence dec < 60")
      case True
      then have "s' = s1\<lparr>world := w2\<rparr>" using run prep rp d by (simp add: processDeposit_def)
      with t1 show ?thesis by simp
    next
      case False
      obtain r3 s3 where v: "validateAndExecute env info depositId dec (s1\<lparr>world := w2\<rparr>) = (r3, s3)"
        by (cases "validateAndExecute env info depositId dec (s1\<lparr>world := w2\<rparr>)")
      have "s' = s3" using run prep rp d False v
        by (auto simp: processDeposit_def split: sum.splits)
      with validateAndExecute_gated[OF v] t1 False
      have "60 \<le> confidence dec
             \<and> filter gated (trace s') =
                 filter gated (trace s)
                 @ (if action dec \<noteq> HOLD
                    then [ValidationRequestTx (agentId info) (agentId info)
                            (keccak256 env (depositId, dec, nowMs env w2))]
                    else [])
                 @ [ExecuteDecision depositId dec]" by simp
      then show ?thesis by blast
    qed
  qed
qed

lemma processDeposit_direct_events:
  fixes s :: "'w Sys"
  assumes prep: "prepareDeposit env depositId s = (Inr (Ready info (Some strat) analysis ps), s1)"
    and dec: "analyzePool env analysis strat ps (world s1) = (dec, w2)"
    and run: "processDeposit_direct env depositId s = (r, s')"
  shows "filter gated (trace s') =
           filter gated (trace s)
           @ (if action dec \<noteq> HOLD
              then [ValidationRequestTx (agentId info) (agentId info)
                      (keccak256 env (depositId, dec, nowMs env w2))]
              else [])
           @ [ExecuteDecision depositId dec]"
proof -
  from prepareDeposit_world[OF prep] obtain w where s1: "s1 = s\<lparr>world := w\<rparr>" by blast
  then have t1: "trace s1 = trace s" by simp
  obtain r3 s3 where v: "validateAndExecute env info depositId dec (s1\<lparr>world := w2\<rparr>) = (r3, s3)"
    by (cases "validateAndExecute env info depositId dec (s1\<lparr>world := w2\<rparr>)")
  have "s' = s3" using run prep dec v
    by (auto simp: processDeposit_direct_def split: sum.splits)
  with validateAndExecute_gated[OF v] t1 show ?thesis by simp
qed

text \<open>
  Claim C9, as amended.  There are two versions of \<open>processDeposit\<close>.  The one that
  takes its decision from \<open>analyzePoolWithGemini\<close> applies the gate: a run adds to the
  trace either no validation request and no call of \<open>executeDecision\<close>, or those of one
  decision with confidence at least 60; when the decision has confidence below 60 the
  run returns at once, with the trace, the validation store and the cache unchanged.
  The one that takes its decision from \<open>analyzePool\<close> has no gate: whatever the
  confidence of the decision, it requests the validation (unless the action is HOLD) and
  calls \<open>executeDecision\<close> with it.  What \<open>analyzePool\<close> does instead is to replace an
  answer of confidence 0, or one carrying the parse-failure marker, by the fallback
  decision, whose confidence is at least 60.
\<close>

theorem confidence_gate:
  fixes env :: "'w Env" and s :: "'w Sys"
  shows
  "(\<forall>r s'. processDeposit env depositId s = (r, s') \<longrightarrow>
      filter gated (trace s') = filter gated (trace s)
      \<or> (\<exists>(info::AgentInfo) dec t. 60 \<le> confidence dec
             \<and> filter gated (trace s') =
                 filter gated (trace s)
                 @ (if action dec \<noteq> HOLD
                    then [ValidationRequestTx (agentId info) (agentId info)
                            (keccak256 env (depositId, dec, t))]
                    else [])
                 @ [ExecuteDecision depositId dec]))
   \<and> (\<forall>(info::AgentInfo) strat analysis ps (s1::'w Sys) dec w2.
        prepareDeposit env depositId s = (Inr (Ready info (Some strat) analysis ps), s1)
        \<and> analyzePoolWithGemini env analysis strat ps (world s1) = (dec, w2)
        \<and> confidence dec < 60 \<longrightarrow>
          processDeposit env depositId s = (Inr (), s1\<lparr>world := w2\<rparr>)
        \<and> trace (s1\<lparr>world := w2\<rparr>) = trace s
        \<and> validationStore (s1\<lparr>world := w2\<rparr>) = validationStore s
        \<and> positionTickCache (s1\<lparr>world := w2\<rparr>) = positionTickCache s)
   \<and> (\<forall>(info::AgentInfo) strat analysis ps (s1::'w Sys) dec w2 r s'.
        prepareDeposit env depositId s = (Inr (Ready info (Some strat) analysis ps), s1)
        \<and> analyzePool env analysis strat ps (world s1) = (dec, w2)
        \<and> processDeposit_direct env depositId s = (r, s') \<longrightarrow>
          filter gated (trace s') =
            filter gated (trace s)
            @ (if action dec \<noteq> HOLD
               then [ValidationRequestTx (agentId info) (agentId info)
                       (keccak256 env (depositId, dec, nowMs env w2))]
               else [])
            @ [ExecuteDecision depositId dec])
   \<and> (\<forall>analysis strat ps w dec0 w1.
        analyzePoolWithGemini env analysis strat ps w = (dec0, w1)
        \<and> (confidence dec0 = 0 \<or> str_includes (reason dec0) ''Failed to parse'') \<longrightarrow>
          analyzePool env analysis strat ps w = (getFallbackDecision analysis strat ps, w1)
        \<and> 60 \<le> confidence (getFallbackDecision analysis strat ps))"
proof -
  have a: "\<forall>r s'. processDeposit env depositId s = (r, s') \<longrightarrow>
      filter gated (trace s') = filter gated (trace s)
      \<or> (\<exists>(info::AgentInfo) dec t. 60 \<le> confidence dec
             \<and> filter gated (trace s') =
                 filter gated (trace s)
                 @ (if action dec \<noteq> HOLD
                    then [ValidationRequestTx (agentId info) (agentId info)
                            (keccak256 env (depositId, dec, t))]
                    else [])
                 @ [ExecuteDecision depositId dec])"
    using processDeposit_gated_events[of env depositId s] by blast
  have b: "\<forall>(info::AgentInfo) strat analysis ps (s1::'w Sys) dec w2.
        prepareDeposit env depositId s = (Inr (Ready info (Some strat) analysis ps), s1)
        \<and> analyzePoolWithGemini env analysis strat ps (world s1) = (dec, w2)
        \<and> confidence dec < 60 \<longrightarrow>
          processDeposit env depositId s = (Inr (), s1\<lparr>world := w2\<rparr>)
        \<and> trace (s1\<lparr>world := w2\<rparr>) = trace s
        \<and> validationStore (s1\<lparr>world := w2\<rparr>) = validationStore s
        \<and> positionTickCache (s1\<lparr>world := w2\<rparr>) = positionTickCache s"
    using processDeposit_gate_closed[of env depositId s] by blast
  have c: "\<forall>(info::AgentInfo) strat analysis ps (s1::'w Sys) dec w2 r s'.
        prepareDeposit env depositId s = (Inr (Ready info (Some strat) analysis ps), s1)
        \<and> analyzePool env analysis strat ps (world s1) = (dec, w2)
        \<and> processDeposit_direct env depositId s = (r, s') \<longrightarrow>
          filter gated (trace s') =
            filter gated (trace s)
            @ (if action dec \<noteq> HOLD
               then [ValidationRequestTx (agentId info) (agentId info)
                       (keccak256 env (depositId, dec, nowMs env w2))]
               else [])
            @ [ExecuteDecision depositId dec]"
    using processDeposit_direct_events[of env depositId s] by blast
  have d: "\<forall>analysis strat ps w dec0 w1.
        analyzePoolWithGemini env analysis strat ps w = (dec0, w1)
        \<and> (confidence dec0 = 0 \<or> str_includes (reason dec0) ''Failed to parse'') \<longrightarrow>
          analyzePool env analysis strat ps w = (getFallbackDecision analysis strat ps, w1)
        \<and> 60 \<le> confidence (getFallbackDecision analysis strat ps)"
    using analyzePool_fallback[of env] fallback_confidence by blast
  from a b c d show ?thesis by (intro conjI)
qed

lemma lc0: "toLowerCase ''0xABC1'' = toLowerCase ''0xAbC1''"
  by code_simp

lemma prep0: "prepareDeposit ledger 1 (sys0 world0)
     = (Inr (Ready \<lparr>agentId = 2, domain = ''agent.test'', address = ''0xAbC1''\<rparr> (Some BALANCED)
               analysis0 []), (sys0 world0)\<lparr>world := world0\<rparr>)"
  by (simp add: prepareDeposit_def ledger_def sys0_def world0_def lc0
      STRATEGY_MAP_def analysis0_def Let_def)

lemma dec0: "analyzePoolWithGemini ledger analysis0 BALANCED [] (world ((sys0 world0)\<lparr>world := world0\<rparr>))
     = (w_answer world0, world0)"
  by (simp add: analyzePoolWithGemini_def ledger_def sys0_def world0_def normalizeDecision_def
      alignTick_def Let_def)

theorem confidence_gate_witness:
  "confidence (w_answer world0) < 60
   \<and> processDeposit ledger 1 (sys0 world0) = (Inr (), (sys0 world0)\<lparr>world := world0\<rparr>)
   \<and> trace ((sys0 world0)\<lparr>world := world0\<rparr>) = []
   \<and> filter gated (trace (snd (processDeposit ledger 1 (sys0 worldSure))))
       = [ValidationRequestTx 2 2 ''0xhash'', ExecuteDecision 1 (w_answer worldSure)]
   \<and> 60 \<le> confidence (w_answer worldSure)"
proof -
  have low: "confidence (w_answer world0) < 60" by (simp add: world0_def)
  have h: "prepareDeposit ledger 1 (sys0 world0)
     = (Inr (Ready \<lparr>agentId = 2, domain = ''agent.test'', address = ''0xAbC1''\<rparr> (Some BALANCED)
               analysis0 []), (sys0 world0)\<lparr>world := world0\<rparr>)
     \<and> analyzePoolWithGemini ledger analysis0 BALANCED []
          (world ((sys0 world0)\<lparr>world := world0\<rparr>)) = (w_answer world0, world0)
     \<and> confidence (w_answer world0) < 60"
    using prep0 dec0 low by simp
  note g = confidence_gate[where env = ledger and depositId = 1 and s = "sys0 world0",
      THEN conjunct2, THEN conjunct1, THEN spec, THEN spec, THEN spec, THEN spec, THEN spec,
      THEN spec, THEN spec, THEN mp, OF h]
  then have r1: "processDeposit ledger 1 (sys0 world0) = (Inr (), (sys0 world0)\<lparr>world := world0\<rparr>)"
    and r2: "trace ((sys0 world0)\<lparr>world := world0\<rparr>) = []"
    by (simp_all add: sys0_def)
  have ev: "filter gated (trace (snd (processDeposit ledger 1 (sys0 worldSure))))
       = [ValidationRequestTx 2 2 ''0xhash'', ExecuteDecision 1 (w_answer worldSure)]"
    by code_simp
  have run: "processDeposit ledger 1 (sys0 worldSure)
       = (fst (processDeposit ledger 1 (sys0 worldSure)), snd (processDeposit ledger 1 (sys0 worldSure)))"
    by simp
  have t0: "trace (sys0 worldSure) = []" by (simp add: sys0_def)
  from confidence_gate[where env = ledger and depositId = 1 and s = "sys0 worldSure",
      THEN conjunct1, THEN spec, THEN spec, THEN mp, OF run] ev t0
  have "60 \<le> confidence (w_answer worldSure)" by auto
  with low r1 r2 ev show ?thesis by blast
qed

text \<open>
  Claim C9 as stated fails for the version without the gate: an advisory answer MINT with
  confidence 50 is validated, passed to \<open>executeDecision\<close> and minted.
\<close>

theorem confidence_gate_counterexample:
  "confidence (w_answer world0) = 50
   \<and> filter gated (trace (snd (processDeposit_direct ledger 1 (sys0 world0))))
       = [ValidationRequestTx 2 2 ''0xhash'', ExecuteDecision 1 (w_answer world0)]
   \<and> mintCalls (trace (snd (processDeposit_direct ledger 1 (sys0 world0))))
       = [(1, -202200, -201000, 1478, 1000000, 1000000)]"
  by code_simp

end
